(* ===== verification/Prelude.thy ===== *)
theory Prelude
  imports Main "HOL-Library.Word"
begin

text \<open>
  Shared vocabulary of the development: machine integers at the width the Rust source gives
  them, the \<open>Result\<close> and \<open>Poll\<close> types of the Rust standard library with the combinators the
  source calls on them, decimal printing (\<open>Display\<close> for unsigned integers), and the interface
  locales that several components implement: an invariant of a transition system, a registry
  with get-or-create semantics, and a handle that can be closed at most once.
\<close>

section \<open>Machine integers and byte strings\<close>

type_synonym u8 = "8 word"
type_synonym u16 = "16 word"
type_synonym u32 = "32 word"
type_synonym i32 = "32 word"
type_synonym u64 = "64 word"
type_synonym u128 = "128 word"
type_synonym bytes = "u8 list"

text \<open>
  Lengths and offsets (\<open>usize\<close>) are \<open>nat\<close>: they count bytes that exist in memory and the source
  never computes one that could exceed \<open>usize::MAX\<close>.
  A 64-bit floating point number is its bit pattern: the source only moves such values.
\<close>

type_synonym f64 = "64 word"

section \<open>Collections of facts\<close>

named_theorems sample_simps \<open>the concrete states the witnesses start from\<close>
named_theorems handler_simps \<open>definitions of the transport callbacks and of what they call\<close>

section \<open>Result and Poll\<close>

datatype ('e, 'a) result = is_err: Err 'e | is_ok: Ok 'a

datatype 'a poll = Ready 'a | Pending

fun map_err :: "('e \<Rightarrow> 'f) \<Rightarrow> ('e, 'a) result \<Rightarrow> ('f, 'a) result" where
  "map_err f (Err e) = Err (f e)"
| "map_err f (Ok a) = Ok a"

fun map_ok :: "('a \<Rightarrow> 'b) \<Rightarrow> ('e, 'a) result \<Rightarrow> ('e, 'b) result" where
  "map_ok f (Err e) = Err e"
| "map_ok f (Ok a) = Ok (f a)"

fun bind_result :: "('e, 'a) result \<Rightarrow> ('a \<Rightarrow> ('e, 'b) result) \<Rightarrow> ('e, 'b) result" where
  "bind_result (Err e) f = Err e"
| "bind_result (Ok a) f = f a"

fun result_ok :: "('e, 'a) result \<Rightarrow> 'a option" where
  "result_ok (Err e) = None"
| "result_ok (Ok a) = Some a"

fun unwrap_or :: "'a option \<Rightarrow> 'a \<Rightarrow> 'a" where
  "unwrap_or None d = d"
| "unwrap_or (Some a) d = a"

fun or_else :: "'a option \<Rightarrow> 'a option \<Rightarrow> 'a option" where
  "or_else None d = d"
| "or_else (Some a) d = Some a"

lemma map_err_eq_Ok [simp]: "map_err f r = Ok a \<longleftrightarrow> r = Ok a"
  by (cases r) auto

lemma map_err_eq_Err: "map_err f r = Err e \<longleftrightarrow> (\<exists>e'. r = Err e' \<and> e = f e')"
  by (cases r) auto

lemma map_ok_eq_Err [simp]: "map_ok f r = Err e \<longleftrightarrow> r = Err e"
  by (cases r) auto

lemma bind_result_eq_Ok: "bind_result r f = Ok b \<longleftrightarrow> (\<exists>a. r = Ok a \<and> f a = Ok b)"
  by (cases r) auto

lemma bind_result_eq_Err:
  "bind_result r f = Err e \<longleftrightarrow> r = Err e \<or> (\<exists>a. r = Ok a \<and> f a = Err e)"
  by (cases r) auto

lemma is_ok_map_err [simp]: "is_ok (map_err f r) = is_ok r"
  by (cases r) auto

section \<open>Decimal printing\<close>

definition digit_char :: "nat \<Rightarrow> char" where
  "digit_char d = char_of (48 + d)"

fun show_nat :: "nat \<Rightarrow> string" where
  "show_nat n = (if n < 10 then [digit_char n] else show_nat (n div 10) @ [digit_char (n mod 10)])"

declare show_nat.simps [simp del]

definition show_u64 :: "u64 \<Rightarrow> string" where
  "show_u64 w = show_nat (unat w)"

text \<open>The inverse of printing, used to show that two numbers never print alike.\<close>

definition parse_dec :: "string \<Rightarrow> nat" where
  "parse_dec s = foldl (\<lambda>n c. 10 * n + (of_char c - 48)) 0 s"

lemma of_char_digit_char [simp]: "d < 10 \<Longrightarrow> of_char (digit_char d) = 48 + d"
  by (simp add: digit_char_def)

lemma parse_dec_show_nat: "parse_dec (show_nat n) = n"
proof (induction n rule: show_nat.induct)
  case (1 n)
  show ?case
  proof (cases "n < 10")
    case True
    then show ?thesis by (subst show_nat.simps) (simp add: parse_dec_def)
  next
    case False
    with 1 have "parse_dec (show_nat (n div 10)) = n div 10" by simp
    with False show ?thesis
      by (subst show_nat.simps) (simp add: parse_dec_def)
  qed
qed

lemma show_nat_inject [simp]: "show_nat m = show_nat n \<longleftrightarrow> m = n"
  by (metis parse_dec_show_nat)

lemma show_u64_inject [simp]: "show_u64 v = show_u64 w \<longleftrightarrow> v = w"
  by (simp add: show_u64_def word_unat_eq_iff)

section \<open>Lists\<close>

text \<open>Writing \<open>data\<close> over the front of a buffer: \<open>buf[..n].copy_from_slice(&data)\<close>.\<close>

definition write_front :: "'a list \<Rightarrow> 'a list \<Rightarrow> 'a list" where
  "write_front xs ys = xs @ drop (length xs) ys"

lemma length_write_front [simp]: "length xs \<le> length ys \<Longrightarrow> length (write_front xs ys) = length ys"
  by (simp add: write_front_def)

lemma take_write_front [simp]: "take (length xs) (write_front xs ys) = xs"
  by (simp add: write_front_def)

lemma drop_write_front [simp]: "drop (length xs) (write_front xs ys) = drop (length xs) ys"
  by (simp add: write_front_def)

section \<open>Interfaces shared by the components\<close>

subsection \<open>Invariants of a transition system\<close>

inductive reachable_from :: "('s \<Rightarrow> bool) \<Rightarrow> ('s \<Rightarrow> 's \<Rightarrow> bool) \<Rightarrow> 's \<Rightarrow> bool"
  for init :: "'s \<Rightarrow> bool" and step :: "'s \<Rightarrow> 's \<Rightarrow> bool" where
  start: "init s \<Longrightarrow> reachable_from init step s"
| step: "reachable_from init step s \<Longrightarrow> step s t \<Longrightarrow> reachable_from init step t"

locale invariant_system =
  fixes init :: "'s \<Rightarrow> bool"
    and step :: "'s \<Rightarrow> 's \<Rightarrow> bool"
    and inv :: "'s \<Rightarrow> bool"
  assumes inv_init: "init s \<Longrightarrow> inv s"
    and inv_step: "inv s \<Longrightarrow> step s t \<Longrightarrow> inv t"
begin

lemma reachable_inv: "reachable_from init step s \<Longrightarrow> inv s"
  by (induction rule: reachable_from.induct) (blast intro: inv_init inv_step)+

end

subsection \<open>Refinement of a specification\<close>

text \<open>An operation that commutes with the abstraction, hence whole runs of it do.\<close>

locale commutes =
  fixes op :: "'e \<Rightarrow> 's \<Rightarrow> 's"
    and spec_op :: "'e \<Rightarrow> 'a \<Rightarrow> 'a"
    and abs :: "'s \<Rightarrow> 'a"
  assumes abs_op: "abs (op e s) = spec_op e (abs s)"
begin

lemma abs_run: "abs (fold op es s) = fold spec_op es (abs s)"
  by (induction es arbitrary: s) (simp_all add: abs_op)

end

subsection \<open>Runs of a step function\<close>

text \<open>A property that every call of an operation keeps is kept by any sequence of calls.\<close>

locale preserved =
  fixes op :: "'e \<Rightarrow> 's \<Rightarrow> 's"
    and inv :: "'s \<Rightarrow> bool"
  assumes op_inv: "inv s \<Longrightarrow> inv (op e s)"
begin

lemma run_inv: "inv s \<Longrightarrow> inv (fold op es s)"
  by (induction es arbitrary: s) (simp_all add: op_inv)

end

subsection \<open>A registry with get-or-create\<close>

text \<open>
  \<open>create\<close> makes sure that a key has an entry and never disturbs one that is there. This is
  what the per-stream notification tables promise to the tasks that wait on them.
\<close>

locale registry =
  fixes lookup :: "'r \<Rightarrow> 'k \<Rightarrow> 'v option"
    and create :: "'k \<Rightarrow> 'r \<Rightarrow> 'r"
    and fresh :: 'v
  assumes lookup_create: "lookup (create k r) j
    = (if j = k \<and> lookup r k = None then Some fresh else lookup r j)"
begin

lemma create_present: "lookup (create k r) k \<noteq> None"
  by (simp add: lookup_create)

lemma create_keeps: "lookup r j = Some v \<Longrightarrow> lookup (create k r) j = Some v"
  by (auto simp: lookup_create)

end

subsection \<open>A handle that is closed at most once\<close>

text \<open>
  \<open>close\<close> fails without effect on a closed handle; on an open one it closes it and emits one
  message. \<open>SendStream::finish\<close>, \<open>SendStream::reset\<close> and \<open>RecvStream::stop\<close> implement it.
\<close>

text \<open>The messages of a sequence of close requests, and the handle after it.\<close>

fun close_log :: "('arg \<Rightarrow> 's \<Rightarrow> ('e, unit) result \<times> 'm list \<times> 's) \<Rightarrow> 'arg list \<Rightarrow> 's \<Rightarrow> 'm list \<times> 's" where
  "close_log close [] s = ([], s)"
| "close_log close (a # as) s =
     (let (r, ms, t) = close a s; (ms', u) = close_log close as t in (ms @ ms', u))"

locale close_once =
  fixes closed :: "'s \<Rightarrow> bool"
    and close :: "'arg \<Rightarrow> 's \<Rightarrow> ('e, unit) result \<times> 'm list \<times> 's"
    and msg :: "'arg \<Rightarrow> 's \<Rightarrow> 'm"
    and err :: 'e
  assumes close_closed: "closed s \<Longrightarrow> close a s = (Err err, [], s)"
    and close_open: "\<not> closed s \<Longrightarrow> \<exists>t. close a s = (Ok (), [msg a s], t) \<and> closed t"
begin

lemma closed_after: "closed (snd (snd (close a s)))"
  using close_closed [of s a] close_open [of s a] by (cases "closed s") auto

lemma close_twice:
  "close a s = (r, ms, t) \<Longrightarrow> close b t = (Err err, [], t)"
  using closed_after [of a s] by (simp add: close_closed)

text \<open>Any sequence of close requests emits the message of the first one only.\<close>

lemma close_emits: "fst (snd (close a s)) = (if closed s then [] else [msg a s])"
  using close_closed [of s a] close_open [of s a] by auto

lemma log_closed: "closed s \<Longrightarrow> close_log close as s = ([], s)"
  by (induction as) (simp_all add: close_closed)

lemma log_once:
  "close_log close (a # as) s = ((if closed s then [] else [msg a s]), snd (snd (close a s)))
   \<and> closed (snd (close_log close (a # as) s))"
  using closed_after [of a s] close_emits [of a s] log_closed [of "snd (snd (close a s))" as]
  by (cases "close a s") (simp add: Let_def)

end

end
