(* ===== verification/Lib_Types.thy ===== *)
theory Lib_Types
  imports Prelude
begin

text \<open>
  The value types of \<^verbatim>\<open>src/lib.rs\<close> (\<open>VarInt\<close>, \<open>StreamId\<close>, \<open>Side\<close>, \<open>Dir\<close>) with their
  conversions and the orders the source derives, and \<open>std::net::SocketAddr\<close> with its textual
  form, which the error conversions print.
\<close>

unbundle bit_operations_syntax

section \<open>VarInt\<close>

datatype VarInt = VarInt (varint_into_inner: u64)

definition VarInt_MAX :: VarInt where
  "VarInt_MAX = VarInt (push_bit 62 1 - 1)"

definition varint_from_u64 :: "u64 \<Rightarrow> VarInt option" where
  "varint_from_u64 v = (if v \<le> varint_into_inner VarInt_MAX then Some (VarInt v) else None)"

definition varint_from_u32 :: "u32 \<Rightarrow> VarInt" where
  "varint_from_u32 v = VarInt (ucast v)"

definition varint_from_u16 :: "u16 \<Rightarrow> VarInt" where
  "varint_from_u16 v = VarInt (ucast v)"

definition varint_from_u8 :: "u8 \<Rightarrow> VarInt" where
  "varint_from_u8 v = VarInt (ucast v)"

definition show_VarInt :: "VarInt \<Rightarrow> string" where
  "show_VarInt x = show_u64 (varint_into_inner x)"

instantiation VarInt :: linorder
begin

definition less_eq_VarInt :: "VarInt \<Rightarrow> VarInt \<Rightarrow> bool" where
  "less_eq_VarInt x y \<longleftrightarrow> varint_into_inner x \<le> varint_into_inner y"

definition less_VarInt :: "VarInt \<Rightarrow> VarInt \<Rightarrow> bool" where
  "less_VarInt x y \<longleftrightarrow> varint_into_inner x < varint_into_inner y"

instance
  by standard (auto simp: less_eq_VarInt_def less_VarInt_def intro: VarInt.expand)

end

text \<open>The type invariant: what a QUIC variable-length integer can encode.\<close>

definition varint_ok :: "VarInt \<Rightarrow> bool" where
  "varint_ok x \<longleftrightarrow> x \<le> VarInt_MAX"

lemma VarInt_MAX_inner [simp]: "varint_into_inner VarInt_MAX = 2 ^ 62 - 1"
  by (simp add: VarInt_MAX_def)

lemma varint_ok_unat: "varint_ok x \<longleftrightarrow> unat (varint_into_inner x) < 2 ^ 62"
  by (auto simp: varint_ok_def less_eq_VarInt_def word_le_nat_alt)

lemma unat_ucast_u32_u64 [simp]: "unat (ucast (v :: u32) :: u64) = unat v"
  by transfer simp

lemma unat_ucast_u16_u64 [simp]: "unat (ucast (v :: u16) :: u64) = unat v"
  by transfer simp

lemma unat_ucast_u8_u64 [simp]: "unat (ucast (v :: u8) :: u64) = unat v"
  by transfer simp

section \<open>StreamId, Side and Dir\<close>

datatype StreamId = StreamId (streamid_into_inner: u64)

definition streamid_from_raw :: "u64 \<Rightarrow> StreamId" where
  "streamid_from_raw v = StreamId v"

definition show_StreamId :: "StreamId \<Rightarrow> string" where
  "show_StreamId x = show_u64 (streamid_into_inner x)"

instantiation StreamId :: linorder
begin

definition less_eq_StreamId :: "StreamId \<Rightarrow> StreamId \<Rightarrow> bool" where
  "less_eq_StreamId x y \<longleftrightarrow> streamid_into_inner x \<le> streamid_into_inner y"

definition less_StreamId :: "StreamId \<Rightarrow> StreamId \<Rightarrow> bool" where
  "less_StreamId x y \<longleftrightarrow> streamid_into_inner x < streamid_into_inner y"

instance
  by standard (auto simp: less_eq_StreamId_def less_StreamId_def intro: StreamId.expand)

end

datatype Side = Client | Server

datatype Dir = Bi | Uni

section \<open>Socket addresses\<close>

text \<open>
  \<open>V4 ip port\<close> and \<open>V6 ip port flowinfo scope_id\<close>, with the addresses as 32 and 128 bit numbers
  in network order.
\<close>

datatype SocketAddr = V4 "32 word" u16 | V6 "128 word" u16 u32 u32

definition addr_unspecified :: SocketAddr where
  "addr_unspecified = V4 0 0"

definition show_ipv4 :: "32 word \<Rightarrow> string" where
  "show_ipv4 a =
     show_nat (unat (drop_bit 24 a)) @ ''.'' @ show_nat (unat (drop_bit 16 a AND 255)) @ ''.''
     @ show_nat (unat (drop_bit 8 a AND 255)) @ ''.'' @ show_nat (unat (a AND 255))"

definition hex_char :: "nat \<Rightarrow> char" where
  "hex_char d = (if d < 10 then digit_char d else char_of (87 + d))"

fun show_hex :: "nat \<Rightarrow> string" where
  "show_hex n = (if n < 16 then [hex_char n] else show_hex (n div 16) @ [hex_char (n mod 16)])"

declare show_hex.simps [simp del]

definition segments :: "128 word \<Rightarrow> nat list" where
  "segments a = map (\<lambda>i. unat (drop_bit (16 * (7 - i)) a AND 65535)) [0 ..< 8]"

text \<open>The first longest run of zero segments, as (start, length).\<close>

fun zero_span :: "nat list \<Rightarrow> nat \<Rightarrow> nat \<times> nat \<Rightarrow> nat \<times> nat \<Rightarrow> nat \<times> nat" where
  "zero_span [] i longest current = longest"
| "zero_span (s # ss) i longest current =
     (if s = 0
      then let current' = (if snd current = 0 then (i, 1) else (fst current, Suc (snd current)))
           in zero_span ss (Suc i) (if snd current' > snd longest then current' else longest) current'
      else zero_span ss (Suc i) longest (0, 0))"

fun show_segments :: "nat list \<Rightarrow> string" where
  "show_segments [] = ''''"
| "show_segments [s] = show_hex s"
| "show_segments (s # ss) = show_hex s @ '':'' @ show_segments ss"

definition show_ipv6 :: "128 word \<Rightarrow> string" where
  "show_ipv6 a =
     (if drop_bit 32 a = 65535 then ''::ffff:'' @ show_ipv4 (ucast a)
      else let segs = segments a; z = zero_span segs 0 (0, 0) (0, 0)
           in if snd z > 1
              then show_segments (take (fst z) segs) @ ''::'' @ show_segments (drop (fst z + snd z) segs)
              else show_segments segs)"

fun show_SocketAddr :: "SocketAddr \<Rightarrow> string" where
  "show_SocketAddr (V4 ip port) = show_ipv4 ip @ '':'' @ show_nat (unat port)"
| "show_SocketAddr (V6 ip port flowinfo scope_id) =
     (if scope_id = 0 then ''['' @ show_ipv6 ip @ '']:'' @ show_nat (unat port)
      else ''['' @ show_ipv6 ip @ ''%'' @ show_nat (unat scope_id) @ '']:'' @ show_nat (unat port))"

section \<open>Lemmas\<close>

text \<open>
  \<open>VarInt::from_u64\<close> accepts exactly the values below 2^62 and \<open>into_inner\<close> gives back what
  was put in; the conversions from \<open>u32\<close>, \<open>u16\<close> and \<open>u8\<close> never leave the encodable range and keep
  the number. So no public constructor makes a \<open>VarInt\<close> that QUIC cannot encode.
\<close>

lemma varint_constructors:
  "(case varint_from_u64 v of
      Some x \<Rightarrow> unat v < 2 ^ 62 \<and> varint_into_inner x = v \<and> varint_ok x
    | None \<Rightarrow> 2 ^ 62 \<le> unat v)
   \<and> varint_ok (varint_from_u32 a) \<and> unat (varint_into_inner (varint_from_u32 a)) = unat a
   \<and> varint_ok (varint_from_u16 b) \<and> unat (varint_into_inner (varint_from_u16 b)) = unat b
   \<and> varint_ok (varint_from_u8 c) \<and> unat (varint_into_inner (varint_from_u8 c)) = unat c"
proof -
  have "unat a < 2 ^ 32" "unat b < 2 ^ 16" "unat c < 2 ^ 8"
    using unsigned_less [of a] unsigned_less [of b] unsigned_less [of c] by auto
  then show ?thesis
    by (simp add: varint_from_u64_def varint_ok_unat word_le_nat_alt varint_from_u32_def
        varint_from_u16_def varint_from_u8_def)
qed

end
