(* ===== verification/Errors.thy ===== *)
theory Errors
  imports Lib_Types
begin

text \<open>
  The error types of \<^verbatim>\<open>src/error.rs\<close> and the conversions between them. The TQUIC types they
  convert from are not part of this repository: \<open>tquic::Error\<close> is a datatype with the variants
  the source matches on and one constructor for all the others, \<open>tquic::error::ConnectionError\<close>
  is a record of the fields the source reads, and the text of a TQUIC error
  (its \<open>Display\<close>) is an argument of the conversion that prints it.
\<close>

section \<open>TQUIC errors as the source sees them\<close>

datatype tquic_Error =
    Done | ConnectionRefused | NoViablePath | ConnectionIdLimitError | UnknownVersion
  | StreamStopped u64 | StreamReset u64 | InvalidConfig string | IoError string
  | OtherError nat

record tquic_ConnectionError =
  is_app :: bool
  ce_error_code :: u64
  ce_reason :: bytes

section \<open>ConnectError and ConnectionError\<close>

datatype ConnectError =
    EndpointStopping
  | ConnectCidsExhausted
  | InvalidDnsName string
  | InvalidRemoteAddress SocketAddr
  | NoDefaultClientConfig

datatype ConnectionError =
    VersionMismatch
  | TransportError u64 string
  | ConnectionClosed u64 bytes
  | ApplicationClosed u64 bytes
  | Reset
  | TimedOut
  | LocallyClosed
  | CidsExhausted

fun show_ConnectError :: "ConnectError \<Rightarrow> string" where
  "show_ConnectError EndpointStopping = ''endpoint stopping''"
| "show_ConnectError ConnectCidsExhausted = ''CIDs exhausted''"
| "show_ConnectError (InvalidDnsName s) = ''invalid DNS name: '' @ s"
| "show_ConnectError (InvalidRemoteAddress addr) = ''invalid remote address: '' @ show_SocketAddr addr"
| "show_ConnectError NoDefaultClientConfig = ''no default client config''"

fun show_ConnectionError :: "ConnectionError \<Rightarrow> string" where
  "show_ConnectionError VersionMismatch = ''version mismatch''"
| "show_ConnectionError (TransportError code reason) =
     ''transport error: code '' @ show_u64 code @ '', '' @ reason"
| "show_ConnectionError (ConnectionClosed error_code reason) =
     ''connection closed by peer: error '' @ show_u64 error_code"
| "show_ConnectionError (ApplicationClosed error_code reason) =
     ''application closed: error '' @ show_u64 error_code"
| "show_ConnectionError Reset = ''reset by peer''"
| "show_ConnectionError TimedOut = ''timed out''"
| "show_ConnectionError LocallyClosed = ''locally closed''"
| "show_ConnectionError CidsExhausted = ''CIDs exhausted''"

definition from_tquic_conn_error :: "tquic_ConnectionError \<Rightarrow> ConnectionError" where
  "from_tquic_conn_error err =
     (if is_app err then ApplicationClosed (ce_error_code err) (ce_reason err)
      else ConnectionClosed (ce_error_code err) (ce_reason err))"

text \<open>The bytes of \<open>b"connection refused"\<close>.\<close>

definition refused_reason :: bytes where
  "refused_reason = [99, 111, 110, 110, 101, 99, 116, 105, 111, 110, 32,
     114, 101, 102, 117, 115, 101, 100]"

fun from_tquic_error :: "(tquic_Error \<Rightarrow> string) \<Rightarrow> tquic_Error \<Rightarrow> ConnectionError" where
  "from_tquic_error to_string ConnectionRefused = ConnectionClosed 2 refused_reason"
| "from_tquic_error to_string NoViablePath = TimedOut"
| "from_tquic_error to_string ConnectionIdLimitError = CidsExhausted"
| "from_tquic_error to_string UnknownVersion = VersionMismatch"
| "from_tquic_error to_string err = TransportError 0 (to_string err)"

fun from_connect_error :: "ConnectError \<Rightarrow> ConnectionError" where
  "from_connect_error EndpointStopping = LocallyClosed"
| "from_connect_error ConnectCidsExhausted = CidsExhausted"
| "from_connect_error (InvalidDnsName s) = TransportError 0 s"
| "from_connect_error (InvalidRemoteAddress addr) =
     TransportError 0 (''invalid remote address: '' @ show_SocketAddr addr)"
| "from_connect_error NoDefaultClientConfig = TransportError 0 ''no default client config''"

section \<open>Errors of the stream handles and of datagrams\<close>

datatype ReadError =
    ReadReset VarInt
  | ReadConnectionLost ConnectionError
  | ReadClosedStream
  | ReadZeroRttRejected

datatype ReadExactError = FinishedEarly nat | ExactReadError ReadError

datatype ReadToEndError = ToEndRead ReadError | TooLong

datatype ResetError = ResetConnectionLost ConnectionError | ResetZeroRttRejected

datatype WriteError =
    Stopped VarInt
  | WriteConnectionLost ConnectionError
  | WriteClosedStream
  | WriteZeroRttRejected

datatype StoppedError = StoppedConnectionLost ConnectionError | StoppedZeroRttRejected

datatype ClosedStream = ClosedStream

datatype SendDatagramError =
    UnsupportedByPeer
  | Disabled
  | TooLarge
  | DatagramConnectionLost ConnectionError

fun show_ReadError :: "ReadError \<Rightarrow> string" where
  "show_ReadError (ReadReset v) = ''stream reset by peer: error '' @ show_VarInt v"
| "show_ReadError (ReadConnectionLost e) = ''connection lost: '' @ show_ConnectionError e"
| "show_ReadError ReadClosedStream = ''closed stream''"
| "show_ReadError ReadZeroRttRejected = ''0-RTT rejected''"

fun show_ReadExactError :: "ReadExactError \<Rightarrow> string" where
  "show_ReadExactError (FinishedEarly n) = ''stream finished early ('' @ show_nat n @ '' bytes read)''"
| "show_ReadExactError (ExactReadError e) = show_ReadError e"

fun show_ReadToEndError :: "ReadToEndError \<Rightarrow> string" where
  "show_ReadToEndError (ToEndRead e) = ''read error: '' @ show_ReadError e"
| "show_ReadToEndError TooLong = ''stream too long''"

fun show_WriteError :: "WriteError \<Rightarrow> string" where
  "show_WriteError (Stopped v) = ''sending stopped by peer: error '' @ show_VarInt v"
| "show_WriteError (WriteConnectionLost e) = ''connection lost: '' @ show_ConnectionError e"
| "show_WriteError WriteClosedStream = ''closed stream''"
| "show_WriteError WriteZeroRttRejected = ''0-RTT rejected''"

section \<open>Properties\<close>

text \<open>
  The kind of a close, the code and the reason all survive the conversion from a TQUIC close:
  the three can be read back from the result.
\<close>

fun close_of :: "ConnectionError \<Rightarrow> tquic_ConnectionError option" where
  "close_of (ApplicationClosed c r) = Some \<lparr>is_app = True, ce_error_code = c, ce_reason = r\<rparr>"
| "close_of (ConnectionClosed c r) = Some \<lparr>is_app = False, ce_error_code = c, ce_reason = r\<rparr>"
| "close_of _ = None"

lemma close_of_from_tquic_conn_error: "close_of (from_tquic_conn_error e) = Some e"
  by (simp add: from_tquic_conn_error_def)

text \<open>
  A failed connection attempt reported by the endpoint is never mistaken for a close of the
  connection: the error a \<open>Connecting\<close> future reports for a \<open>ConnectError\<close> is \<open>LocallyClosed\<close>
  exactly for a stopping endpoint, \<open>CidsExhausted\<close> exactly for exhausted CIDs, and in every other
  case a transport error with code 0, whose text is the error's own message or the bare DNS
  message; and \<open>from_tquic_error\<close> keeps every unlisted TQUIC error's text.
\<close>

lemma from_connect_error_classifies:
  "(from_connect_error e = LocallyClosed \<longleftrightarrow> e = EndpointStopping)
   \<and> (from_connect_error e = CidsExhausted \<longleftrightarrow> e = ConnectCidsExhausted)
   \<and> (\<forall>c r. from_connect_error e = TransportError c r \<longrightarrow>
        c = 0 \<and> (e = InvalidDnsName r \<or> r = show_ConnectError e))
   \<and> close_of (from_connect_error e) = None
   \<and> from_tquic_error to_string (OtherError n) = TransportError 0 (to_string (OtherError n))"
  by (cases e) auto

end
