(* ===== verification/Config.thy ===== *)
theory Config
  imports Errors "HOL-Library.Sublist"
begin

text \<open>
  \<^verbatim>\<open>src/config.rs\<close> and \<^verbatim>\<open>src/ext/config.rs\<close>: the endpoint, transport, server and client
  configurations with their builder methods, and the functions that turn them into TQUIC
  configurations. \<open>std::time::Duration\<close> is modelled at its machine widths. TQUIC's own
  \<open>TlsConfig\<close> and \<open>Config\<close> types are parameters: a record of the constructors and setters the
  source calls, over abstract types.
\<close>

section \<open>Durations\<close>

text \<open>Whole seconds as \<open>u64\<close> and nanoseconds as \<open>u32\<close>, always less than one second of them.\<close>

record Duration =
  dur_secs :: u64
  dur_nanos :: u32

definition duration_ok :: "Duration \<Rightarrow> bool" where
  "duration_ok d \<longleftrightarrow> unat (dur_nanos d) < 1000000000"

definition duration_from_secs :: "u64 \<Rightarrow> Duration" where
  "duration_from_secs s = \<lparr>dur_secs = s, dur_nanos = 0\<rparr>"

definition duration_from_millis :: "u64 \<Rightarrow> Duration" where
  "duration_from_millis m =
     \<lparr>dur_secs = m div 1000, dur_nanos = ucast (m mod 1000) * 1000000\<rparr>"

definition duration_from_micros :: "u64 \<Rightarrow> Duration" where
  "duration_from_micros m =
     \<lparr>dur_secs = m div 1000000, dur_nanos = ucast (m mod 1000000) * 1000\<rparr>"

definition as_millis :: "Duration \<Rightarrow> u128" where
  "as_millis d = ucast (dur_secs d) * 1000 + ucast (dur_nanos d div 1000000)"

text \<open>\<open>d.as_millis() as u64\<close>: the cast keeps the low 64 bits.\<close>

definition as_millis_u64 :: "Duration \<Rightarrow> u64" where
  "as_millis_u64 d = ucast (as_millis d)"

section \<open>EndpointConfig\<close>

record EndpointConfig =
  ec_cid_len :: nat
  ec_stateless_reset :: bool
  ec_reset_token_key :: "bytes option"
  ec_address_token_lifetime :: u64
  ec_send_batch_size :: nat

definition EndpointConfig_default :: EndpointConfig where
  "EndpointConfig_default =
     \<lparr>ec_cid_len = 8, ec_stateless_reset = True, ec_reset_token_key = None,
      ec_address_token_lifetime = 86400, ec_send_batch_size = 64\<rparr>"

definition cid_len :: "nat \<Rightarrow> EndpointConfig \<Rightarrow> EndpointConfig" where
  "cid_len len c = c\<lparr>ec_cid_len := len\<rparr>"

definition stateless_reset :: "bool \<Rightarrow> EndpointConfig \<Rightarrow> EndpointConfig" where
  "stateless_reset enabled c = c\<lparr>ec_stateless_reset := enabled\<rparr>"

definition reset_token_key :: "bytes \<Rightarrow> EndpointConfig \<Rightarrow> EndpointConfig" where
  "reset_token_key key c = c\<lparr>ec_reset_token_key := Some key\<rparr>"

definition address_token_lifetime :: "u64 \<Rightarrow> EndpointConfig \<Rightarrow> EndpointConfig" where
  "address_token_lifetime seconds c = c\<lparr>ec_address_token_lifetime := seconds\<rparr>"

definition send_batch_size :: "nat \<Rightarrow> EndpointConfig \<Rightarrow> EndpointConfig" where
  "send_batch_size n c = c\<lparr>ec_send_batch_size := n\<rparr>"

section \<open>TransportConfig\<close>

datatype CongestionControlAlgorithm = Cubic | Bbr | Bbr3 | Copa

datatype MultipathAlgorithm = MinRtt | Redundant | RoundRobin

record TransportConfig =
  tc_max_idle_timeout :: "Duration option"
  tc_max_handshake_timeout :: "Duration option"
  tc_initial_max_data :: u64
  tc_initial_max_stream_data_bidi_local :: u64
  tc_initial_max_stream_data_bidi_remote :: u64
  tc_initial_max_stream_data_uni :: u64
  tc_max_connection_window :: u64
  tc_max_stream_window :: u64
  tc_initial_max_streams_bidi :: u64
  tc_initial_max_streams_uni :: u64
  tc_enable_dplpmtud :: bool
  tc_send_udp_payload_size :: "nat option"
  tc_ack_delay_exponent :: "u64 option"
  tc_max_ack_delay :: "u64 option"
  tc_ack_eliciting_threshold :: "u64 option"
  tc_max_concurrent_conns :: u32
  tc_initial_rtt :: "Duration option"
  tc_congestion_control_algorithm :: "CongestionControlAlgorithm option"
  tc_initial_congestion_window :: "u64 option"
  tc_min_congestion_window :: "u64 option"
  tc_enable_pacing :: "bool option"
  tc_enable_multipath :: "bool option"
  tc_multipath_algorithm :: "MultipathAlgorithm option"
  tc_bbr_probe_rtt_duration :: "u64 option"
  tc_bbr_probe_rtt_based_on_bdp :: "bool option"
  tc_bbr_probe_rtt_cwnd_gain :: "f64 option"
  tc_bbr_rtprop_filter_len :: "u64 option"
  tc_bbr_probe_bw_cwnd_gain :: "f64 option"
  tc_copa_slow_start_delta :: "f64 option"
  tc_copa_steady_delta :: "f64 option"
  tc_copa_use_standing_rtt :: "bool option"

definition TransportConfig_default :: TransportConfig where
  "TransportConfig_default =
     \<lparr>tc_max_idle_timeout = Some (duration_from_secs 30),
      tc_max_handshake_timeout = None,
      tc_initial_max_data = 10485760,
      tc_initial_max_stream_data_bidi_local = 5242880,
      tc_initial_max_stream_data_bidi_remote = 2097152,
      tc_initial_max_stream_data_uni = 1048576,
      tc_max_connection_window = 15 * 1024 * 1024,
      tc_max_stream_window = 6 * 1024 * 1024,
      tc_initial_max_streams_bidi = 200,
      tc_initial_max_streams_uni = 100,
      tc_enable_dplpmtud = True,
      tc_send_udp_payload_size = None,
      tc_ack_delay_exponent = None,
      tc_max_ack_delay = None,
      tc_ack_eliciting_threshold = None,
      tc_max_concurrent_conns = 1000000,
      tc_initial_rtt = None,
      tc_congestion_control_algorithm = None,
      tc_initial_congestion_window = None,
      tc_min_congestion_window = None,
      tc_enable_pacing = None,
      tc_enable_multipath = None,
      tc_multipath_algorithm = None,
      tc_bbr_probe_rtt_duration = None,
      tc_bbr_probe_rtt_based_on_bdp = None,
      tc_bbr_probe_rtt_cwnd_gain = None,
      tc_bbr_rtprop_filter_len = None,
      tc_bbr_probe_bw_cwnd_gain = None,
      tc_copa_slow_start_delta = None,
      tc_copa_steady_delta = None,
      tc_copa_use_standing_rtt = None\<rparr>"

subsection \<open>Builder methods\<close>

definition max_idle_timeout :: "Duration option \<Rightarrow> TransportConfig \<Rightarrow> TransportConfig" where
  "max_idle_timeout timeout c = c\<lparr>tc_max_idle_timeout := timeout\<rparr>"

definition max_handshake_timeout :: "Duration option \<Rightarrow> TransportConfig \<Rightarrow> TransportConfig" where
  "max_handshake_timeout timeout c = c\<lparr>tc_max_handshake_timeout := timeout\<rparr>"

definition receive_window :: "u64 \<Rightarrow> TransportConfig \<Rightarrow> TransportConfig" where
  "receive_window n c = c\<lparr>tc_initial_max_data := n\<rparr>"

definition stream_receive_window_bidi_local :: "u64 \<Rightarrow> TransportConfig \<Rightarrow> TransportConfig" where
  "stream_receive_window_bidi_local n c = c\<lparr>tc_initial_max_stream_data_bidi_local := n\<rparr>"

definition stream_receive_window_bidi_remote :: "u64 \<Rightarrow> TransportConfig \<Rightarrow> TransportConfig" where
  "stream_receive_window_bidi_remote n c = c\<lparr>tc_initial_max_stream_data_bidi_remote := n\<rparr>"

definition stream_receive_window_uni :: "u64 \<Rightarrow> TransportConfig \<Rightarrow> TransportConfig" where
  "stream_receive_window_uni n c = c\<lparr>tc_initial_max_stream_data_uni := n\<rparr>"

definition max_connection_window :: "u64 \<Rightarrow> TransportConfig \<Rightarrow> TransportConfig" where
  "max_connection_window n c = c\<lparr>tc_max_connection_window := n\<rparr>"

definition max_stream_window :: "u64 \<Rightarrow> TransportConfig \<Rightarrow> TransportConfig" where
  "max_stream_window n c = c\<lparr>tc_max_stream_window := n\<rparr>"

definition max_concurrent_bidi_streams :: "u64 \<Rightarrow> TransportConfig \<Rightarrow> TransportConfig" where
  "max_concurrent_bidi_streams n c = c\<lparr>tc_initial_max_streams_bidi := n\<rparr>"

definition max_concurrent_uni_streams :: "u64 \<Rightarrow> TransportConfig \<Rightarrow> TransportConfig" where
  "max_concurrent_uni_streams n c = c\<lparr>tc_initial_max_streams_uni := n\<rparr>"

definition enable_mtu_discovery :: "bool \<Rightarrow> TransportConfig \<Rightarrow> TransportConfig" where
  "enable_mtu_discovery enabled c = c\<lparr>tc_enable_dplpmtud := enabled\<rparr>"

definition initial_rtt :: "Duration \<Rightarrow> TransportConfig \<Rightarrow> TransportConfig" where
  "initial_rtt rtt c = c\<lparr>tc_initial_rtt := Some rtt\<rparr>"

definition max_concurrent_connections :: "u32 \<Rightarrow> TransportConfig \<Rightarrow> TransportConfig" where
  "max_concurrent_connections n c = c\<lparr>tc_max_concurrent_conns := n\<rparr>"

subsection \<open>TransportConfigExt\<close>

definition set_congestion_control_algorithm ::
    "CongestionControlAlgorithm \<Rightarrow> TransportConfig \<Rightarrow> TransportConfig" where
  "set_congestion_control_algorithm algo c = c\<lparr>tc_congestion_control_algorithm := Some algo\<rparr>"

definition set_initial_congestion_window :: "u64 \<Rightarrow> TransportConfig \<Rightarrow> TransportConfig" where
  "set_initial_congestion_window n c = c\<lparr>tc_initial_congestion_window := Some n\<rparr>"

definition set_min_congestion_window :: "u64 \<Rightarrow> TransportConfig \<Rightarrow> TransportConfig" where
  "set_min_congestion_window n c = c\<lparr>tc_min_congestion_window := Some n\<rparr>"

definition enable_pacing :: "bool \<Rightarrow> TransportConfig \<Rightarrow> TransportConfig" where
  "enable_pacing enabled c = c\<lparr>tc_enable_pacing := Some enabled\<rparr>"

definition enable_multipath :: "bool \<Rightarrow> TransportConfig \<Rightarrow> TransportConfig" where
  "enable_multipath enabled c = c\<lparr>tc_enable_multipath := Some enabled\<rparr>"

definition set_multipath_algorithm :: "MultipathAlgorithm \<Rightarrow> TransportConfig \<Rightarrow> TransportConfig" where
  "set_multipath_algorithm algo c = c\<lparr>tc_multipath_algorithm := Some algo\<rparr>"

definition set_bbr_probe_rtt_duration :: "u64 \<Rightarrow> TransportConfig \<Rightarrow> TransportConfig" where
  "set_bbr_probe_rtt_duration millis c = c\<lparr>tc_bbr_probe_rtt_duration := Some millis\<rparr>"

definition enable_bbr_probe_rtt_based_on_bdp :: "bool \<Rightarrow> TransportConfig \<Rightarrow> TransportConfig" where
  "enable_bbr_probe_rtt_based_on_bdp enabled c = c\<lparr>tc_bbr_probe_rtt_based_on_bdp := Some enabled\<rparr>"

definition set_bbr_probe_rtt_cwnd_gain :: "f64 \<Rightarrow> TransportConfig \<Rightarrow> TransportConfig" where
  "set_bbr_probe_rtt_cwnd_gain gain c = c\<lparr>tc_bbr_probe_rtt_cwnd_gain := Some gain\<rparr>"

definition set_bbr_rtprop_filter_len :: "u64 \<Rightarrow> TransportConfig \<Rightarrow> TransportConfig" where
  "set_bbr_rtprop_filter_len millis c = c\<lparr>tc_bbr_rtprop_filter_len := Some millis\<rparr>"

definition set_bbr_probe_bw_cwnd_gain :: "f64 \<Rightarrow> TransportConfig \<Rightarrow> TransportConfig" where
  "set_bbr_probe_bw_cwnd_gain gain c = c\<lparr>tc_bbr_probe_bw_cwnd_gain := Some gain\<rparr>"

definition set_copa_slow_start_delta :: "f64 \<Rightarrow> TransportConfig \<Rightarrow> TransportConfig" where
  "set_copa_slow_start_delta delta c = c\<lparr>tc_copa_slow_start_delta := Some delta\<rparr>"

definition set_copa_steady_delta :: "f64 \<Rightarrow> TransportConfig \<Rightarrow> TransportConfig" where
  "set_copa_steady_delta delta c = c\<lparr>tc_copa_steady_delta := Some delta\<rparr>"

definition enable_copa_use_standing_rtt :: "bool \<Rightarrow> TransportConfig \<Rightarrow> TransportConfig" where
  "enable_copa_use_standing_rtt enabled c = c\<lparr>tc_copa_use_standing_rtt := Some enabled\<rparr>"

section \<open>ServerConfig and ClientConfig\<close>

record ServerConfig =
  sc_transport :: TransportConfig
  sc_cert_file :: string
  sc_key_file :: string
  sc_alpn_protocols :: "bytes list"
  sc_enable_early_data :: bool
  sc_enable_retry :: bool

definition ServerConfig_new :: "string \<Rightarrow> string \<Rightarrow> bytes list \<Rightarrow> ServerConfig" where
  "ServerConfig_new cert_file key_file alpn_protocols =
     \<lparr>sc_transport = TransportConfig_default, sc_cert_file = cert_file, sc_key_file = key_file,
      sc_alpn_protocols = alpn_protocols, sc_enable_early_data = False, sc_enable_retry = False\<rparr>"

definition server_transport_config :: "TransportConfig \<Rightarrow> ServerConfig \<Rightarrow> ServerConfig" where
  "server_transport_config config c = c\<lparr>sc_transport := config\<rparr>"

definition server_enable_early_data :: "bool \<Rightarrow> ServerConfig \<Rightarrow> ServerConfig" where
  "server_enable_early_data enabled c = c\<lparr>sc_enable_early_data := enabled\<rparr>"

definition server_enable_retry :: "bool \<Rightarrow> ServerConfig \<Rightarrow> ServerConfig" where
  "server_enable_retry enabled c = c\<lparr>sc_enable_retry := enabled\<rparr>"

record ClientConfig =
  cc_transport :: TransportConfig
  cc_alpn_protocols :: "bytes list"
  cc_enable_early_data :: bool
  cc_verify :: bool
  cc_ca_certs :: "string option"

definition ClientConfig_new :: "bytes list \<Rightarrow> ClientConfig" where
  "ClientConfig_new alpn_protocols =
     \<lparr>cc_transport = TransportConfig_default, cc_alpn_protocols = alpn_protocols,
      cc_enable_early_data = False, cc_verify = True, cc_ca_certs = None\<rparr>"

definition client_transport_config :: "TransportConfig \<Rightarrow> ClientConfig \<Rightarrow> ClientConfig" where
  "client_transport_config config c = c\<lparr>cc_transport := config\<rparr>"

definition client_enable_early_data :: "bool \<Rightarrow> ClientConfig \<Rightarrow> ClientConfig" where
  "client_enable_early_data enabled c = c\<lparr>cc_enable_early_data := enabled\<rparr>"

definition client_verify :: "bool \<Rightarrow> ClientConfig \<Rightarrow> ClientConfig" where
  "client_verify v c = c\<lparr>cc_verify := v\<rparr>"

definition client_ca_certs :: "string \<Rightarrow> ClientConfig \<Rightarrow> ClientConfig" where
  "client_ca_certs path c = c\<lparr>cc_ca_certs := Some path\<rparr>"

end
