(* ===== verification/Config_Build.thy ===== *)
theory Config_Build
  imports Config
begin

text \<open>
  The internal half of \<^verbatim>\<open>src/config.rs\<close>: \<open>build_server_tls_config\<close>,
  \<open>build_client_tls_config\<close> and \<open>build_tquic_config\<close>. The calls they make on TQUIC's \<open>Config\<close> are
  values of the datatype \<open>tquic_setter\<close>, one constructor per setter; what a setter does to the
  configuration object is the parameter \<open>cfg_set\<close>. The interface locale \<open>setter_store\<close> says what
  the source relies on: a setter changes its own parameter and no other.
\<close>

section \<open>The calls on a TQUIC configuration\<close>

datatype tquic_setter =
    SetCidLen nat
  | EnableStatelessReset bool
  | SetAddressTokenLifetime u64
  | SetSendBatchSize nat
  | SetResetTokenKey bytes
  | SetMaxIdleTimeout u64
  | SetMaxHandshakeTimeout u64
  | SetInitialMaxData u64
  | SetInitialMaxStreamDataBidiLocal u64
  | SetInitialMaxStreamDataBidiRemote u64
  | SetInitialMaxStreamDataUni u64
  | SetMaxConnectionWindow u64
  | SetMaxStreamWindow u64
  | SetInitialMaxStreamsBidi u64
  | SetInitialMaxStreamsUni u64
  | EnableDplpmtud bool
  | SetSendUdpPayloadSize nat
  | SetAckDelayExponent u64
  | SetMaxAckDelay u64
  | SetAckElicitingThreshold u64
  | SetMaxConcurrentConns u32
  | SetInitialRtt u64
  | SetCongestionControlAlgorithm CongestionControlAlgorithm
  | SetInitialCongestionWindow u64
  | SetMinCongestionWindow u64
  | EnablePacing bool
  | EnableMultipath bool
  | SetMultipathAlgorithm MultipathAlgorithm
  | SetBbrProbeRttDuration u64
  | EnableBbrProbeRttBasedOnBdp bool
  | SetBbrProbeRttCwndGain f64
  | SetBbrRtpropFilterLen u64
  | SetBbrProbeBwCwndGain f64
  | SetCopaSlowStartDelta f64
  | SetCopaSteadyDelta f64
  | EnableCopaUseStandingRtt bool
  | EnableRetry bool

text \<open>Which parameter a setter sets, numbered in the order the source calls the setters.\<close>

fun setter_param :: "tquic_setter \<Rightarrow> nat" where
  "setter_param (SetCidLen _) = 0"
| "setter_param (EnableStatelessReset _) = 1"
| "setter_param (SetAddressTokenLifetime _) = 2"
| "setter_param (SetSendBatchSize _) = 3"
| "setter_param (SetResetTokenKey _) = 4"
| "setter_param (SetMaxIdleTimeout _) = 5"
| "setter_param (SetMaxHandshakeTimeout _) = 6"
| "setter_param (SetInitialMaxData _) = 7"
| "setter_param (SetInitialMaxStreamDataBidiLocal _) = 8"
| "setter_param (SetInitialMaxStreamDataBidiRemote _) = 9"
| "setter_param (SetInitialMaxStreamDataUni _) = 10"
| "setter_param (SetMaxConnectionWindow _) = 11"
| "setter_param (SetMaxStreamWindow _) = 12"
| "setter_param (SetInitialMaxStreamsBidi _) = 13"
| "setter_param (SetInitialMaxStreamsUni _) = 14"
| "setter_param (EnableDplpmtud _) = 15"
| "setter_param (SetSendUdpPayloadSize _) = 16"
| "setter_param (SetAckDelayExponent _) = 17"
| "setter_param (SetMaxAckDelay _) = 18"
| "setter_param (SetAckElicitingThreshold _) = 19"
| "setter_param (SetMaxConcurrentConns _) = 20"
| "setter_param (SetInitialRtt _) = 21"
| "setter_param (SetCongestionControlAlgorithm _) = 22"
| "setter_param (SetInitialCongestionWindow _) = 23"
| "setter_param (SetMinCongestionWindow _) = 24"
| "setter_param (EnablePacing _) = 25"
| "setter_param (EnableMultipath _) = 26"
| "setter_param (SetMultipathAlgorithm _) = 27"
| "setter_param (SetBbrProbeRttDuration _) = 28"
| "setter_param (EnableBbrProbeRttBasedOnBdp _) = 29"
| "setter_param (SetBbrProbeRttCwndGain _) = 30"
| "setter_param (SetBbrRtpropFilterLen _) = 31"
| "setter_param (SetBbrProbeBwCwndGain _) = 32"
| "setter_param (SetCopaSlowStartDelta _) = 33"
| "setter_param (SetCopaSteadyDelta _) = 34"
| "setter_param (EnableCopaUseStandingRtt _) = 35"
| "setter_param (EnableRetry _) = 36"

section \<open>The TQUIC configuration interface\<close>

text \<open>
  The parameters: \<open>TlsConfig::new_server_config\<close>, \<open>new_client_config\<close>, \<open>set_verify\<close> and
  \<open>set_ca_certs\<close>, \<open>Config::new\<close>, the setters above, \<open>set_tls_config\<close>, and the text of an error.
\<close>

record ('tls, 'cfg) tquic_config_api =
  tls_new_server :: "string \<Rightarrow> string \<Rightarrow> bytes list \<Rightarrow> bool \<Rightarrow> (tquic_Error, 'tls) result"
  tls_new_client :: "bytes list \<Rightarrow> bool \<Rightarrow> (tquic_Error, 'tls) result"
  tls_set_verify :: "bool \<Rightarrow> 'tls \<Rightarrow> 'tls"
  tls_set_ca_certs :: "string \<Rightarrow> 'tls \<Rightarrow> (tquic_Error, 'tls) result"
  cfg_new :: "(tquic_Error, 'cfg) result"
  cfg_set :: "tquic_setter \<Rightarrow> 'cfg \<Rightarrow> 'cfg"
  cfg_set_tls :: "'tls \<Rightarrow> 'cfg \<Rightarrow> 'cfg"
  show_error :: "tquic_Error \<Rightarrow> string"

definition build_server_tls_config ::
    "('tls, 'cfg) tquic_config_api \<Rightarrow> ServerConfig \<Rightarrow> (ConnectError, 'tls) result" where
  "build_server_tls_config api config =
     map_err (\<lambda>e. InvalidDnsName (''TLS config error: '' @ show_error api e))
       (tls_new_server api (sc_cert_file config) (sc_key_file config)
          (sc_alpn_protocols config) (sc_enable_early_data config))"

definition build_client_tls_config ::
    "('tls, 'cfg) tquic_config_api \<Rightarrow> ClientConfig \<Rightarrow> (ConnectError, 'tls) result" where
  "build_client_tls_config api config =
     bind_result
       (map_err (\<lambda>e. InvalidDnsName (''TLS config error: '' @ show_error api e))
          (tls_new_client api (cc_alpn_protocols config) (cc_enable_early_data config)))
       (\<lambda>tls. let tls = tls_set_verify api (cc_verify config) tls in
          case cc_ca_certs config of
            Some ca_path \<Rightarrow>
              map_err (\<lambda>e. InvalidDnsName (''CA cert error: '' @ show_error api e))
                (tls_set_ca_certs api ca_path tls)
          | None \<Rightarrow> Ok tls)"

text \<open>\<open>if let Some(v) = field { config.setter(v) }\<close>\<close>

definition opt_call :: "('v \<Rightarrow> tquic_setter) \<Rightarrow> 'v option \<Rightarrow> tquic_setter list" where
  "opt_call f ov = (case ov of None \<Rightarrow> [] | Some v \<Rightarrow> [f v])"

definition idle_ms :: "TransportConfig \<Rightarrow> u64" where
  "idle_ms transport = unwrap_or (map_option as_millis_u64 (tc_max_idle_timeout transport)) 0"

definition endpoint_calls :: "EndpointConfig \<Rightarrow> tquic_setter list" where
  "endpoint_calls e =
     [SetCidLen (ec_cid_len e),
      EnableStatelessReset (ec_stateless_reset e),
      SetAddressTokenLifetime (ec_address_token_lifetime e),
      SetSendBatchSize (ec_send_batch_size e)]
     @ opt_call SetResetTokenKey (ec_reset_token_key e)"

definition transport_calls :: "TransportConfig \<Rightarrow> tquic_setter list" where
  "transport_calls t =
     [SetMaxIdleTimeout (idle_ms t)]
     @ opt_call (\<lambda>d. SetMaxHandshakeTimeout (as_millis_u64 d)) (tc_max_handshake_timeout t)
     @ [SetInitialMaxData (tc_initial_max_data t),
        SetInitialMaxStreamDataBidiLocal (tc_initial_max_stream_data_bidi_local t),
        SetInitialMaxStreamDataBidiRemote (tc_initial_max_stream_data_bidi_remote t),
        SetInitialMaxStreamDataUni (tc_initial_max_stream_data_uni t),
        SetMaxConnectionWindow (tc_max_connection_window t),
        SetMaxStreamWindow (tc_max_stream_window t),
        SetInitialMaxStreamsBidi (tc_initial_max_streams_bidi t),
        SetInitialMaxStreamsUni (tc_initial_max_streams_uni t),
        EnableDplpmtud (tc_enable_dplpmtud t)]
     @ opt_call SetSendUdpPayloadSize (tc_send_udp_payload_size t)
     @ opt_call SetAckDelayExponent (tc_ack_delay_exponent t)
     @ opt_call SetMaxAckDelay (tc_max_ack_delay t)
     @ opt_call SetAckElicitingThreshold (tc_ack_eliciting_threshold t)
     @ [SetMaxConcurrentConns (tc_max_concurrent_conns t)]
     @ opt_call (\<lambda>d. SetInitialRtt (as_millis_u64 d)) (tc_initial_rtt t)"

definition ext_calls :: "TransportConfig \<Rightarrow> tquic_setter list" where
  "ext_calls t =
     opt_call SetCongestionControlAlgorithm (tc_congestion_control_algorithm t)
     @ opt_call SetInitialCongestionWindow (tc_initial_congestion_window t)
     @ opt_call SetMinCongestionWindow (tc_min_congestion_window t)
     @ opt_call EnablePacing (tc_enable_pacing t)
     @ opt_call EnableMultipath (tc_enable_multipath t)
     @ opt_call SetMultipathAlgorithm (tc_multipath_algorithm t)
     @ opt_call SetBbrProbeRttDuration (tc_bbr_probe_rtt_duration t)
     @ opt_call EnableBbrProbeRttBasedOnBdp (tc_bbr_probe_rtt_based_on_bdp t)
     @ opt_call SetBbrProbeRttCwndGain (tc_bbr_probe_rtt_cwnd_gain t)
     @ opt_call SetBbrRtpropFilterLen (tc_bbr_rtprop_filter_len t)
     @ opt_call SetBbrProbeBwCwndGain (tc_bbr_probe_bw_cwnd_gain t)
     @ opt_call SetCopaSlowStartDelta (tc_copa_slow_start_delta t)
     @ opt_call SetCopaSteadyDelta (tc_copa_steady_delta t)
     @ opt_call EnableCopaUseStandingRtt (tc_copa_use_standing_rtt t)"

definition server_calls :: "ServerConfig option \<Rightarrow> tquic_setter list" where
  "server_calls sc = opt_call (\<lambda>sc. EnableRetry (sc_enable_retry sc)) sc"

definition config_calls ::
    "EndpointConfig \<Rightarrow> TransportConfig \<Rightarrow> ServerConfig option \<Rightarrow> tquic_setter list" where
  "config_calls e t sc = endpoint_calls e @ transport_calls t @ ext_calls t @ server_calls sc"

definition build_tquic_config ::
    "('tls, 'cfg) tquic_config_api \<Rightarrow> EndpointConfig \<Rightarrow> TransportConfig \<Rightarrow> 'tls
     \<Rightarrow> ServerConfig option \<Rightarrow> (ConnectError, 'cfg) result" where
  "build_tquic_config api endpoint transport tls_config server_config =
     map_ok
       (\<lambda>config. cfg_set_tls api tls_config
          (fold (cfg_set api) (config_calls endpoint transport server_config) config))
       (map_err (\<lambda>e. InvalidDnsName (''config error: '' @ show_error api e)) (cfg_new api))"

section \<open>Each setter is called at most once\<close>

lemma subseq_opt_call: "(\<And>v. setter_param (f v) = k) \<Longrightarrow> subseq (map setter_param (opt_call f ov)) [k]"
  by (cases ov) (auto simp: opt_call_def)

lemma subseq_cons_append:
  "subseq xs [k] \<Longrightarrow> subseq ys ks \<Longrightarrow> subseq (xs @ ys) (k # ks)"
  using list_emb_append_mono [of "(=)" xs "[k]" ys ks] by simp

lemma opt_call_param_subseq:
  "(\<And>v. setter_param (f v) = k) \<Longrightarrow> subseq ys ks
   \<Longrightarrow> subseq (map setter_param (opt_call f ov) @ ys) (k # ks)"
  by (rule subseq_cons_append) (auto intro: subseq_opt_call)

lemma config_calls_params: "subseq (map setter_param (config_calls e t sc)) [0 ..< 37]"
proof -
  have *: "[0 ..< 37] = [0, 1, 2, 3, 4, 5, 6, 7, 8, 9, 10, 11, 12, 13, 14, 15, 16, 17, 18, 19, 20,
    21, 22, 23, 24, 25, 26, 27, 28, 29, 30, 31, 32, 33, 34, 35, 36::nat]"
    by (simp add: upt_rec)
  show ?thesis
    unfolding * config_calls_def endpoint_calls_def transport_calls_def ext_calls_def server_calls_def
      map_append append_assoc append_Cons append_Nil list.map setter_param.simps
    by (intro subseq_Cons2 opt_call_param_subseq)
      (auto simp: opt_call_def split: option.splits)
qed

lemma distinct_if_subseq: "subseq xs ys \<Longrightarrow> distinct ys \<Longrightarrow> distinct xs"
  by (induction rule: list_emb.induct) (auto dest: list_emb_set)

lemma config_calls_distinct: "distinct (map setter_param (config_calls e t sc))"
  using config_calls_params by (rule distinct_if_subseq) simp

section \<open>What a configuration ends up with\<close>

subsection \<open>The contract of the setters\<close>

text \<open>
  \<open>obs c k\<close> is the setting of parameter \<open>k\<close> that was last asked for in \<open>c\<close>: a setter replaces that of
  its own parameter and no other one. Whether TQUIC later clamps a value is not its concern.
\<close>

locale setter_store =
  fixes put :: "tquic_setter \<Rightarrow> 'c \<Rightarrow> 'c"
    and obs :: "'c \<Rightarrow> nat \<Rightarrow> tquic_setter option"
  assumes obs_put: "obs (put s c) k = (if k = setter_param s then Some s else obs c k)"
begin

lemma obs_fold_other: "k \<notin> setter_param ` set ss \<Longrightarrow> obs (fold put ss c) k = obs c k"
  by (induction ss arbitrary: c) (auto simp: obs_put)

lemma obs_fold_called:
  "distinct (map setter_param ss) \<Longrightarrow> s \<in> set ss \<Longrightarrow> obs (fold put ss c) (setter_param s) = Some s"
proof (induction ss arbitrary: c)
  case (Cons a ss)
  show ?case
  proof (cases "s = a")
    case True
    with Cons.prems show ?thesis by (simp add: obs_fold_other obs_put)
  next
    case False
    with Cons show ?thesis by simp
  qed
qed simp

end

text \<open>The record of the last call of every setter implements the contract.\<close>

definition record_call :: "tquic_setter \<Rightarrow> (nat \<rightharpoonup> tquic_setter) \<Rightarrow> (nat \<rightharpoonup> tquic_setter)" where
  "record_call s m = m(setter_param s \<mapsto> s)"

interpretation calls: setter_store record_call "\<lambda>m. m"
  by unfold_locales (simp add: record_call_def)

subsection \<open>The requested settings, parameter by parameter\<close>

text \<open>
  Independent of the order of the calls: for every parameter, the setting the three
  configurations ask for, or \<open>None\<close> where TQUIC's default is to stay.
\<close>

definition requested_table ::
    "EndpointConfig \<Rightarrow> TransportConfig \<Rightarrow> ServerConfig option \<Rightarrow> tquic_setter option list" where
  "requested_table e t sc =
     [Some (SetCidLen (ec_cid_len e)),
      Some (EnableStatelessReset (ec_stateless_reset e)),
      Some (SetAddressTokenLifetime (ec_address_token_lifetime e)),
      Some (SetSendBatchSize (ec_send_batch_size e)),
      map_option SetResetTokenKey (ec_reset_token_key e),
      Some (SetMaxIdleTimeout (case tc_max_idle_timeout t of None \<Rightarrow> 0 | Some d \<Rightarrow> as_millis_u64 d)),
      map_option (\<lambda>d. SetMaxHandshakeTimeout (as_millis_u64 d)) (tc_max_handshake_timeout t),
      Some (SetInitialMaxData (tc_initial_max_data t)),
      Some (SetInitialMaxStreamDataBidiLocal (tc_initial_max_stream_data_bidi_local t)),
      Some (SetInitialMaxStreamDataBidiRemote (tc_initial_max_stream_data_bidi_remote t)),
      Some (SetInitialMaxStreamDataUni (tc_initial_max_stream_data_uni t)),
      Some (SetMaxConnectionWindow (tc_max_connection_window t)),
      Some (SetMaxStreamWindow (tc_max_stream_window t)),
      Some (SetInitialMaxStreamsBidi (tc_initial_max_streams_bidi t)),
      Some (SetInitialMaxStreamsUni (tc_initial_max_streams_uni t)),
      Some (EnableDplpmtud (tc_enable_dplpmtud t)),
      map_option SetSendUdpPayloadSize (tc_send_udp_payload_size t),
      map_option SetAckDelayExponent (tc_ack_delay_exponent t),
      map_option SetMaxAckDelay (tc_max_ack_delay t),
      map_option SetAckElicitingThreshold (tc_ack_eliciting_threshold t),
      Some (SetMaxConcurrentConns (tc_max_concurrent_conns t)),
      map_option (\<lambda>d. SetInitialRtt (as_millis_u64 d)) (tc_initial_rtt t),
      map_option SetCongestionControlAlgorithm (tc_congestion_control_algorithm t),
      map_option SetInitialCongestionWindow (tc_initial_congestion_window t),
      map_option SetMinCongestionWindow (tc_min_congestion_window t),
      map_option EnablePacing (tc_enable_pacing t),
      map_option EnableMultipath (tc_enable_multipath t),
      map_option SetMultipathAlgorithm (tc_multipath_algorithm t),
      map_option SetBbrProbeRttDuration (tc_bbr_probe_rtt_duration t),
      map_option EnableBbrProbeRttBasedOnBdp (tc_bbr_probe_rtt_based_on_bdp t),
      map_option SetBbrProbeRttCwndGain (tc_bbr_probe_rtt_cwnd_gain t),
      map_option SetBbrRtpropFilterLen (tc_bbr_rtprop_filter_len t),
      map_option SetBbrProbeBwCwndGain (tc_bbr_probe_bw_cwnd_gain t),
      map_option SetCopaSlowStartDelta (tc_copa_slow_start_delta t),
      map_option SetCopaSteadyDelta (tc_copa_steady_delta t),
      map_option EnableCopaUseStandingRtt (tc_copa_use_standing_rtt t),
      map_option (\<lambda>sc. EnableRetry (sc_enable_retry sc)) sc]"

definition requested ::
    "EndpointConfig \<Rightarrow> TransportConfig \<Rightarrow> ServerConfig option \<Rightarrow> nat \<Rightarrow> tquic_setter option" where
  "requested e t sc k = (if k < 37 then requested_table e t sc ! k else None)"

fun option_list :: "'a option \<Rightarrow> 'a list" where
  "option_list None = []"
| "option_list (Some a) = [a]"

lemma option_list_map: "option_list (map_option f ov) = (case ov of None \<Rightarrow> [] | Some v \<Rightarrow> [f v])"
  by (cases ov) auto

lemma config_calls_table: "config_calls e t sc = concat (map option_list (requested_table e t sc))"
proof -
  have "unwrap_or (map_option as_millis_u64 x) 0 = (case x of None \<Rightarrow> 0 | Some d \<Rightarrow> as_millis_u64 d)"
    for x by (cases x) auto
  then show ?thesis
    by (simp add: config_calls_def endpoint_calls_def transport_calls_def ext_calls_def
        server_calls_def requested_table_def option_list_map opt_call_def idle_ms_def)
qed

lemma table_params:
  "list_all2 (\<lambda>k r. \<forall>s. r = Some s \<longrightarrow> setter_param s = k) [0 ..< 37] (requested_table e t sc)"
  unfolding requested_table_def by (auto simp: upt_rec)

lemma length_requested_table: "length (requested_table e t sc) = 37"
  using table_params [of e t sc] by (simp add: list_all2_lengthD [symmetric])

lemma requested_param: "requested e t sc k = Some s \<Longrightarrow> setter_param s = k"
  using list_all2_nthD [OF table_params, of k e t sc]
  by (auto simp: requested_def split: if_splits)

lemma set_option_list [simp]: "set (option_list ov) = set_option ov"
  by (cases ov) auto

lemma config_calls_requested: "s \<in> set (config_calls e t sc) \<longleftrightarrow> requested e t sc (setter_param s) = Some s"
proof
  assume "s \<in> set (config_calls e t sc)"
  then obtain r where "r \<in> set (requested_table e t sc)" "r = Some s"
    by (auto simp: config_calls_table)
  then obtain k where "k < 37" "requested e t sc k = Some s"
    by (auto simp: in_set_conv_nth length_requested_table requested_def)
  with requested_param show "requested e t sc (setter_param s) = Some s" by blast
next
  assume "requested e t sc (setter_param s) = Some s"
  then have "Some s \<in> set (requested_table e t sc)"
    by (auto simp: requested_def in_set_conv_nth length_requested_table split: if_splits)
  then show "s \<in> set (config_calls e t sc)"
    by (auto simp: config_calls_table image_iff intro!: bexI [of _ "Some s"])
qed

context setter_store
begin

lemma obs_config_calls:
  "obs (fold put (config_calls e t sc) c) k = or_else (requested e t sc k) (obs c k)"
proof (cases "requested e t sc k")
  case None
  then have "k \<notin> setter_param ` set (config_calls e t sc)"
    by (auto simp: config_calls_requested)
  with None show ?thesis by (simp add: obs_fold_other)
next
  case (Some s)
  then have "s \<in> set (config_calls e t sc)" and "setter_param s = k"
    by (auto simp: config_calls_requested dest: requested_param)
  with Some show ?thesis using obs_fold_called [OF config_calls_distinct] by fastforce
qed

end

section \<open>Milliseconds\<close>

definition millis :: "Duration \<Rightarrow> nat" where
  "millis d = unat (dur_secs d) * 1000 + unat (dur_nanos d) div 1000000"

lemma unat_ucast_u64_u128 [simp]: "unat (ucast (v :: u64) :: u128) = unat v"
  by transfer simp

lemma unat_ucast_u32_u128 [simp]: "unat (ucast (v :: u32) :: u128) = unat v"
  by transfer simp

lemma unat_as_millis: "unat (as_millis d) = millis d"
proof -
  have "unat (dur_secs d) < 2 ^ 64" "unat (dur_nanos d) < 2 ^ 32"
    using unsigned_less [of "dur_secs d"] unsigned_less [of "dur_nanos d"] by auto
  then have "unat (dur_secs d) * 1000 + unat (dur_nanos d) div 1000000 < 2 ^ 128"
    by simp
  moreover have "unat (dur_nanos d) div 1000000 < 4294967296"
    using \<open>unat (dur_nanos d) < 2 ^ 32\<close> by simp
  ultimately show ?thesis
    by (simp add: as_millis_def millis_def unat_word_ariths unat_div)
qed

lemma unat_as_millis_u64: "unat (as_millis_u64 d) = millis d mod 2 ^ 64"
proof -
  have "unat (ucast (as_millis d) :: u64) = unat (as_millis d) mod 2 ^ 64"
    by (simp add: unsigned_ucast_eq take_bit_eq_mod)
  then show ?thesis by (simp add: as_millis_u64_def unat_as_millis)
qed

section \<open>Properties\<close>

text \<open>A TQUIC configuration interface that records the last call of every setter.\<close>

definition recording_api :: "(bool, nat \<rightharpoonup> tquic_setter) tquic_config_api" where
  "recording_api =
     \<lparr>tls_new_server = (\<lambda>cert key alpn early. Ok True),
      tls_new_client = (\<lambda>alpn early. Ok True),
      tls_set_verify = (\<lambda>v tls. v),
      tls_set_ca_certs = (\<lambda>path tls. if path = [] then Err (InvalidConfig ''no CA'') else Ok tls),
      cfg_new = Ok Map.empty,
      cfg_set = record_call,
      cfg_set_tls = (\<lambda>tls c. c),
      show_error = (\<lambda>e. ''error'')\<rparr>"

text \<open>
  C21: the TQUIC configuration built from an endpoint, a transport and an optional server
  configuration has, for every parameter, exactly the setting these ask for, and TQUIC's own
  default where they ask for nothing; in particular no call overwrites an earlier one. What is
  assumed of TQUIC: a setter changes its own parameter only, setting the TLS configuration
  changes none, and \<open>Config::new\<close> succeeds.
\<close>

theorem tquic_config_effective:
  assumes "setter_store (cfg_set api) obs"
    and "\<And>tls c. obs (cfg_set_tls api tls c) = obs c"
    and "cfg_new api = Ok cfg0"
  shows "\<exists>cfg. build_tquic_config api e t tls sc = Ok cfg
    \<and> (\<forall>k. obs cfg k = or_else (requested e t sc k) (obs cfg0 k))"
  using assms by (simp add: build_tquic_config_def setter_store.obs_config_calls)

theorem tquic_config_effective_witness:
  "\<exists>cfg. build_tquic_config recording_api EndpointConfig_default
       (enable_pacing True TransportConfig_default) True None = Ok cfg
     \<and> cfg 0 = Some (SetCidLen 8) \<and> cfg 13 = Some (SetInitialMaxStreamsBidi 200)
     \<and> cfg 25 = Some (EnablePacing True) \<and> cfg 36 = None"
proof -
  let ?t = "enable_pacing True TransportConfig_default"
  have "setter_store (cfg_set recording_api) (\<lambda>m. m)"
    by (simp add: recording_api_def calls.setter_store_axioms)
  moreover have "cfg_new recording_api = Ok Map.empty"
    and "(cfg_set_tls recording_api tls c) = c" for tls c
    by (simp_all add: recording_api_def)
  ultimately obtain cfg where cfg: "build_tquic_config recording_api EndpointConfig_default ?t True None = Ok cfg"
    and *: "\<And>k. cfg k = or_else (requested EndpointConfig_default ?t None k) (Map.empty k)"
    using tquic_config_effective [of recording_api "\<lambda>m. m" Map.empty EndpointConfig_default ?t True None]
    by auto
  show ?thesis
    by (intro exI [of _ cfg] conjI, rule cfg)
      (simp_all add: * requested_def requested_table_def EndpointConfig_default_def
        TransportConfig_default_def enable_pacing_def)
qed

text \<open>
  C35: the idle timeout handed to TQUIC is the duration in whole milliseconds reduced modulo 2^64,
  so it is the duration itself (rounded down) for every timeout below 2^64 ms; and a configured
  timeout is handed over as 0, the value used for \<open>None\<close> (no idle timeout), exactly when its
  milliseconds are a multiple of 2^64: the ones below one millisecond, and those that wrap.
\<close>

theorem idle_timeout_millis:
  "unat (idle_ms (max_idle_timeout (Some d) t)) = millis d mod 2 ^ 64
   \<and> (millis d < 2 ^ 64 \<longrightarrow> unat (idle_ms (max_idle_timeout (Some d) t)) = millis d)
   \<and> (idle_ms (max_idle_timeout (Some d) t) = idle_ms (max_idle_timeout None t)
        \<longleftrightarrow> 2 ^ 64 dvd millis d)"
  by (simp add: idle_ms_def max_idle_timeout_def unat_as_millis_u64 word_unat_eq_iff dvd_eq_mod_eq_0)

theorem idle_timeout_millis_witness:
  "millis (duration_from_secs 30) < 2 ^ 64
   \<and> unat (idle_ms (max_idle_timeout (Some (duration_from_secs 30)) TransportConfig_default)) = 30000
   \<and> idle_ms (max_idle_timeout (Some \<lparr>dur_secs = 0, dur_nanos = 999999\<rparr>) TransportConfig_default)
       = idle_ms (max_idle_timeout None TransportConfig_default)
   \<and> idle_ms (max_idle_timeout (Some (duration_from_secs (2 ^ 61))) TransportConfig_default)
       = idle_ms (max_idle_timeout None TransportConfig_default)"
  using idle_timeout_millis [of "duration_from_secs 30" TransportConfig_default]
    idle_timeout_millis [of "\<lparr>dur_secs = 0, dur_nanos = 999999\<rparr>" TransportConfig_default]
    idle_timeout_millis [of "duration_from_secs (2 ^ 61)" TransportConfig_default]
  by (simp add: millis_def duration_from_secs_def)

text \<open>
  Certificate verification is what the client configuration says, and on by default: when
  \<open>build_client_tls_config\<close> succeeds, the TLS configuration has the requested verification
  setting, whether or not CA certificates were loaded after it; it succeeds exactly when TQUIC
  creates the configuration and, if a CA path is given, loads it; and every failure is an
  \<open>InvalidDnsName\<close> error. What is assumed of TQUIC: \<open>set_verify\<close> sets the flag and loading CA
  certificates keeps it.
\<close>

lemma client_tls_verification:
  assumes set_verify: "\<And>v tls. verifies (tls_set_verify api v tls) = v"
    and set_ca: "\<And>p tls tls'. tls_set_ca_certs api p tls = Ok tls' \<Longrightarrow> verifies tls' = verifies tls"
  shows "case build_client_tls_config api config of
      Ok tls \<Rightarrow> verifies tls = cc_verify config
    | Err e \<Rightarrow> (\<exists>msg. e = InvalidDnsName msg)
        \<and> (\<forall>tls. tls_new_client api (cc_alpn_protocols config) (cc_enable_early_data config) = Ok tls
             \<longrightarrow> (\<exists>p. cc_ca_certs config = Some p
                   \<and> is_err (tls_set_ca_certs api p (tls_set_verify api (cc_verify config) tls))))"
  by (cases "tls_new_client api (cc_alpn_protocols config) (cc_enable_early_data config)")
    (auto simp: build_client_tls_config_def set_verify Let_def map_err_eq_Err
      split: option.split result.split dest!: set_ca)

end
