(* ===== verification/Bridge_State.thy ===== *)
theory Bridge_State
  imports Config_Build
begin

text \<open>
  The state shared between the async API and the TQUIC thread (\<^verbatim>\<open>src/bridge.rs\<close>, first half):
  the commands, \<open>BridgeHandle\<close>, \<open>IncomingData\<close> and \<open>ConnNotify\<close>.

  Channels, \<open>Notify\<close> and \<open>watch\<close> belong to Tokio and are not modelled by an implementation of
  ours. The sending half of a channel is the list of the values sent on it so far; a \<open>Notify\<close> is
  the list of the calls made on it; a \<open>watch\<close> channel is the list of the values it has held. What
  a receiver gets is an input of the operation that receives, and what \<open>watch::Receiver::borrow\<close>
  returns is a parameter (\<open>borrow\<close>, with the law \<open>watch_law\<close>). Maps with interior locking
  (\<open>DashMap\<close>) are maps; the order of their iteration is an input.
\<close>

section \<open>Commands\<close>

text \<open>A \<open>oneshot::Sender\<close> is named by a number; what is sent on it is recorded by the bridge.\<close>

type_synonym responder = nat

datatype BridgeCommand =
    Connect SocketAddr string "ClientConfig option" responder
  | SetServerConfig "ServerConfig option"
  | SetDefaultClientConfig ClientConfig
  | CloseEndpoint u64 bytes
  | AcceptIncoming
  | RefuseIncoming u64
  | CloseConnection u64 u64 bytes
  | OpenBiStream u64 responder
  | OpenUniStream u64 responder
  | StreamWrite u64 u64 bytes bool responder
  | StreamRead u64 u64 nat responder
  | StreamShutdownRead u64 u64 u64
  | StreamShutdownWrite u64 u64 u64
  | StreamSetPriority u64 u64 u8
  | GetRtt u64 responder
  | AddPath u64 SocketAddr SocketAddr responder
  | AbandonPath u64 SocketAddr SocketAddr responder
  | MigratePath u64 SocketAddr SocketAddr responder
  | GetPathStats u64 SocketAddr SocketAddr responder
  | GetPaths u64 responder

text \<open>\<open>Debug\<close>; the commands that are not listed print the name of the type, an argument here.\<close>

fun debug_BridgeCommand :: "string \<Rightarrow> BridgeCommand \<Rightarrow> string" where
  "debug_BridgeCommand type_name (Connect addr server_name _ _) =
     ''Connect('' @ show_SocketAddr addr @ '', '' @ server_name @ '')''"
| "debug_BridgeCommand type_name (CloseEndpoint _ _) = ''CloseEndpoint''"
| "debug_BridgeCommand type_name (CloseConnection conn_id _ _) =
     ''CloseConnection('' @ show_u64 conn_id @ '')''"
| "debug_BridgeCommand type_name (OpenBiStream conn_id _) =
     ''OpenBiStream('' @ show_u64 conn_id @ '')''"
| "debug_BridgeCommand type_name (OpenUniStream conn_id _) =
     ''OpenUniStream('' @ show_u64 conn_id @ '')''"
| "debug_BridgeCommand type_name (StreamWrite conn_id stream_id _ _ _) =
     ''StreamWrite('' @ show_u64 conn_id @ '', '' @ show_u64 stream_id @ '')''"
| "debug_BridgeCommand type_name (StreamRead conn_id stream_id _ _) =
     ''StreamRead('' @ show_u64 conn_id @ '', '' @ show_u64 stream_id @ '')''"
| "debug_BridgeCommand type_name _ = type_name"

section \<open>Notify\<close>

datatype notify_call = NotifyOne | NotifyWaiters

type_synonym Notify = "notify_call list"

abbreviation Notify_new :: Notify where
  "Notify_new \<equiv> []"

definition notify_one :: "Notify \<Rightarrow> Notify" where
  "notify_one n = n @ [NotifyOne]"

definition notify_waiters :: "Notify \<Rightarrow> Notify" where
  "notify_waiters n = n @ [NotifyWaiters]"

section \<open>ConnNotify\<close>

type_synonym waker = nat
type_synonym closed_watch = "ConnectionError option list"

record ConnNotify =
  is_established :: bool
  establish_waker :: "waker option"
  closed_tx :: closed_watch
  accept_bi_tx :: "u64 list"
  accept_uni_tx :: "u64 list"
  stream_readable :: "u64 \<rightharpoonup> Notify"
  stream_writable :: "u64 \<rightharpoonup> Notify"
  cn_is_server :: bool
  cn_remote_addr :: SocketAddr

definition ConnNotify_new :: "SocketAddr \<Rightarrow> ConnNotify" where
  "ConnNotify_new remote_addr =
     \<lparr>is_established = False, establish_waker = None, closed_tx = [None],
      accept_bi_tx = [], accept_uni_tx = [],
      stream_readable = Map.empty, stream_writable = Map.empty,
      cn_is_server = False, cn_remote_addr = remote_addr\<rparr>"

text \<open>\<open>entry(stream_id).or_insert_with(..)\<close>; the table keeps what it has.\<close>

definition or_insert :: "u64 \<Rightarrow> (u64 \<rightharpoonup> Notify) \<Rightarrow> (u64 \<rightharpoonup> Notify)" where
  "or_insert k m = (case m k of Some _ \<Rightarrow> m | None \<Rightarrow> m(k \<mapsto> Notify_new))"

definition get_or_create_readable :: "u64 \<Rightarrow> ConnNotify \<Rightarrow> ConnNotify" where
  "get_or_create_readable stream_id cn =
     cn\<lparr>stream_readable := or_insert stream_id (stream_readable cn)\<rparr>"

definition get_or_create_writable :: "u64 \<Rightarrow> ConnNotify \<Rightarrow> ConnNotify" where
  "get_or_create_writable stream_id cn =
     cn\<lparr>stream_writable := or_insert stream_id (stream_writable cn)\<rparr>"

text \<open>\<open>if let Some(n) = table.get(&stream_id) { n.notify_one() }\<close>\<close>

definition notify_entry :: "u64 \<Rightarrow> (u64 \<rightharpoonup> Notify) \<Rightarrow> (u64 \<rightharpoonup> Notify)" where
  "notify_entry k m = (case m k of Some n \<Rightarrow> m(k \<mapsto> notify_one n) | None \<Rightarrow> m)"

text \<open>What the source relies on in \<open>borrow\<close>: it returns the value sent last.\<close>

definition watch_law :: "(closed_watch \<Rightarrow> ConnectionError option) \<Rightarrow> bool" where
  "watch_law borrow \<longleftrightarrow> (\<forall>vs v. borrow (vs @ [v]) = v)"

lemma watch_lawD [simp]: "watch_law borrow \<Longrightarrow> borrow (vs @ [v]) = v"
  by (simp add: watch_law_def)

lemma watch_law_last: "watch_law last"
  by (simp add: watch_law_def)

section \<open>BridgeHandle\<close>

record IncomingData =
  in_conn_id :: u64
  in_remote_addr :: SocketAddr

text \<open>\<open>woken\<close> is the log of the wakers the handler has woken, oldest first.\<close>

record BridgeHandle =
  cmd_tx :: "BridgeCommand list"
  local_addr :: SocketAddr
  conn_states :: "u64 \<rightharpoonup> ConnNotify"
  open_connections :: u64
  endpoint_closed :: bool
  idle_notify :: Notify
  woken :: "waker list"

definition BridgeHandle_new :: "SocketAddr \<Rightarrow> BridgeHandle" where
  "BridgeHandle_new addr =
     \<lparr>cmd_tx = [], local_addr = addr, conn_states = Map.empty, open_connections = 0,
      endpoint_closed = False, idle_notify = Notify_new, woken = []\<rparr>"

definition send_cmd :: "BridgeCommand \<Rightarrow> BridgeHandle \<Rightarrow> BridgeHandle" where
  "send_cmd cmd h = h\<lparr>cmd_tx := cmd_tx h @ [cmd]\<rparr>"

definition get_conn_notify :: "u64 \<Rightarrow> BridgeHandle \<Rightarrow> ConnNotify option" where
  "get_conn_notify conn_id h = conn_states h conn_id"

text \<open>A change of the entry of a connection that is there: \<open>if let Some(notify) = .. get(..)\<close>.\<close>

definition with_conn :: "u64 \<Rightarrow> (ConnNotify \<Rightarrow> ConnNotify) \<Rightarrow> BridgeHandle \<Rightarrow> BridgeHandle" where
  "with_conn conn_id f h =
     (case conn_states h conn_id of
        Some cn \<Rightarrow> h\<lparr>conn_states := (conn_states h)(conn_id \<mapsto> f cn)\<rparr>
      | None \<Rightarrow> h)"

section \<open>Laws\<close>

lemma or_insert_apply: "or_insert k m j = (if j = k \<and> m k = None then Some Notify_new else m j)"
  by (auto simp: or_insert_def split: option.splits)

interpretation readable: registry "stream_readable" "get_or_create_readable" "Notify_new"
  by unfold_locales (simp add: get_or_create_readable_def or_insert_apply)

interpretation writable: registry "stream_writable" "get_or_create_writable" "Notify_new"
  by unfold_locales (simp add: get_or_create_writable_def or_insert_apply)

lemma notify_entry_apply:
  "notify_entry k m j = (if j = k then map_option notify_one (m k) else m j)"
  by (auto simp: notify_entry_def split: option.splits)

lemma with_conn_states [simp]:
  "conn_states (with_conn c f h) = (\<lambda>i. if i = c then map_option f (conn_states h c) else conn_states h i)"
  by (auto simp: with_conn_def fun_eq_iff split: option.splits)

lemma with_conn_frame [simp]:
  "cmd_tx (with_conn c f h) = cmd_tx h" "local_addr (with_conn c f h) = local_addr h"
  "open_connections (with_conn c f h) = open_connections h"
  "endpoint_closed (with_conn c f h) = endpoint_closed h"
  "idle_notify (with_conn c f h) = idle_notify h" "woken (with_conn c f h) = woken h"
  by (auto simp: with_conn_def split: option.splits)

lemma send_cmd_frame [simp]:
  "cmd_tx (send_cmd c h) = cmd_tx h @ [c]" "local_addr (send_cmd c h) = local_addr h"
  "conn_states (send_cmd c h) = conn_states h"
  "open_connections (send_cmd c h) = open_connections h"
  "endpoint_closed (send_cmd c h) = endpoint_closed h"
  "idle_notify (send_cmd c h) = idle_notify h" "woken (send_cmd c h) = woken h"
  by (simp_all add: send_cmd_def)

lemma get_or_create_frame [simp]:
  "closed_tx (get_or_create_readable s cn) = closed_tx cn"
  "closed_tx (get_or_create_writable s cn) = closed_tx cn"
  "is_established (get_or_create_readable s cn) = is_established cn"
  "is_established (get_or_create_writable s cn) = is_established cn"
  "establish_waker (get_or_create_readable s cn) = establish_waker cn"
  "establish_waker (get_or_create_writable s cn) = establish_waker cn"
  "accept_bi_tx (get_or_create_readable s cn) = accept_bi_tx cn"
  "accept_bi_tx (get_or_create_writable s cn) = accept_bi_tx cn"
  "accept_uni_tx (get_or_create_readable s cn) = accept_uni_tx cn"
  "accept_uni_tx (get_or_create_writable s cn) = accept_uni_tx cn"
  "cn_is_server (get_or_create_readable s cn) = cn_is_server cn"
  "cn_is_server (get_or_create_writable s cn) = cn_is_server cn"
  "cn_remote_addr (get_or_create_readable s cn) = cn_remote_addr cn"
  "cn_remote_addr (get_or_create_writable s cn) = cn_remote_addr cn"
  "stream_writable (get_or_create_readable s cn) = stream_writable cn"
  "stream_readable (get_or_create_writable s cn) = stream_readable cn"
  by (simp_all add: get_or_create_readable_def get_or_create_writable_def)

end
