(* ===== verification/Handler.thy ===== *)
theory Handler
  imports Bridge_State
begin

text \<open>
  \<open>PacketSender\<close> and \<open>BridgeTransportHandler\<close> of \<^verbatim>\<open>src/bridge.rs\<close>: what TQUIC calls back.
  A callback is a value of the datatype \<open>tquic_callback\<close>; it carries what the handler asks of the
  \<open>tquic::Connection\<close> it is given (a record of the answers). \<open>handle_callback\<close> dispatches to the
  handler's methods, and a run of callbacks is a fold.
\<close>

unbundle bit_operations_syntax

section \<open>PacketSender\<close>

record PacketInfo =
  pi_src :: SocketAddr
  pi_dst :: SocketAddr

datatype send_outcome = SendOk nat | WouldBlock | SendFailed string

text \<open>\<open>try_send_to\<close> is a parameter over an abstract socket state.\<close>

type_synonym 'w try_send = "'w \<Rightarrow> bytes \<Rightarrow> SocketAddr \<Rightarrow> send_outcome \<times> 'w"

fun send_loop :: "'w try_send \<Rightarrow> (bytes \<times> PacketInfo) list \<Rightarrow> nat \<Rightarrow> 'w
    \<Rightarrow> (tquic_Error, nat) result \<times> 'w" where
  "send_loop try_send_to [] count w = (Ok count, w)"
| "send_loop try_send_to ((pkt, info) # pkts) count w =
     (case try_send_to w pkt (pi_dst info) of
        (SendOk _, w') \<Rightarrow> send_loop try_send_to pkts (Suc count) w'
      | (WouldBlock, w') \<Rightarrow> (Ok count, w')
      | (SendFailed e, w') \<Rightarrow> (Err (IoError (''send_to: '' @ e)), w'))"

definition on_packets_send :: "'w try_send \<Rightarrow> 'w option \<Rightarrow> (bytes \<times> PacketInfo) list
    \<Rightarrow> (tquic_Error, nat) result \<times> 'w option" where
  "on_packets_send try_send_to socket pkts =
     (case socket of
        None \<Rightarrow> (Err Done, None)
      | Some w \<Rightarrow> map_prod id Some (send_loop try_send_to pkts 0 w))"

section \<open>BridgeTransportHandler\<close>

text \<open>The answers of a \<open>tquic::Connection\<close> to the handler's questions.\<close>

record tquic_Connection =
  conn_index :: "u64 option"
  active_path_remote :: "(tquic_Error, SocketAddr) result"
  conn_is_server :: bool
  peer_error :: "tquic_ConnectionError option"
  local_error :: "tquic_ConnectionError option"
  is_idle_timeout :: bool
  is_handshake_timeout :: bool
  is_reset :: bool

record BridgeTransportHandler =
  handle :: BridgeHandle
  is_server :: bool
  incoming_tx :: "IncomingData list"

definition callback_conn_id :: "tquic_Connection \<Rightarrow> u64" where
  "callback_conn_id conn = unwrap_or (conn_index conn) 0"

definition on_conn_created :: "tquic_Connection \<Rightarrow> BridgeTransportHandler \<Rightarrow> BridgeTransportHandler" where
  "on_conn_created conn self =
     (let conn_id = callback_conn_id conn;
          remote = (case active_path_remote conn of Ok addr \<Rightarrow> addr | Err _ \<Rightarrow> addr_unspecified);
          notify = (ConnNotify_new remote)\<lparr>cn_is_server := conn_is_server conn\<rparr>;
          h = handle self;
          h = h\<lparr>conn_states := (conn_states h)(conn_id \<mapsto> notify)\<rparr>;
          h = h\<lparr>open_connections := open_connections h + 1\<rparr>
      in self\<lparr>handle := h,
              incoming_tx := (if is_server self
                 then incoming_tx self @ [\<lparr>in_conn_id = conn_id, in_remote_addr = remote\<rparr>]
                 else incoming_tx self)\<rparr>)"

text \<open>\<open>if let Some(waker) = establish_waker.lock().unwrap().take() { waker.wake() }\<close>\<close>

definition take_and_wake :: "u64 \<Rightarrow> BridgeHandle \<Rightarrow> BridgeHandle" where
  "take_and_wake conn_id h =
     (case conn_states h conn_id of
        Some notify \<Rightarrow>
          (case establish_waker notify of
             Some waker \<Rightarrow>
               h\<lparr>conn_states := (conn_states h)(conn_id \<mapsto> notify\<lparr>establish_waker := None\<rparr>),
                 woken := woken h @ [waker]\<rparr>
           | None \<Rightarrow> h)
      | None \<Rightarrow> h)"

definition on_conn_established :: "tquic_Connection \<Rightarrow> BridgeTransportHandler \<Rightarrow> BridgeTransportHandler" where
  "on_conn_established conn self =
     (let conn_id = callback_conn_id conn;
          h = with_conn conn_id (\<lambda>notify. notify\<lparr>is_established := True\<rparr>) (handle self)
      in self\<lparr>handle := take_and_wake conn_id h\<rparr>)"

definition close_error :: "tquic_Connection \<Rightarrow> ConnectionError option" where
  "close_error conn =
     (case peer_error conn of
        Some err \<Rightarrow> Some (from_tquic_conn_error err)
      | None \<Rightarrow>
          (case local_error conn of
             Some err \<Rightarrow> Some (from_tquic_conn_error err)
           | None \<Rightarrow>
               if is_idle_timeout conn \<or> is_handshake_timeout conn then Some TimedOut
               else if is_reset conn then Some Reset
               else Some LocallyClosed))"

definition on_conn_closed :: "tquic_Connection \<Rightarrow> BridgeTransportHandler \<Rightarrow> BridgeTransportHandler" where
  "on_conn_closed conn self =
     (let conn_id = callback_conn_id conn;
          error = close_error conn;
          h = with_conn conn_id (\<lambda>notify. notify\<lparr>closed_tx := closed_tx notify @ [error]\<rparr>) (handle self);
          h = take_and_wake conn_id h;
          h = h\<lparr>open_connections := open_connections h - 1\<rparr>;
          h = (if open_connections h = 0 then h\<lparr>idle_notify := notify_waiters (idle_notify h)\<rparr> else h)
      in self\<lparr>handle := h\<rparr>)"

definition peer_initiated :: "bool \<Rightarrow> u64 \<Rightarrow> bool" where
  "peer_initiated server stream_id =
     (if server then stream_id AND 1 = 0 else stream_id AND 1 = 1)"

definition is_bidi :: "u64 \<Rightarrow> bool" where
  "is_bidi stream_id \<longleftrightarrow> stream_id AND 2 = 0"

definition stream_created :: "u64 \<Rightarrow> ConnNotify \<Rightarrow> ConnNotify" where
  "stream_created stream_id notify =
     (let notify = get_or_create_readable stream_id notify;
          notify = get_or_create_writable stream_id notify
      in if peer_initiated (cn_is_server notify) stream_id
         then if is_bidi stream_id
              then notify\<lparr>accept_bi_tx := accept_bi_tx notify @ [stream_id]\<rparr>
              else notify\<lparr>accept_uni_tx := accept_uni_tx notify @ [stream_id]\<rparr>
         else notify)"

definition on_stream_created ::
    "tquic_Connection \<Rightarrow> u64 \<Rightarrow> BridgeTransportHandler \<Rightarrow> BridgeTransportHandler" where
  "on_stream_created conn stream_id self =
     self\<lparr>handle := with_conn (callback_conn_id conn) (stream_created stream_id) (handle self)\<rparr>"

definition stream_became_readable :: "u64 \<Rightarrow> ConnNotify \<Rightarrow> ConnNotify" where
  "stream_became_readable stream_id notify =
     (let notify = get_or_create_readable stream_id notify
      in notify\<lparr>stream_readable := notify_entry stream_id (stream_readable notify)\<rparr>)"

definition on_stream_readable ::
    "tquic_Connection \<Rightarrow> u64 \<Rightarrow> BridgeTransportHandler \<Rightarrow> BridgeTransportHandler" where
  "on_stream_readable conn stream_id self =
     self\<lparr>handle := with_conn (callback_conn_id conn) (stream_became_readable stream_id) (handle self)\<rparr>"

definition stream_became_writable :: "u64 \<Rightarrow> ConnNotify \<Rightarrow> ConnNotify" where
  "stream_became_writable stream_id notify =
     (let notify = get_or_create_writable stream_id notify
      in notify\<lparr>stream_writable := notify_entry stream_id (stream_writable notify)\<rparr>)"

definition on_stream_writable ::
    "tquic_Connection \<Rightarrow> u64 \<Rightarrow> BridgeTransportHandler \<Rightarrow> BridgeTransportHandler" where
  "on_stream_writable conn stream_id self =
     self\<lparr>handle := with_conn (callback_conn_id conn) (stream_became_writable stream_id) (handle self)\<rparr>"

definition stream_was_closed :: "u64 \<Rightarrow> ConnNotify \<Rightarrow> ConnNotify" where
  "stream_was_closed stream_id notify =
     notify\<lparr>stream_readable := notify_entry stream_id (stream_readable notify),
            stream_writable := notify_entry stream_id (stream_writable notify)\<rparr>"

definition on_stream_closed ::
    "tquic_Connection \<Rightarrow> u64 \<Rightarrow> BridgeTransportHandler \<Rightarrow> BridgeTransportHandler" where
  "on_stream_closed conn stream_id self =
     self\<lparr>handle := with_conn (callback_conn_id conn) (stream_was_closed stream_id) (handle self)\<rparr>"

definition on_new_token ::
    "tquic_Connection \<Rightarrow> bytes \<Rightarrow> BridgeTransportHandler \<Rightarrow> BridgeTransportHandler" where
  "on_new_token conn token self = self"

section \<open>Runs of callbacks\<close>

datatype tquic_callback =
    OnConnCreated tquic_Connection
  | OnConnEstablished tquic_Connection
  | OnConnClosed tquic_Connection
  | OnStreamCreated tquic_Connection u64
  | OnStreamReadable tquic_Connection u64
  | OnStreamWritable tquic_Connection u64
  | OnStreamClosed tquic_Connection u64
  | OnNewToken tquic_Connection bytes

fun handle_callback :: "tquic_callback \<Rightarrow> BridgeTransportHandler \<Rightarrow> BridgeTransportHandler" where
  "handle_callback (OnConnCreated conn) self = on_conn_created conn self"
| "handle_callback (OnConnEstablished conn) self = on_conn_established conn self"
| "handle_callback (OnConnClosed conn) self = on_conn_closed conn self"
| "handle_callback (OnStreamCreated conn stream_id) self = on_stream_created conn stream_id self"
| "handle_callback (OnStreamReadable conn stream_id) self = on_stream_readable conn stream_id self"
| "handle_callback (OnStreamWritable conn stream_id) self = on_stream_writable conn stream_id self"
| "handle_callback (OnStreamClosed conn stream_id) self = on_stream_closed conn stream_id self"
| "handle_callback (OnNewToken conn token) self = on_new_token conn token self"

definition run_callbacks :: "tquic_callback list \<Rightarrow> BridgeTransportHandler \<Rightarrow> BridgeTransportHandler" where
  "run_callbacks cbs self = fold handle_callback cbs self"

declare
  on_conn_created_def [handler_simps] on_conn_established_def [handler_simps]
  on_conn_closed_def [handler_simps] on_stream_created_def [handler_simps]
  on_stream_readable_def [handler_simps] on_stream_writable_def [handler_simps]
  on_stream_closed_def [handler_simps] on_new_token_def [handler_simps] Let_def [handler_simps]

fun callback_conn :: "tquic_callback \<Rightarrow> tquic_Connection" where
  "callback_conn (OnConnCreated conn) = conn"
| "callback_conn (OnConnEstablished conn) = conn"
| "callback_conn (OnConnClosed conn) = conn"
| "callback_conn (OnStreamCreated conn _) = conn"
| "callback_conn (OnStreamReadable conn _) = conn"
| "callback_conn (OnStreamWritable conn _) = conn"
| "callback_conn (OnStreamClosed conn _) = conn"
| "callback_conn (OnNewToken conn _) = conn"

abbreviation callback_id :: "tquic_callback \<Rightarrow> u64" where
  "callback_id cb \<equiv> callback_conn_id (callback_conn cb)"

definition is_created :: "tquic_callback \<Rightarrow> bool" where
  "is_created cb \<longleftrightarrow> (case cb of OnConnCreated _ \<Rightarrow> True | _ \<Rightarrow> False)"

definition is_closed :: "tquic_callback \<Rightarrow> bool" where
  "is_closed cb \<longleftrightarrow> (case cb of OnConnClosed _ \<Rightarrow> True | _ \<Rightarrow> False)"

section \<open>What a callback does to the entry of one connection\<close>

text \<open>
  Every callback but a creation changes the entry of its own connection by a function of that
  entry, and no other entry; a creation replaces it.
\<close>

fun entry_step :: "tquic_callback \<Rightarrow> ConnNotify \<Rightarrow> ConnNotify" where
  "entry_step (OnConnCreated conn) cn =
     (ConnNotify_new (case active_path_remote conn of Ok addr \<Rightarrow> addr | Err _ \<Rightarrow> addr_unspecified))
       \<lparr>cn_is_server := conn_is_server conn\<rparr>"
| "entry_step (OnConnEstablished conn) cn = cn\<lparr>is_established := True, establish_waker := None\<rparr>"
| "entry_step (OnConnClosed conn) cn =
     cn\<lparr>closed_tx := closed_tx cn @ [close_error conn], establish_waker := None\<rparr>"
| "entry_step (OnStreamCreated conn s) cn = stream_created s cn"
| "entry_step (OnStreamReadable conn s) cn = stream_became_readable s cn"
| "entry_step (OnStreamWritable conn s) cn = stream_became_writable s cn"
| "entry_step (OnStreamClosed conn s) cn = stream_was_closed s cn"
| "entry_step (OnNewToken conn t) cn = cn"

lemma take_and_wake_states [simp]:
  "conn_states (take_and_wake c h)
   = (\<lambda>i. if i = c then map_option (\<lambda>cn. cn\<lparr>establish_waker := None\<rparr>) (conn_states h c)
         else conn_states h i)"
  by (auto simp: take_and_wake_def fun_eq_iff split: option.splits)

lemma take_and_wake_frame [simp]:
  "cmd_tx (take_and_wake c h) = cmd_tx h" "local_addr (take_and_wake c h) = local_addr h"
  "open_connections (take_and_wake c h) = open_connections h"
  "endpoint_closed (take_and_wake c h) = endpoint_closed h"
  "idle_notify (take_and_wake c h) = idle_notify h"
  by (auto simp: take_and_wake_def split: option.splits)

lemma handle_callback_entry:
  "conn_states (handle (handle_callback cb self)) i =
     (if i \<noteq> callback_id cb then conn_states (handle self) i
      else if is_created cb then Some (entry_step cb (ConnNotify_new addr_unspecified))
      else map_option (entry_step cb) (conn_states (handle self) i))"
  by (cases cb; cases "conn_states (handle self) i")
    (auto simp: handler_simps is_created_def)

lemma handle_callback_frame [simp]:
  "is_server (handle_callback cb self) = is_server self"
  "cmd_tx (handle (handle_callback cb self)) = cmd_tx (handle self)"
  "local_addr (handle (handle_callback cb self)) = local_addr (handle self)"
  "endpoint_closed (handle (handle_callback cb self)) = endpoint_closed (handle self)"
  by (cases cb; simp add: handler_simps Let_def)+

lemma handle_callback_open:
  "open_connections (handle (handle_callback cb self)) =
     (if is_created cb then open_connections (handle self) + 1
      else if is_closed cb then open_connections (handle self) - 1
      else open_connections (handle self))"
  by (cases cb) (simp_all add: handler_simps is_created_def is_closed_def Let_def)

lemma handle_callback_incoming:
  "incoming_tx (handle_callback cb self) =
     (if is_created cb \<and> is_server self
      then incoming_tx self @ [\<lparr>in_conn_id = callback_id cb,
        in_remote_addr = cn_remote_addr (entry_step cb (ConnNotify_new addr_unspecified))\<rparr>]
      else incoming_tx self)"
  by (cases cb) (simp_all add: handler_simps is_created_def ConnNotify_new_def)

end
