(* ===== verification/Commands.thy ===== *)
theory Commands
  imports Handler
begin

text \<open>
  \<open>process_command\<close> of \<^verbatim>\<open>src/bridge.rs\<close>: what the TQUIC thread does for each command of the
  async API. TQUIC's \<open>Endpoint\<close> and \<open>Connection\<close> are a parameter: the record \<open>tquic_api\<close> holds the
  methods the source calls, over an abstract endpoint state \<open>'q\<close>. A method of the endpoint also
  returns the callbacks it made, in order; a method of a connection cannot reach the handler and
  makes none. Answers to the API are recorded in \<open>responses\<close>: the values sent on the oneshot
  channels, with the channel they were sent on.
\<close>

section \<open>TQUIC as the bridge uses it\<close>

record FourTuple =
  ft_local :: SocketAddr
  ft_remote :: SocketAddr

record PathStats =
  ps_recv_count :: u64
  ps_recv_bytes :: u64
  ps_sent_count :: u64
  ps_sent_bytes :: u64
  ps_lost_count :: u64
  ps_lost_bytes :: u64
  ps_acked_count :: u64
  ps_acked_bytes :: u64
  ps_init_cwnd :: u64
  ps_final_cwnd :: u64
  ps_max_cwnd :: u64
  ps_min_cwnd :: u64
  ps_max_inflight :: u64
  ps_loss_event_count :: u64
  ps_cwnd_limited_count :: u64
  ps_cwnd_limited_duration :: Duration
  ps_min_rtt :: u64
  ps_max_rtt :: u64
  ps_srtt :: u64
  ps_rttvar :: u64
  ps_in_slow_start :: bool
  ps_pacing_rate :: u64
  ps_min_pacing_rate :: u64
  ps_pto_count :: u64

datatype Shutdown = ShutdownRead | ShutdownWrite

text \<open>
  \<open>conn_get\<close> says whether \<open>conn_get_mut\<close> finds the connection. \<open>stream_read\<close> fills the slice it is
  given: it returns what each index of the slice holds afterwards, so that the length of the slice
  stays what the caller made it.
\<close>

record ('tls, 'cfg, 'q) tquic_api =
  config_api :: "('tls, 'cfg) tquic_config_api"
  ep_new :: "'cfg \<Rightarrow> bool \<Rightarrow> 'q"
  ep_timeout :: "'q \<Rightarrow> Duration option"
  ep_connect :: "SocketAddr \<Rightarrow> SocketAddr \<Rightarrow> string option \<Rightarrow> bytes option \<Rightarrow> bytes option \<Rightarrow> 'cfg option
    \<Rightarrow> 'q \<Rightarrow> (tquic_Error, u64) result \<times> tquic_callback list \<times> 'q"
  ep_close :: "bool \<Rightarrow> 'q \<Rightarrow> tquic_callback list \<times> 'q"
  ep_recv :: "bytes \<Rightarrow> PacketInfo \<Rightarrow> 'q \<Rightarrow> (tquic_Error, unit) result \<times> tquic_callback list \<times> 'q"
  ep_on_timeout :: "'q \<Rightarrow> tquic_callback list \<times> 'q"
  ep_process_connections :: "'q \<Rightarrow> (tquic_Error, unit) result \<times> tquic_callback list \<times> 'q"
  conn_get :: "u64 \<Rightarrow> 'q \<Rightarrow> bool"
  conn_close :: "u64 \<Rightarrow> bool \<Rightarrow> u64 \<Rightarrow> bytes \<Rightarrow> 'q \<Rightarrow> (tquic_Error, unit) result \<times> 'q"
  stream_bidi_new :: "u64 \<Rightarrow> u8 \<Rightarrow> bool \<Rightarrow> 'q \<Rightarrow> (tquic_Error, u64) result \<times> 'q"
  stream_uni_new :: "u64 \<Rightarrow> u8 \<Rightarrow> bool \<Rightarrow> 'q \<Rightarrow> (tquic_Error, u64) result \<times> 'q"
  stream_write :: "u64 \<Rightarrow> u64 \<Rightarrow> bytes \<Rightarrow> bool \<Rightarrow> 'q \<Rightarrow> (tquic_Error, nat) result \<times> 'q"
  stream_read :: "u64 \<Rightarrow> u64 \<Rightarrow> nat \<Rightarrow> 'q \<Rightarrow> (tquic_Error, nat \<times> bool) result \<times> (nat \<Rightarrow> u8) \<times> 'q"
  stream_shutdown :: "u64 \<Rightarrow> u64 \<Rightarrow> Shutdown \<Rightarrow> u64 \<Rightarrow> 'q \<Rightarrow> (tquic_Error, unit) result \<times> 'q"
  stream_set_priority :: "u64 \<Rightarrow> u64 \<Rightarrow> u8 \<Rightarrow> bool \<Rightarrow> 'q \<Rightarrow> (tquic_Error, unit) result \<times> 'q"
  paths_iter :: "u64 \<Rightarrow> 'q \<Rightarrow> FourTuple list"
  get_path_stats :: "u64 \<Rightarrow> SocketAddr \<Rightarrow> SocketAddr \<Rightarrow> 'q \<Rightarrow> (tquic_Error, PathStats) result \<times> 'q"
  add_path :: "u64 \<Rightarrow> SocketAddr \<Rightarrow> SocketAddr \<Rightarrow> 'q \<Rightarrow> (tquic_Error, u64) result \<times> 'q"
  abandon_path :: "u64 \<Rightarrow> SocketAddr \<Rightarrow> SocketAddr \<Rightarrow> 'q \<Rightarrow> (tquic_Error, unit) result \<times> 'q"
  migrate_path :: "u64 \<Rightarrow> SocketAddr \<Rightarrow> SocketAddr \<Rightarrow> 'q \<Rightarrow> (tquic_Error, unit) result \<times> 'q"

section \<open>The state of the TQUIC thread\<close>

datatype response =
    RespConnect "(ConnectError, u64) result"
  | RespOpen "(ConnectionError, u64) result"
  | RespWrite "(WriteError, nat) result"
  | RespRead "(ReadError, bytes \<times> bool) result"
  | RespRtt "Duration option"
  | RespPath "(ConnectionError, unit) result"
  | RespStats "(ConnectionError, PathStats) result"
  | RespPaths "(ConnectionError, FourTuple list) result"

record 'q Bridge =
  endpoint :: 'q
  handler :: BridgeTransportHandler
  current_client_config :: "ClientConfig option"
  responses :: "(responder \<times> response) list"

definition respond :: "responder \<Rightarrow> response \<Rightarrow> 'q Bridge \<Rightarrow> 'q Bridge" where
  "respond r x b = b\<lparr>responses := responses b @ [(r, x)]\<rparr>"

text \<open>The endpoint moves to a new state and the callbacks it made are handled.\<close>

definition after_call :: "tquic_callback list \<times> 'q \<Rightarrow> 'q Bridge \<Rightarrow> 'q Bridge" where
  "after_call r b = b\<lparr>endpoint := snd r, handler := run_callbacks (fst r) (handler b)\<rparr>"

section \<open>The branches\<close>

definition connect_error :: "tquic_Error \<Rightarrow> ConnectError" where
  "connect_error e = (case e of InvalidConfig s \<Rightarrow> InvalidDnsName s | _ \<Rightarrow> EndpointStopping)"

definition call_connect ::
    "('tls, 'cfg, 'q) tquic_api \<Rightarrow> SocketAddr \<Rightarrow> SocketAddr \<Rightarrow> string \<Rightarrow> 'cfg option \<Rightarrow> responder
     \<Rightarrow> 'q Bridge \<Rightarrow> 'q Bridge" where
  "call_connect api laddr addr server_name cfg r b =
     (let (result, called) = ep_connect api laddr addr (Some server_name) None None cfg (endpoint b)
      in respond r (RespConnect (map_err connect_error result)) (after_call called b))"

definition process_connect ::
    "('tls, 'cfg, 'q) tquic_api \<Rightarrow> EndpointConfig \<Rightarrow> SocketAddr \<Rightarrow> SocketAddr \<Rightarrow> string
     \<Rightarrow> ClientConfig option \<Rightarrow> responder \<Rightarrow> 'q Bridge \<Rightarrow> 'q Bridge" where
  "process_connect api endpoint_config laddr addr server_name client_config r b =
     (case or_else client_config (current_client_config b) of
        Some cc \<Rightarrow>
          (case build_client_tls_config (config_api api) cc of
             Ok tls \<Rightarrow>
               (case build_tquic_config (config_api api) endpoint_config (cc_transport cc) tls None of
                  Ok cfg \<Rightarrow> call_connect api laddr addr server_name (Some cfg) r b
                | Err e \<Rightarrow> respond r (RespConnect (Err e)) b)
           | Err e \<Rightarrow> respond r (RespConnect (Err e)) b)
      | None \<Rightarrow> call_connect api laddr addr server_name None r b)"

text \<open>\<open>if let Some(conn) = endpoint.conn_get_mut(conn_id) { let _ = conn.op(..); }\<close>\<close>

definition on_conn ::
    "('tls, 'cfg, 'q) tquic_api \<Rightarrow> u64 \<Rightarrow> ('q \<Rightarrow> (tquic_Error, 'a) result \<times> 'q) \<Rightarrow> 'q Bridge \<Rightarrow> 'q Bridge" where
  "on_conn api conn_id f b =
     (if conn_get api conn_id (endpoint b) then b\<lparr>endpoint := snd (f (endpoint b))\<rparr> else b)"

text \<open>The same, with an answer: \<open>ok\<close> of the result on a known connection, \<open>unknown\<close> else.\<close>

definition query_conn ::
    "('tls, 'cfg, 'q) tquic_api \<Rightarrow> u64 \<Rightarrow> responder \<Rightarrow> ('q \<Rightarrow> 'a \<times> 'q) \<Rightarrow> ('a \<Rightarrow> response) \<Rightarrow> response
     \<Rightarrow> 'q Bridge \<Rightarrow> 'q Bridge" where
  "query_conn api conn_id r f ok unknown b =
     (if conn_get api conn_id (endpoint b)
      then let (x, q) = f (endpoint b) in respond r (ok x) (b\<lparr>endpoint := q\<rparr>)
      else respond r unknown b)"

definition refused_bytes :: bytes where
  "refused_bytes = [114, 101, 102, 117, 115, 101, 100]"

definition close_all ::
    "('tls, 'cfg, 'q) tquic_api \<Rightarrow> u64 \<Rightarrow> bytes \<Rightarrow> u64 list \<Rightarrow> 'q \<Rightarrow> 'q" where
  "close_all api error_code reason ids q =
     fold (\<lambda>conn_id q. if conn_get api conn_id q
                       then snd (conn_close api conn_id True error_code reason q) else q) ids q"

definition process_close_endpoint ::
    "('tls, 'cfg, 'q) tquic_api \<Rightarrow> ((u64 \<rightharpoonup> ConnNotify) \<Rightarrow> u64 list) \<Rightarrow> u64 \<Rightarrow> bytes
     \<Rightarrow> 'q Bridge \<Rightarrow> 'q Bridge" where
  "process_close_endpoint api iter error_code reason b =
     (let h = (handle (handler b))\<lparr>endpoint_closed := True\<rparr>;
          b = b\<lparr>handler := (handler b)\<lparr>handle := h\<rparr>\<rparr>;
          b = b\<lparr>endpoint := close_all api error_code reason (iter (conn_states h)) (endpoint b)\<rparr>
      in after_call (ep_close api False (endpoint b)) b)"

definition open_result :: "(tquic_Error, u64) result \<Rightarrow> response" where
  "open_result r = RespOpen (map_err (\<lambda>_. LocallyClosed) r)"

definition write_result :: "(tquic_Error, nat) result \<Rightarrow> (WriteError, nat) result" where
  "write_result r =
     (case r of
        Ok n \<Rightarrow> Ok n
      | Err Done \<Rightarrow> Ok 0
      | Err (StreamStopped code) \<Rightarrow> Err (Stopped (varint_from_u32 (ucast code)))
      | Err _ \<Rightarrow> Err WriteClosedStream)"

definition read_result ::
    "nat \<Rightarrow> (tquic_Error, nat \<times> bool) result \<times> (nat \<Rightarrow> u8) \<Rightarrow> (ReadError, bytes \<times> bool) result" where
  "read_result max_len x =
     (let buf = map (snd x) [0 ..< max_len] in
      case fst x of
        Ok (n, fin) \<Rightarrow> Ok (take n buf, fin)
      | Err Done \<Rightarrow> Ok ([], False)
      | Err (StreamReset code) \<Rightarrow> Err (ReadReset (varint_from_u32 (ucast code)))
      | Err _ \<Rightarrow> Err ReadClosedStream)"

text \<open>\<open>Vec::truncate(n)\<close> keeps the first \<open>n\<close> bytes and does nothing when there are fewer: \<open>take\<close>.\<close>

definition query_rtt :: "('tls, 'cfg, 'q) tquic_api \<Rightarrow> u64 \<Rightarrow> 'q \<Rightarrow> Duration option \<times> 'q" where
  "query_rtt api conn_id q =
     (case paths_iter api conn_id q of
        four_tuple # _ \<Rightarrow>
          (let (stats, q) = get_path_stats api conn_id (ft_local four_tuple) (ft_remote four_tuple) q
           in (map_option (\<lambda>stats. duration_from_micros (ps_srtt stats)) (result_ok stats), q))
      | [] \<Rightarrow> (Some (duration_from_millis 0), q))"

definition path_error :: "('tls, 'cfg, 'q) tquic_api \<Rightarrow> string \<Rightarrow> tquic_Error \<Rightarrow> ConnectionError" where
  "path_error api op e = TransportError 0 (op @ '': '' @ show_error (config_api api) e)"

definition copy_path_stats :: "PathStats \<Rightarrow> PathStats" where
  "copy_path_stats s =
     \<lparr>ps_recv_count = ps_recv_count s, ps_recv_bytes = ps_recv_bytes s,
      ps_sent_count = ps_sent_count s, ps_sent_bytes = ps_sent_bytes s,
      ps_lost_count = ps_lost_count s, ps_lost_bytes = ps_lost_bytes s,
      ps_acked_count = ps_acked_count s, ps_acked_bytes = ps_acked_bytes s,
      ps_init_cwnd = ps_init_cwnd s, ps_final_cwnd = ps_final_cwnd s,
      ps_max_cwnd = ps_max_cwnd s, ps_min_cwnd = ps_min_cwnd s,
      ps_max_inflight = ps_max_inflight s, ps_loss_event_count = ps_loss_event_count s,
      ps_cwnd_limited_count = ps_cwnd_limited_count s,
      ps_cwnd_limited_duration = ps_cwnd_limited_duration s,
      ps_min_rtt = ps_min_rtt s, ps_max_rtt = ps_max_rtt s, ps_srtt = ps_srtt s,
      ps_rttvar = ps_rttvar s, ps_in_slow_start = ps_in_slow_start s,
      ps_pacing_rate = ps_pacing_rate s, ps_min_pacing_rate = ps_min_pacing_rate s,
      ps_pto_count = ps_pto_count s\<rparr>"

section \<open>process\_command\<close>

fun process_command ::
    "('tls, 'cfg, 'q) tquic_api \<Rightarrow> ((u64 \<rightharpoonup> ConnNotify) \<Rightarrow> u64 list) \<Rightarrow> EndpointConfig \<Rightarrow> SocketAddr
     \<Rightarrow> BridgeCommand \<Rightarrow> 'q Bridge \<Rightarrow> 'q Bridge" where
  "process_command api iter ec laddr (Connect addr server_name client_config r) b =
     process_connect api ec laddr addr server_name client_config r b"
| "process_command api iter ec laddr (SetServerConfig config) b = b"
| "process_command api iter ec laddr (SetDefaultClientConfig config) b =
     b\<lparr>current_client_config := Some config\<rparr>"
| "process_command api iter ec laddr (CloseEndpoint error_code reason) b =
     process_close_endpoint api iter error_code reason b"
| "process_command api iter ec laddr AcceptIncoming b = b"
| "process_command api iter ec laddr (RefuseIncoming conn_id) b =
     on_conn api conn_id (conn_close api conn_id False 2 refused_bytes) b"
| "process_command api iter ec laddr (CloseConnection conn_id error_code reason) b =
     on_conn api conn_id (conn_close api conn_id True error_code reason) b"
| "process_command api iter ec laddr (OpenBiStream conn_id r) b =
     query_conn api conn_id r (stream_bidi_new api conn_id 0 False) open_result
       (RespOpen (Err LocallyClosed)) b"
| "process_command api iter ec laddr (OpenUniStream conn_id r) b =
     query_conn api conn_id r (stream_uni_new api conn_id 0 False) open_result
       (RespOpen (Err LocallyClosed)) b"
| "process_command api iter ec laddr (StreamWrite conn_id stream_id data fin r) b =
     query_conn api conn_id r (stream_write api conn_id stream_id data fin)
       (\<lambda>x. RespWrite (write_result x)) (RespWrite (Err (WriteConnectionLost LocallyClosed))) b"
| "process_command api iter ec laddr (StreamRead conn_id stream_id max_len r) b =
     query_conn api conn_id r
       (\<lambda>q. let (x, buf, q) = stream_read api conn_id stream_id max_len q in ((x, buf), q))
       (\<lambda>x. RespRead (read_result max_len x)) (RespRead (Err (ReadConnectionLost LocallyClosed))) b"
| "process_command api iter ec laddr (StreamShutdownRead conn_id stream_id error_code) b =
     on_conn api conn_id (stream_shutdown api conn_id stream_id ShutdownRead error_code) b"
| "process_command api iter ec laddr (StreamShutdownWrite conn_id stream_id error_code) b =
     on_conn api conn_id (stream_shutdown api conn_id stream_id ShutdownWrite error_code) b"
| "process_command api iter ec laddr (StreamSetPriority conn_id stream_id urgency) b =
     on_conn api conn_id (stream_set_priority api conn_id stream_id urgency False) b"
| "process_command api iter ec laddr (GetRtt conn_id r) b =
     query_conn api conn_id r (query_rtt api conn_id) RespRtt (RespRtt None) b"
| "process_command api iter ec laddr (AddPath conn_id laddr' remote r) b =
     query_conn api conn_id r (add_path api conn_id laddr' remote)
       (\<lambda>x. RespPath (map_err (path_error api ''add_path'') (map_ok (\<lambda>_. ()) x)))
       (RespPath (Err LocallyClosed)) b"
| "process_command api iter ec laddr (AbandonPath conn_id laddr' remote r) b =
     query_conn api conn_id r (abandon_path api conn_id laddr' remote)
       (\<lambda>x. RespPath (map_err (path_error api ''abandon_path'') x)) (RespPath (Err LocallyClosed)) b"
| "process_command api iter ec laddr (MigratePath conn_id laddr' remote r) b =
     query_conn api conn_id r (migrate_path api conn_id laddr' remote)
       (\<lambda>x. RespPath (map_err (path_error api ''migrate_path'') x)) (RespPath (Err LocallyClosed)) b"
| "process_command api iter ec laddr (GetPathStats conn_id laddr' remote r) b =
     query_conn api conn_id r (get_path_stats api conn_id laddr' remote)
       (\<lambda>x. RespStats (map_err (path_error api ''get_path_stats'') (map_ok copy_path_stats x)))
       (RespStats (Err LocallyClosed)) b"
| "process_command api iter ec laddr (GetPaths conn_id r) b =
     query_conn api conn_id r (\<lambda>q. (paths_iter api conn_id q, q)) (\<lambda>x. RespPaths (Ok x))
       (RespPaths (Err LocallyClosed)) b"

end
