(* ===== verification/Handler_Props.thy ===== *)
theory Handler_Props
  imports Handler
begin

text \<open>
  What the transport callbacks guarantee over whole runs: the connection counter, the accept
  queues, the close reason, the per-stream notifications, the announcement of incoming
  connections, and the packet sender.
\<close>

unbundle bit_operations_syntax

section \<open>Stream identifiers\<close>

lemma bit_unat: "bit (unat (w :: 'a::len word)) n \<longleftrightarrow> bit w n"
  by (simp add: bit_unsigned_iff)

lemma stream_bit0: "(s :: u64) AND 1 = (if even (unat s) then 0 else 1)"
  using bit_unat [of s 0] by (simp add: and_one_eq mod_2_eq_odd bit_0)

lemma stream_bit1: "(s :: u64) AND 2 = 0 \<longleftrightarrow> even (unat s div 2)"
  using and_exp_eq_0_iff_not_bit [of s 1] bit_unat [of s 1] bit_iff_odd [of "unat s" 1] by simp

lemma peer_initiated_parity: "peer_initiated server s \<longleftrightarrow> even (unat s) = server"
  by (simp add: peer_initiated_def stream_bit0)

lemma is_bidi_parity: "is_bidi s \<longleftrightarrow> even (unat s div 2)"
  by (simp add: is_bidi_def stream_bit1)

section \<open>The entry of one connection over a run\<close>

lemma run_callbacks_Cons [simp]:
  "run_callbacks (cb # cbs) self = run_callbacks cbs (handle_callback cb self)"
  by (simp add: run_callbacks_def)

lemma run_callbacks_Nil [simp]: "run_callbacks [] self = self"
  by (simp add: run_callbacks_def)

lemma run_callbacks_append: "run_callbacks (xs @ ys) self = run_callbacks ys (run_callbacks xs self)"
  by (simp add: run_callbacks_def)

definition created_in :: "u64 \<Rightarrow> tquic_callback list \<Rightarrow> bool" where
  "created_in i cbs \<longleftrightarrow> (\<exists>cb \<in> set cbs. is_created cb \<and> callback_id cb = i)"

lemma run_callbacks_entry:
  "conn_states (handle self) i = Some cn \<Longrightarrow> \<not> created_in i cbs
   \<Longrightarrow> conn_states (handle (run_callbacks cbs self)) i
       = Some (fold entry_step (filter (\<lambda>cb. callback_id cb = i) cbs) cn)"
proof (induction cbs arbitrary: self cn)
  case (Cons cb cbs)
  then have "\<not> created_in i cbs" by (simp add: created_in_def)
  with Cons show ?case
    by (auto simp: handle_callback_entry created_in_def)
qed simp

interpretation callbacks_keep: preserved handle_callback
  "\<lambda>self. conn_states (handle self) i \<noteq> None" for i
  by unfold_locales (auto simp: handle_callback_entry)

text \<open>No callback removes the entry of a connection.\<close>

lemma run_callbacks_dom:
  "conn_states (handle self) i \<noteq> None \<Longrightarrow> conn_states (handle (run_callbacks cbs self)) i \<noteq> None"
  unfolding run_callbacks_def by (rule callbacks_keep.run_inv)

section \<open>Accept queues\<close>

fun opened_by :: "tquic_callback \<Rightarrow> u64 list" where
  "opened_by (OnStreamCreated conn s) = [s]"
| "opened_by _ = []"

definition streams_opened :: "u64 \<Rightarrow> tquic_callback list \<Rightarrow> u64 list" where
  "streams_opened i cbs = concat (map opened_by (filter (\<lambda>cb. callback_id cb = i) cbs))"

lemma stream_created_accept:
  "accept_bi_tx (stream_created s cn)
     = accept_bi_tx cn @ filter (\<lambda>s. peer_initiated (cn_is_server cn) s \<and> is_bidi s) [s]"
  "accept_uni_tx (stream_created s cn)
     = accept_uni_tx cn @ filter (\<lambda>s. peer_initiated (cn_is_server cn) s \<and> \<not> is_bidi s) [s]"
  "cn_is_server (stream_created s cn) = cn_is_server cn"
  by (auto simp: stream_created_def Let_def)

lemma entry_step_accept:
  assumes "\<not> is_created cb"
  shows "accept_bi_tx (entry_step cb cn)
      = accept_bi_tx cn @ filter (\<lambda>s. peer_initiated (cn_is_server cn) s \<and> is_bidi s) (opened_by cb)"
    and "accept_uni_tx (entry_step cb cn)
      = accept_uni_tx cn @ filter (\<lambda>s. peer_initiated (cn_is_server cn) s \<and> \<not> is_bidi s) (opened_by cb)"
    and "cn_is_server (entry_step cb cn) = cn_is_server cn"
  using assms
  by (cases cb; simp add: is_created_def stream_created_accept stream_became_readable_def
      stream_became_writable_def stream_was_closed_def Let_def)+

lemma entry_run_accept:
  "\<forall>cb \<in> set cbs. \<not> is_created cb \<Longrightarrow>
   accept_bi_tx (fold entry_step cbs cn) = accept_bi_tx cn
     @ filter (\<lambda>s. peer_initiated (cn_is_server cn) s \<and> is_bidi s) (concat (map opened_by cbs))
   \<and> accept_uni_tx (fold entry_step cbs cn) = accept_uni_tx cn
     @ filter (\<lambda>s. peer_initiated (cn_is_server cn) s \<and> \<not> is_bidi s) (concat (map opened_by cbs))"
  by (induction cbs arbitrary: cn) (simp_all add: entry_step_accept)

lemma entry_step_registered:
  assumes "\<not> is_created cb"
  shows "dom (stream_readable cn) \<union> set (opened_by cb) \<subseteq> dom (stream_readable (entry_step cb cn))"
    and "dom (stream_writable cn) \<union> set (opened_by cb) \<subseteq> dom (stream_writable (entry_step cb cn))"
  using assms
  by (cases cb; auto simp: is_created_def stream_created_def stream_became_readable_def
      stream_became_writable_def stream_was_closed_def Let_def notify_entry_apply
      readable.lookup_create writable.lookup_create)+

lemma entry_run_registered:
  assumes "\<forall>cb \<in> set cbs. \<not> is_created cb"
  shows "dom (stream_readable cn) \<union> set (concat (map opened_by cbs))
      \<subseteq> dom (stream_readable (fold entry_step cbs cn))
    \<and> dom (stream_writable cn) \<union> set (concat (map opened_by cbs))
      \<subseteq> dom (stream_writable (fold entry_step cbs cn))"
  using assms
proof (induction cbs arbitrary: cn)
  case (Cons cb cbs)
  from Cons.prems have "\<not> is_created cb" and rest: "\<forall>cb \<in> set cbs. \<not> is_created cb" by simp_all
  note step = entry_step_registered [OF this(1), of cn]
  note IH = Cons.IH [OF rest, of "entry_step cb cn"]
  have concat: "set (concat (map opened_by (cb # cbs))) = set (opened_by cb) \<union> set (concat (map opened_by cbs))"
    by simp
  from step IH show ?case
    unfolding concat fold_Cons comp_apply by blast
qed simp

section \<open>Notifications of streams\<close>

text \<open>The calls made so far on the notifications of a stream; none if it has no entry.\<close>

definition readable_log :: "u64 \<Rightarrow> ConnNotify \<Rightarrow> Notify" where
  "readable_log s cn = (case stream_readable cn s of Some n \<Rightarrow> n | None \<Rightarrow> [])"

definition writable_log :: "u64 \<Rightarrow> ConnNotify \<Rightarrow> Notify" where
  "writable_log s cn = (case stream_writable cn s of Some n \<Rightarrow> n | None \<Rightarrow> [])"

lemma get_or_create_log [simp]:
  "readable_log s (get_or_create_readable t cn) = readable_log s cn"
  "writable_log s (get_or_create_writable t cn) = writable_log s cn"
  "readable_log s (get_or_create_writable t cn) = readable_log s cn"
  "writable_log s (get_or_create_readable t cn) = writable_log s cn"
  by (simp_all add: readable_log_def writable_log_def readable.lookup_create writable.lookup_create)

lemma get_or_create_Some:
  "stream_readable (get_or_create_readable s cn) s = Some (readable_log s cn)"
  "stream_writable (get_or_create_writable s cn) s = Some (writable_log s cn)"
  using readable.create_present [of s cn] writable.create_present [of s cn]
    get_or_create_log(1) [of s s cn] get_or_create_log(2) [of s s cn]
  unfolding readable_log_def writable_log_def by (auto split: option.splits)

definition log_grows :: "bool \<Rightarrow> Notify \<Rightarrow> Notify \<Rightarrow> bool" where
  "log_grows notified old new \<longleftrightarrow> (\<exists>calls. new = old @ calls \<and> (notified \<longrightarrow> NotifyOne \<in> set calls))"

lemma log_grows_refl [simp]: "log_grows False n n"
  by (simp add: log_grows_def)

lemma log_grows_trans: "log_grows a x y \<Longrightarrow> log_grows b y z \<Longrightarrow> log_grows (a \<or> b) x z"
  by (auto simp: log_grows_def)

lemma log_grows_notify:
  "log_grows (t = s) (case m s of Some n \<Rightarrow> n | None \<Rightarrow> []) (case notify_entry t (or_insert t m) s of Some n \<Rightarrow> n | None \<Rightarrow> [])"
  "log_grows False (case m s of Some n \<Rightarrow> n | None \<Rightarrow> []) (case notify_entry t m s of Some n \<Rightarrow> n | None \<Rightarrow> [])"
  by (auto simp: log_grows_def notify_entry_apply or_insert_apply notify_one_def split: option.split)

lemma entry_step_log:
  assumes "\<not> is_created cb"
  shows "log_grows (\<exists>conn. cb = OnStreamReadable conn s) (readable_log s cn) (readable_log s (entry_step cb cn))"
    and "log_grows (\<exists>conn. cb = OnStreamWritable conn s) (writable_log s cn) (writable_log s (entry_step cb cn))"
proof -
  note grow = log_grows_notify [where s = s and m = "stream_readable cn"]
    log_grows_notify [where s = s and m = "stream_writable cn"]
  show "log_grows (\<exists>conn. cb = OnStreamReadable conn s) (readable_log s cn) (readable_log s (entry_step cb cn))"
    using assms grow
    by (cases cb) (simp_all add: is_created_def readable_log_def stream_created_def stream_became_readable_def
        stream_became_writable_def stream_was_closed_def get_or_create_readable_def get_or_create_writable_def
        or_insert_apply Let_def)
  show "log_grows (\<exists>conn. cb = OnStreamWritable conn s) (writable_log s cn) (writable_log s (entry_step cb cn))"
    using assms grow
    by (cases cb) (simp_all add: is_created_def writable_log_def stream_created_def stream_became_readable_def
        stream_became_writable_def stream_was_closed_def get_or_create_readable_def get_or_create_writable_def
        or_insert_apply Let_def)
qed

lemma entry_run_log:
  assumes "\<forall>cb \<in> set cbs. \<not> is_created cb"
  shows "log_grows (\<exists>conn. OnStreamReadable conn s \<in> set cbs) (readable_log s cn) (readable_log s (fold entry_step cbs cn))
    \<and> log_grows (\<exists>conn. OnStreamWritable conn s \<in> set cbs) (writable_log s cn) (writable_log s (fold entry_step cbs cn))"
  using assms
proof (induction cbs arbitrary: cn)
  case (Cons cb cbs)
  from Cons.prems have "\<not> is_created cb" by simp
  note step = entry_step_log [OF this, of s cn]
  have "\<forall>cb \<in> set cbs. \<not> is_created cb" using Cons.prems by simp
  note IH = Cons.IH [OF this, of "entry_step cb cn"]
  have split: "(\<exists>conn. C conn \<in> set (cb # cbs)) \<longleftrightarrow> (\<exists>conn. cb = C conn) \<or> (\<exists>conn. C conn \<in> set cbs)"
    for C :: "tquic_Connection \<Rightarrow> tquic_callback" by auto
  show ?case
    using log_grows_trans [OF step(1) IH [THEN conjunct1]] log_grows_trans [OF step(2) IH [THEN conjunct2]]
    unfolding split [of "\<lambda>conn. OnStreamReadable conn s"] split [of "\<lambda>conn. OnStreamWritable conn s"]
    by simp
qed simp

section \<open>The connection counter\<close>

text \<open>
  The connections that are alive after a run, and the protocol TQUIC follows: an index is created
  only while it is not alive, and closed only while it is.
\<close>

definition live_step :: "tquic_callback \<Rightarrow> u64 set \<Rightarrow> u64 set" where
  "live_step cb L =
     (if is_created cb then insert (callback_id cb) L
      else if is_closed cb then L - {callback_id cb} else L)"

fun lifecycle :: "tquic_callback list \<Rightarrow> u64 set \<Rightarrow> bool" where
  "lifecycle [] L = True"
| "lifecycle (cb # cbs) L =
     ((is_created cb \<longrightarrow> callback_id cb \<notin> L) \<and> (is_closed cb \<longrightarrow> callback_id cb \<in> L)
      \<and> lifecycle cbs (live_step cb L))"

lemma card_live_step: "card (live_step cb L) \<le> Suc (card L)"
proof -
  have "card (L - {x}) \<le> card L" for x by (rule card_mono) auto
  then show ?thesis
    by (auto simp: live_step_def card_insert_if intro: le_SucI)
qed

lemma open_connections_step:
  assumes "open_connections (handle self) = of_nat (card L)"
    and "is_created cb \<Longrightarrow> callback_id cb \<notin> L" and "is_closed cb \<Longrightarrow> callback_id cb \<in> L"
  shows "open_connections (handle (handle_callback cb self)) = of_nat (card (live_step cb L))"
proof -
  consider (created) "is_created cb" | (closed) "\<not> is_created cb" "is_closed cb"
    | (other) "\<not> is_created cb" "\<not> is_closed cb" by blast
  then show ?thesis
  proof cases
    case created
    with assms show ?thesis by (simp add: handle_callback_open live_step_def)
  next
    case closed
    then have "card L = Suc (card (L - {callback_id cb}))"
      using card.remove [OF _ assms(3)] by simp
    with closed assms(1) show ?thesis by (simp add: handle_callback_open live_step_def)
  next
    case other
    with assms(1) show ?thesis by (simp add: handle_callback_open live_step_def)
  qed
qed

lemma open_connections_run:
  "open_connections (handle self) = of_nat (card L) \<Longrightarrow> lifecycle cbs L
   \<Longrightarrow> open_connections (handle (run_callbacks cbs self)) = of_nat (card (fold live_step cbs L))"
  by (induction cbs arbitrary: self L) (auto simp: open_connections_step)

lemma card_live_run: "card (fold live_step cbs L) \<le> card L + length cbs"
proof (induction cbs arbitrary: L)
  case (Cons cb cbs)
  from Cons [of "live_step cb L"] card_live_step [of cb L] show ?case by simp
qed simp

lemma idle_notify_closed:
  "idle_notify (handle (on_conn_closed conn self)) =
     (if open_connections (handle self) = 1 then idle_notify (handle self) @ [NotifyWaiters]
      else idle_notify (handle self))"
  by (simp add: on_conn_closed_def Let_def notify_waiters_def)

section \<open>Properties\<close>

text \<open>
  A client-side connection as the handler sees it, used by the witnesses: index 7, peer at
  10.0.0.1 port 4433.
\<close>

definition sample_conn :: "u64 \<Rightarrow> tquic_Connection" where
  "sample_conn i =
     \<lparr>conn_index = Some i, active_path_remote = Ok (V4 167772161 4433), conn_is_server = False,
      peer_error = None, local_error = None, is_idle_timeout = False,
      is_handshake_timeout = False, is_reset = False\<rparr>"

definition sample_handler :: BridgeTransportHandler where
  "sample_handler = \<lparr>handle = BridgeHandle_new addr_unspecified, is_server = False, incoming_tx = []\<rparr>"

declare sample_conn_def [sample_simps] sample_handler_def [sample_simps]
  BridgeHandle_new_def [sample_simps] ConnNotify_new_def [sample_simps]

lemma sample_conn_id [simp]: "callback_conn_id (sample_conn i) = i"
  by (simp add: callback_conn_id_def sample_conn_def)

text \<open>
  C14: over any run of callbacks that follows TQUIC's connection life cycle, starting with no
  connection, \<open>open_connections\<close> is the number of connections created and not yet closed: it
  never wraps, and waiters for idleness are notified on the close that leaves no connection, and
  on no other.
\<close>

theorem open_connections_counts:
  assumes "open_connections (handle self) = 0" and "lifecycle cbs {}" and "length cbs < 2 ^ 64"
  shows "unat (open_connections (handle (run_callbacks cbs self))) = card (fold live_step cbs {})
    \<and> (callback_conn_id conn \<in> fold live_step cbs {} \<longrightarrow>
        idle_notify (handle (run_callbacks (cbs @ [OnConnClosed conn]) self))
        = idle_notify (handle (run_callbacks cbs self))
          @ (if fold live_step cbs {} = {callback_conn_id conn} then [NotifyWaiters] else []))"
proof -
  let ?L = "fold live_step cbs {}" and ?h = "handle (run_callbacks cbs self)"
  have bound: "card ?L < 2 ^ 64" using card_live_run [of cbs "{}"] assms(3) by simp
  have eq: "open_connections ?h = of_nat (card ?L)"
    using assms open_connections_run [of self "{}" cbs] by simp
  then have count: "unat (open_connections ?h) = card ?L"
    using bound by (simp add: unat_of_nat)
  moreover have "open_connections ?h = 1 \<longleftrightarrow> card ?L = 1"
    using count by (simp add: word_unat_eq_iff)
  moreover have "callback_conn_id conn \<in> ?L \<Longrightarrow> card ?L = 1 \<longleftrightarrow> ?L = {callback_conn_id conn}"
    by (auto simp: card_1_singleton_iff)
  ultimately show ?thesis
    by (auto simp: run_callbacks_append idle_notify_closed)
qed

theorem open_connections_counts_witness:
  "unat (open_connections (handle (run_callbacks
     [OnConnCreated (sample_conn 7), OnConnCreated (sample_conn 8), OnConnClosed (sample_conn 7)]
     sample_handler))) = card {8 :: u64}
   \<and> idle_notify (handle (run_callbacks
     ([OnConnCreated (sample_conn 7), OnConnCreated (sample_conn 8), OnConnClosed (sample_conn 7)]
      @ [OnConnClosed (sample_conn 8)]) sample_handler)) = [NotifyWaiters]"
proof -
  let ?cbs = "[OnConnCreated (sample_conn 7), OnConnCreated (sample_conn 8), OnConnClosed (sample_conn 7)]"
  have live: "fold live_step ?cbs {} = {8}"
    by (auto simp: live_step_def is_created_def is_closed_def)
  have life: "lifecycle ?cbs {}"
    by (simp add: live_step_def is_created_def is_closed_def)
  have idle: "idle_notify (handle (run_callbacks ?cbs sample_handler)) = []"
    by (simp add: on_conn_created_def on_conn_closed_def sample_handler_def BridgeHandle_new_def Let_def)
  have "open_connections (handle sample_handler) = 0"
    by (simp add: sample_handler_def BridgeHandle_new_def)
  from open_connections_counts [OF this life, of "sample_conn 8"] show ?thesis
    unfolding live idle by simp
qed

text \<open>
  C13: every stream the peer opens is queued exactly once and in the order of its creation for
  the accept call of its direction, and no stream opened locally ever is: over any run that does
  not recreate connection \<open>i\<close>, what is added to its bidirectional queue are the identifiers of the
  opened streams whose parity is the peer's and whose bit 1 is clear, to the unidirectional queue
  those with bit 1 set; and all opened streams have both notification entries.
\<close>

theorem accept_queues_in_order:
  assumes "conn_states (handle self) i = Some cn" and "\<not> created_in i cbs"
  shows "\<exists>cn'. conn_states (handle (run_callbacks cbs self)) i = Some cn'
    \<and> accept_bi_tx cn' = accept_bi_tx cn
        @ filter (\<lambda>s. even (unat s) = cn_is_server cn \<and> even (unat s div 2)) (streams_opened i cbs)
    \<and> accept_uni_tx cn' = accept_uni_tx cn
        @ filter (\<lambda>s. even (unat s) = cn_is_server cn \<and> odd (unat s div 2)) (streams_opened i cbs)
    \<and> set (streams_opened i cbs) \<subseteq> dom (stream_readable cn') \<inter> dom (stream_writable cn')"
proof -
  let ?cbs = "filter (\<lambda>cb. callback_id cb = i) cbs"
  have none: "\<forall>cb \<in> set ?cbs. \<not> is_created cb"
    using assms(2) by (auto simp: created_in_def)
  show ?thesis
    using run_callbacks_entry [OF assms] entry_run_accept [OF none, of cn]
      entry_run_registered [OF none, of cn]
    by (simp add: streams_opened_def peer_initiated_parity is_bidi_parity)
qed

theorem accept_queues_in_order_witness:
  "\<exists>cn'. conn_states (handle (run_callbacks
       [OnStreamCreated (sample_conn 7) 1, OnStreamCreated (sample_conn 7) 0,
        OnStreamCreated (sample_conn 7) 3, OnStreamCreated (sample_conn 7) 5]
       (on_conn_created (sample_conn 7) sample_handler))) 7 = Some cn'
     \<and> accept_bi_tx cn' = [1, 5] \<and> accept_uni_tx cn' = [3]"
proof -
  let ?cbs = "[OnStreamCreated (sample_conn 7) 1, OnStreamCreated (sample_conn 7) 0,
        OnStreamCreated (sample_conn 7) 3, OnStreamCreated (sample_conn 7) 5]"
  let ?cn = "ConnNotify_new (V4 167772161 4433)"
  have "conn_states (handle (on_conn_created (sample_conn 7) sample_handler)) 7 = Some ?cn"
    by (simp add: handler_simps sample_simps callback_conn_id_def)
  moreover have "\<not> created_in 7 ?cbs" by (simp add: created_in_def is_created_def)
  ultimately have "\<exists>cn'. conn_states (handle (run_callbacks ?cbs
        (on_conn_created (sample_conn 7) sample_handler))) 7 = Some cn'
      \<and> accept_bi_tx cn' = accept_bi_tx ?cn
        @ filter (\<lambda>s. even (unat s) = cn_is_server ?cn \<and> even (unat s div 2)) (streams_opened 7 ?cbs)
      \<and> accept_uni_tx cn' = accept_uni_tx ?cn
        @ filter (\<lambda>s. even (unat s) = cn_is_server ?cn \<and> odd (unat s div 2)) (streams_opened 7 ?cbs)"
    using accept_queues_in_order by blast
  then show ?thesis
    by (simp add: streams_opened_def ConnNotify_new_def)
qed

lemma entry_step_closed_tx:
  "\<not> is_created cb \<Longrightarrow> \<not> is_closed cb \<Longrightarrow> closed_tx (entry_step cb cn) = closed_tx cn"
  by (cases cb) (simp_all add: is_created_def is_closed_def stream_created_def Let_def
      stream_became_readable_def stream_became_writable_def stream_was_closed_def)

lemma entry_run_closed_tx:
  "\<forall>cb \<in> set cbs. \<not> is_created cb \<and> \<not> is_closed cb
   \<Longrightarrow> closed_tx (fold entry_step cbs cn) = closed_tx cn"
  by (induction cbs arbitrary: cn) (simp_all add: entry_step_closed_tx)

text \<open>
  C20: the reason of a close is recorded with the right priority and stays readable. After
  \<open>on_conn_closed\<close>, and any further callbacks that neither close nor recreate the connection, the
  connection's entry still exists and its \<open>closed\<close> watch holds: the error the peer sent, if it sent
  one (kind, code and reason unchanged); else the local error; else \<open>TimedOut\<close> after an idle or
  handshake timeout; else \<open>Reset\<close> after a stateless reset; else \<open>LocallyClosed\<close>.
\<close>

theorem close_reason_recorded:
  assumes "watch_law borrow"
    and "conn_states (handle self) (callback_conn_id conn) = Some cn"
    and "\<forall>cb \<in> set cbs. callback_id cb = callback_conn_id conn \<longrightarrow> \<not> is_created cb \<and> \<not> is_closed cb"
  shows "\<exists>cn' reason.
      conn_states (handle (run_callbacks cbs (on_conn_closed conn self))) (callback_conn_id conn) = Some cn'
    \<and> borrow (closed_tx cn') = Some reason
    \<and> (case (peer_error conn, local_error conn) of
         (Some e, _) \<Rightarrow> close_of reason = Some e
       | (None, Some e) \<Rightarrow> close_of reason = Some e
       | (None, None) \<Rightarrow>
           reason = (if is_idle_timeout conn \<or> is_handshake_timeout conn then TimedOut
                     else if is_reset conn then Reset else LocallyClosed))"
proof -
  let ?i = "callback_conn_id conn" and ?s = "on_conn_closed conn self"
  let ?cn = "entry_step (OnConnClosed conn) cn"
  have entry: "conn_states (handle ?s) ?i = Some ?cn"
    using assms(2) handle_callback_entry [of "OnConnClosed conn" self ?i] by (simp add: is_created_def)
  have "\<not> created_in ?i cbs" using assms(3) by (auto simp: created_in_def)
  note run = run_callbacks_entry [OF entry this]
  have "closed_tx (fold entry_step (filter (\<lambda>cb. callback_id cb = ?i) cbs) ?cn) = closed_tx ?cn"
    using assms(3) by (intro entry_run_closed_tx) auto
  then have "borrow (closed_tx (fold entry_step (filter (\<lambda>cb. callback_id cb = ?i) cbs) ?cn)) = close_error conn"
    using assms(1) by simp
  with run show ?thesis
    by (auto simp: close_error_def close_of_from_tquic_conn_error split: option.splits)
qed

theorem close_reason_recorded_witness:
  "\<exists>cn'. conn_states (handle (run_callbacks [OnStreamClosed (sample_conn 7) 4]
       (on_conn_closed ((sample_conn 7)\<lparr>peer_error := Some \<lparr>is_app = True, ce_error_code = 42, ce_reason = []\<rparr>,
                                      is_idle_timeout := True\<rparr>)
         (on_conn_created (sample_conn 7) sample_handler)))) 7 = Some cn'
     \<and> last (closed_tx cn') = Some (ApplicationClosed 42 [])"
proof -
  let ?c = "(sample_conn 7)\<lparr>peer_error := Some \<lparr>is_app = True, ce_error_code = 42, ce_reason = []\<rparr>,
                          is_idle_timeout := True\<rparr>"
  let ?s = "on_conn_created (sample_conn 7) sample_handler"
  have id: "callback_conn_id ?c = 7" by (simp add: callback_conn_id_def sample_conn_def)
  have "conn_states (handle ?s) (callback_conn_id ?c) = Some (ConnNotify_new (V4 167772161 4433))"
    by (simp add: handler_simps sample_simps callback_conn_id_def)
  from close_reason_recorded [OF watch_law_last this, of "[OnStreamClosed (sample_conn 7) 4]"]
  obtain cn' reason where "conn_states (handle (run_callbacks [OnStreamClosed (sample_conn 7) 4]
       (on_conn_closed ?c ?s))) 7 = Some cn'" "last (closed_tx cn') = Some reason"
    "close_of reason = Some \<lparr>is_app = True, ce_error_code = 42, ce_reason = []\<rparr>"
    unfolding id by (auto simp: is_created_def is_closed_def)
  then show ?thesis by (cases reason) auto
qed

lemma notify_one_fun: "notify_one = (\<lambda>n. n @ [NotifyOne])"
  by (simp add: fun_eq_iff notify_one_def)

text \<open>
  No notification of a stream is lost. A task that found no data (or no room) and is about to
  wait finds the notification of its stream in the table with every call that was made on it: if
  TQUIC reported the stream readable (writable) at any time since, also before the task created
  the entry and whatever else happened, a \<open>notify_one\<close> is recorded there for it.
\<close>

lemma stream_wakeup_kept:
  assumes "conn_states (handle self) i = Some cn" and "\<not> created_in i cbs" and "callback_conn_id conn = i"
  shows "\<exists>r w.
      conn_states (with_conn i (get_or_create_readable s) (handle (run_callbacks cbs self))) i = Some r
    \<and> conn_states (with_conn i (get_or_create_writable s) (handle (run_callbacks cbs self))) i = Some w
    \<and> (OnStreamReadable conn s \<in> set cbs \<longrightarrow>
        (\<exists>calls. stream_readable r s = Some (readable_log s cn @ calls) \<and> NotifyOne \<in> set calls))
    \<and> (OnStreamWritable conn s \<in> set cbs \<longrightarrow>
        (\<exists>calls. stream_writable w s = Some (writable_log s cn @ calls) \<and> NotifyOne \<in> set calls))"
proof -
  let ?cbs = "filter (\<lambda>cb. callback_id cb = i) cbs"
  let ?cn = "fold entry_step ?cbs cn"
  have none: "\<forall>cb \<in> set ?cbs. \<not> is_created cb" using assms(2) by (auto simp: created_in_def)
  have "OnStreamReadable conn s \<in> set cbs \<Longrightarrow> \<exists>conn. OnStreamReadable conn s \<in> set ?cbs"
    "OnStreamWritable conn s \<in> set cbs \<Longrightarrow> \<exists>conn. OnStreamWritable conn s \<in> set ?cbs"
    using assms(3) by auto
  with entry_run_log [OF none, of s cn] run_callbacks_entry [OF assms(1,2)] show ?thesis
    by (auto simp: log_grows_def get_or_create_Some)
qed

text \<open>
  A readability callback for a stream of a known connection leaves exactly one more
  \<open>notify_one\<close> on that stream's readable notifier, creating it when the stream was unknown, so the
  permit is there even when nobody waits yet; a close of the stream notifies the reader and the
  writer that are registered; and neither touches another stream, another connection, or the
  connection's state.
\<close>

lemma stream_notifications:
  assumes "conn_states (handle self) (callback_conn_id conn) = Some cn"
  shows "\<exists>r c.
      conn_states (handle (on_stream_readable conn s self)) = (conn_states (handle self))(callback_conn_id conn \<mapsto> r)
    \<and> stream_readable r = (stream_readable cn)
        (s \<mapsto> (case stream_readable cn s of None \<Rightarrow> [] | Some n \<Rightarrow> n) @ [NotifyOne])
    \<and> r = cn\<lparr>stream_readable := stream_readable r\<rparr>
    \<and> conn_states (handle (on_stream_closed conn s self)) = (conn_states (handle self))(callback_conn_id conn \<mapsto> c)
    \<and> stream_readable c = (\<lambda>i. if i = s then map_option (\<lambda>n. n @ [NotifyOne]) (stream_readable cn s)
                             else stream_readable cn i)
    \<and> stream_writable c = (\<lambda>i. if i = s then map_option (\<lambda>n. n @ [NotifyOne]) (stream_writable cn s)
                             else stream_writable cn i)
    \<and> c = cn\<lparr>stream_readable := stream_readable c, stream_writable := stream_writable c\<rparr>"
proof (intro exI conjI)
  show "conn_states (handle (on_stream_readable conn s self))
      = (conn_states (handle self))(callback_conn_id conn \<mapsto> stream_became_readable s cn)"
    and "conn_states (handle (on_stream_closed conn s self))
      = (conn_states (handle self))(callback_conn_id conn \<mapsto> stream_was_closed s cn)"
    using assms by (auto simp: on_stream_readable_def on_stream_closed_def fun_eq_iff)
qed (auto simp: stream_became_readable_def stream_was_closed_def get_or_create_readable_def Let_def
    fun_eq_iff notify_entry_apply or_insert_apply notify_one_fun split: option.splits)

text \<open>
  On an endpoint with a server configuration, every connection TQUIC creates is announced to
  \<open>accept\<close>, once and in order, with the remote address of its entry; on a client endpoint none is.
  The rule looks at the endpoint and not at the connection: a connection this endpoint opened
  itself (\<open>conn_is_server\<close> is false) is announced as an incoming one too.
\<close>

lemma incoming_announced:
  "incoming_tx (run_callbacks cbs self) =
     incoming_tx self
     @ (if is_server self
        then map (\<lambda>cb. \<lparr>in_conn_id = callback_id cb, in_remote_addr =
               (case active_path_remote (callback_conn cb) of Ok addr \<Rightarrow> addr | Err _ \<Rightarrow> addr_unspecified)\<rparr>)
             (filter is_created cbs)
        else [])"
proof (induction cbs arbitrary: self)
  case (Cons cb cbs)
  have "is_created cb \<Longrightarrow> cn_remote_addr (entry_step cb (ConnNotify_new addr_unspecified))
      = (case active_path_remote (callback_conn cb) of Ok addr \<Rightarrow> addr | Err _ \<Rightarrow> addr_unspecified)"
    by (cases cb) (simp_all add: is_created_def ConnNotify_new_def)
  with Cons show ?case by (simp add: handle_callback_incoming)
qed simp

fun all_sent :: "'w try_send \<Rightarrow> (bytes \<times> PacketInfo) list \<Rightarrow> 'w \<Rightarrow> 'w option" where
  "all_sent try_send_to [] w = Some w"
| "all_sent try_send_to ((pkt, info) # pkts) w =
     (case try_send_to w pkt (pi_dst info) of
        (SendOk _, w') \<Rightarrow> all_sent try_send_to pkts w'
      | _ \<Rightarrow> None)"

definition try_packet :: "'w try_send \<Rightarrow> bytes \<times> PacketInfo \<Rightarrow> 'w \<Rightarrow> send_outcome \<times> 'w" where
  "try_packet try_send_to p w = try_send_to w (fst p) (pi_dst (snd p))"

lemma send_loop_sent:
  "\<exists>k w1. all_sent t (take k pkts) w = Some w1 \<and> k \<le> length pkts
     \<and> (k = length pkts \<and> send_loop t pkts c w = (Ok (c + k), w1)
      \<or> k < length pkts \<and> (\<exists>w'. try_packet t (pkts ! k) w1 = (WouldBlock, w')
          \<and> send_loop t pkts c w = (Ok (c + k), w'))
      \<or> k < length pkts \<and> (\<exists>e w'. try_packet t (pkts ! k) w1 = (SendFailed e, w')
          \<and> send_loop t pkts c w = (Err (IoError (''send_to: '' @ e)), w')))"
proof (induction pkts arbitrary: c w)
  case (Cons p pkts)
  obtain pkt info where p: "p = (pkt, info)" by (cases p)
  obtain r w' where r: "t w pkt (pi_dst info) = (r, w')" by (cases "t w pkt (pi_dst info)")
  show ?case
  proof (cases r)
    case (SendOk n)
    from Cons.IH [of w' "Suc c"] show ?thesis
    proof (elim exE)
      fix k w1
      assume "all_sent t (take k pkts) w' = Some w1 \<and> k \<le> length pkts
     \<and> (k = length pkts \<and> send_loop t pkts (Suc c) w' = (Ok (Suc c + k), w1)
      \<or> k < length pkts \<and> (\<exists>w''. try_packet t (pkts ! k) w1 = (WouldBlock, w'')
          \<and> send_loop t pkts (Suc c) w' = (Ok (Suc c + k), w''))
      \<or> k < length pkts \<and> (\<exists>e w''. try_packet t (pkts ! k) w1 = (SendFailed e, w'')
          \<and> send_loop t pkts (Suc c) w' = (Err (IoError (''send_to: '' @ e)), w'')))"
      then show ?thesis
        by (intro exI [of _ "Suc k"] exI [of _ w1]) (auto simp: p r SendOk)
    qed
  next
    case WouldBlock
    then show ?thesis
      by (intro exI [of _ 0] exI [of _ w]) (simp add: p r try_packet_def)
  next
    case (SendFailed e)
    then show ?thesis
      by (intro exI [of _ 0] exI [of _ w]) (simp add: p r try_packet_def)
  qed
qed simp

text \<open>
  \<open>on_packets_send\<close> reports what was sent. With a socket, \<open>Ok(n)\<close> means that the first \<open>n\<close>
  packets were handed to it in order, each successfully, and that \<open>n\<close> is all of them or the next
  one would have blocked and nothing after it was tried; an error means that the packets before
  the failing one had been sent. Without a socket nothing is sent.
\<close>

lemma packets_sent:
  "on_packets_send t None pkts = (Err Done, None)
   \<and> (\<exists>n w1. all_sent t (take n pkts) w = Some w1 \<and> n \<le> length pkts
      \<and> (n = length pkts \<and> on_packets_send t (Some w) pkts = (Ok n, Some w1)
       \<or> n < length pkts \<and> (\<exists>w'. try_packet t (pkts ! n) w1 = (WouldBlock, w')
           \<and> on_packets_send t (Some w) pkts = (Ok n, Some w'))
       \<or> n < length pkts \<and> (\<exists>e w'. try_packet t (pkts ! n) w1 = (SendFailed e, w')
           \<and> on_packets_send t (Some w) pkts = (Err (IoError (''send_to: '' @ e)), Some w'))))"
proof -
  obtain n w1 where "all_sent t (take n pkts) w = Some w1" "n \<le> length pkts"
    and "n = length pkts \<and> send_loop t pkts 0 w = (Ok n, w1)
      \<or> n < length pkts \<and> (\<exists>w'. try_packet t (pkts ! n) w1 = (WouldBlock, w')
          \<and> send_loop t pkts 0 w = (Ok n, w'))
      \<or> n < length pkts \<and> (\<exists>e w'. try_packet t (pkts ! n) w1 = (SendFailed e, w')
          \<and> send_loop t pkts 0 w = (Err (IoError (''send_to: '' @ e)), w'))"
    using send_loop_sent [of t pkts w 0] unfolding add_0 by blast
  then show ?thesis
    by (intro conjI exI [of _ n] exI [of _ w1]) (auto simp: on_packets_send_def)
qed

end
