(* ===== verification/Commands_Props.thy ===== *)
theory Commands_Props
  imports Commands Handler_Props
begin

text \<open>
  Properties of command processing: every request gets exactly one answer of its own type,
  requests about a connection TQUIC no longer knows fail without side effects, reads and writes
  report TQUIC's outcome, connection attempts use the right configuration, and closing the
  endpoint closes every known connection.
\<close>

section \<open>Requests and their answers\<close>

fun responder_of :: "BridgeCommand \<Rightarrow> responder option" where
  "responder_of (Connect _ _ _ r) = Some r"
| "responder_of (OpenBiStream _ r) = Some r"
| "responder_of (OpenUniStream _ r) = Some r"
| "responder_of (StreamWrite _ _ _ _ r) = Some r"
| "responder_of (StreamRead _ _ _ r) = Some r"
| "responder_of (GetRtt _ r) = Some r"
| "responder_of (AddPath _ _ _ r) = Some r"
| "responder_of (AbandonPath _ _ _ r) = Some r"
| "responder_of (MigratePath _ _ _ r) = Some r"
| "responder_of (GetPathStats _ _ _ r) = Some r"
| "responder_of (GetPaths _ r) = Some r"
| "responder_of _ = None"

datatype answer_type = AConnect | AOpen | AWrite | ARead | ARtt | APath | AStats | APaths

fun expected_type :: "BridgeCommand \<Rightarrow> answer_type option" where
  "expected_type (Connect _ _ _ _) = Some AConnect"
| "expected_type (OpenBiStream _ _) = Some AOpen"
| "expected_type (OpenUniStream _ _) = Some AOpen"
| "expected_type (StreamWrite _ _ _ _ _) = Some AWrite"
| "expected_type (StreamRead _ _ _ _) = Some ARead"
| "expected_type (GetRtt _ _) = Some ARtt"
| "expected_type (AddPath _ _ _ _) = Some APath"
| "expected_type (AbandonPath _ _ _ _) = Some APath"
| "expected_type (MigratePath _ _ _ _) = Some APath"
| "expected_type (GetPathStats _ _ _ _) = Some AStats"
| "expected_type (GetPaths _ _) = Some APaths"
| "expected_type _ = None"

fun response_type :: "response \<Rightarrow> answer_type" where
  "response_type (RespConnect _) = AConnect"
| "response_type (RespOpen _) = AOpen"
| "response_type (RespWrite _) = AWrite"
| "response_type (RespRead _) = ARead"
| "response_type (RespRtt _) = ARtt"
| "response_type (RespPath _) = APath"
| "response_type (RespStats _) = AStats"
| "response_type (RespPaths _) = APaths"

definition answers :: "BridgeCommand \<Rightarrow> response \<Rightarrow> bool" where
  "answers cmd x \<longleftrightarrow> expected_type cmd = Some (response_type x)"

fun conn_of :: "BridgeCommand \<Rightarrow> u64 option" where
  "conn_of (RefuseIncoming i) = Some i"
| "conn_of (CloseConnection i _ _) = Some i"
| "conn_of (OpenBiStream i _) = Some i"
| "conn_of (OpenUniStream i _) = Some i"
| "conn_of (StreamWrite i _ _ _ _) = Some i"
| "conn_of (StreamRead i _ _ _) = Some i"
| "conn_of (StreamShutdownRead i _ _) = Some i"
| "conn_of (StreamShutdownWrite i _ _) = Some i"
| "conn_of (StreamSetPriority i _ _) = Some i"
| "conn_of (GetRtt i _) = Some i"
| "conn_of (AddPath i _ _ _) = Some i"
| "conn_of (AbandonPath i _ _ _) = Some i"
| "conn_of (MigratePath i _ _ _) = Some i"
| "conn_of (GetPathStats i _ _ _) = Some i"
| "conn_of (GetPaths i _) = Some i"
| "conn_of _ = None"

text \<open>The answer a request gets when its connection is gone.\<close>

definition lost_answer :: "response \<Rightarrow> bool" where
  "lost_answer x \<longleftrightarrow>
     x \<in> {RespOpen (Err LocallyClosed), RespWrite (Err (WriteConnectionLost LocallyClosed)),
          RespRead (Err (ReadConnectionLost LocallyClosed)), RespRtt None,
          RespPath (Err LocallyClosed), RespStats (Err LocallyClosed), RespPaths (Err LocallyClosed)}"

lemma responses_respond [simp]: "responses (respond r x b) = responses b @ [(r, x)]"
  by (simp add: respond_def)

lemma respond_frame [simp]:
  "endpoint (respond r x b) = endpoint b" "handler (respond r x b) = handler b"
  "current_client_config (respond r x b) = current_client_config b"
  by (simp_all add: respond_def)

lemma after_call_frame [simp]:
  "responses (after_call c b) = responses b"
  "current_client_config (after_call c b) = current_client_config b"
  "endpoint (after_call c b) = snd c" "handler (after_call c b) = run_callbacks (fst c) (handler b)"
  by (simp_all add: after_call_def)

lemma on_conn_frame [simp]:
  "responses (on_conn api i f b) = responses b"
  "current_client_config (on_conn api i f b) = current_client_config b"
  "handler (on_conn api i f b) = handler b"
  by (simp_all add: on_conn_def)

lemma on_conn_unknown: "\<not> conn_get api i (endpoint b) \<Longrightarrow> on_conn api i f b = b"
  by (simp add: on_conn_def)

lemma query_conn_unknown: "\<not> conn_get api i (endpoint b) \<Longrightarrow> query_conn api i r f ok u b = respond r u b"
  by (simp add: query_conn_def)

lemma query_conn_known:
  "conn_get api i (endpoint b) \<Longrightarrow> f (endpoint b) = (x, q)
   \<Longrightarrow> query_conn api i r f ok u b = respond r (ok x) (b\<lparr>endpoint := q\<rparr>)"
  by (simp add: query_conn_def)

lemma query_conn_frame [simp]:
  "current_client_config (query_conn api i r f ok u b) = current_client_config b"
  "handler (query_conn api i r f ok u b) = handler b"
  by (simp_all add: query_conn_def split: prod.split)

lemma query_conn_answer:
  "(\<And>x. P (ok x)) \<Longrightarrow> P u \<Longrightarrow>
   \<exists>x. responses (query_conn api i r f ok u b) = responses b @ [(r, x)] \<and> P x"
  by (simp add: query_conn_def split: prod.split)

lemma process_connect_answer:
  "\<exists>res. responses (process_connect api ec l a n cc r b) = responses b @ [(r, RespConnect res)]"
  by (simp add: process_connect_def call_connect_def split: option.split result.split prod.split)

section \<open>A small TQUIC\<close>

text \<open>
  An endpoint that knows a list of connections and remembers which were closed and with what
  code; a stream read returns the stored bytes, a write accepts four bytes at a time. It
  instantiates the parameter in the witnesses.
\<close>

record sample_endpoint =
  se_conns :: "u64 list"
  se_closed :: "(u64 \<times> u64) list"
  se_data :: bytes

definition sample_read :: "nat \<Rightarrow> sample_endpoint
    \<Rightarrow> (tquic_Error, nat \<times> bool) result \<times> (nat \<Rightarrow> u8) \<times> sample_endpoint" where
  "sample_read max_len q =
     (let data = take max_len (se_data q) in
      (Ok (length data, length data = length (se_data q)),
       (\<lambda>i. if i < length data then data ! i else 0),
       q\<lparr>se_data := drop max_len (se_data q)\<rparr>))"

definition sample_api :: "(bool, nat \<rightharpoonup> tquic_setter, sample_endpoint) tquic_api" where
  "sample_api =
     \<lparr>config_api = recording_api,
      ep_new = (\<lambda>cfg server. \<lparr>se_conns = [], se_closed = [], se_data = []\<rparr>),
      ep_timeout = (\<lambda>q. None),
      ep_connect = (\<lambda>l a n s t c q.
        (Ok (of_nat (length (se_conns q))), [OnConnCreated (sample_conn (of_nat (length (se_conns q))))],
         q\<lparr>se_conns := se_conns q @ [of_nat (length (se_conns q))]\<rparr>)),
      ep_close = (\<lambda>force q. ([], q)),
      ep_recv = (\<lambda>data info q. (Ok (), [], q)),
      ep_on_timeout = (\<lambda>q. ([], q)),
      ep_process_connections = (\<lambda>q. (Ok (), map (\<lambda>(i, c). OnConnClosed (sample_conn i)) (se_closed q),
        q\<lparr>se_closed := [], se_conns := filter (\<lambda>i. i \<notin> fst ` set (se_closed q)) (se_conns q)\<rparr>)),
      conn_get = (\<lambda>i q. i \<in> set (se_conns q)),
      conn_close = (\<lambda>i app code reason q. (Ok (), q\<lparr>se_closed := se_closed q @ [(i, code)]\<rparr>)),
      stream_bidi_new = (\<lambda>i u inc q. (Ok 0, q)),
      stream_uni_new = (\<lambda>i u inc q. (Ok 2, q)),
      stream_write = (\<lambda>i s data fin q. (if data = [] \<and> \<not> fin then Err Done else Ok (min 4 (length data)), q)),
      stream_read = (\<lambda>i s max_len q. sample_read max_len q),
      stream_shutdown = (\<lambda>i s d code q. (Ok (), q)),
      stream_set_priority = (\<lambda>i s u inc q. (Ok (), q)),
      paths_iter = (\<lambda>i q. []),
      get_path_stats = (\<lambda>i l r q. (Err Done, q)),
      add_path = (\<lambda>i l r q. (Ok 1, q)),
      abandon_path = (\<lambda>i l r q. (Ok (), q)),
      migrate_path = (\<lambda>i l r q. (Ok (), q))\<rparr>"

definition sample_bridge :: "sample_endpoint Bridge" where
  "sample_bridge =
     \<lparr>endpoint = \<lparr>se_conns = [5, 7], se_closed = [], se_data = [1, 2, 3]\<rparr>,
      handler = sample_handler, current_client_config = None, responses = []\<rparr>"

section \<open>Properties\<close>

text \<open>
  No request is left without an answer and none is answered twice: a command that carries a
  response channel sends exactly one value on it, of the type it asks for; any other sends none.
\<close>

lemma process_command_answers:
  "case responder_of cmd of
     Some r \<Rightarrow> \<exists>x. responses (process_command api iter ec l cmd b) = responses b @ [(r, x)] \<and> answers cmd x
   | None \<Rightarrow> responses (process_command api iter ec l cmd b) = responses b"
proof (cases cmd)
  case (Connect a n cc r)
  then show ?thesis using process_connect_answer [of api ec l a n cc r b] by (auto simp: answers_def)
next
  case (CloseEndpoint code reason)
  then show ?thesis by (simp add: process_close_endpoint_def Let_def)
qed (auto intro!: query_conn_answer simp: open_result_def answers_def)

text \<open>
  A command about a connection TQUIC does not know any more changes nothing: neither the
  endpoint nor the shared state nor the default configuration; and if it is a request it is
  answered with \<open>LocallyClosed\<close> (wrapped in the error type of the request; no RTT for \<open>GetRtt\<close>).
\<close>

lemma unknown_connection:
  assumes "conn_of cmd = Some i" and "\<not> conn_get api i (endpoint b)"
  shows "case responder_of cmd of
     Some r \<Rightarrow> \<exists>x. process_command api iter ec l cmd b = respond r x b \<and> answers cmd x \<and> lost_answer x
   | None \<Rightarrow> process_command api iter ec l cmd b = b"
  using assms
  by (cases cmd) (auto simp: on_conn_unknown query_conn_unknown lost_answer_def answers_def)

lemma unat_truncated_code: "unat (varint_into_inner (varint_from_u32 (ucast (code :: u64)))) = unat code mod 2 ^ 32"
  by (simp add: varint_from_u32_def unsigned_ucast_eq take_bit_eq_mod unat_mod)

lemma length_read_result: "read_result n x = Ok (data, fin) \<Longrightarrow> length data \<le> n"
  by (auto simp: read_result_def Let_def split: result.splits tquic_Error.splits prod.splits)

text \<open>
  A \<open>StreamRead\<close> reports what TQUIC did. The data is the front of the buffer TQUIC filled, as
  long as TQUIC said but never longer than the buffer the caller has (so copying it out cannot
  overrun); no data and no error means TQUIC had nothing to read; a reset carries the low 32 bits
  of the peer's code; every other failure is \<open>ClosedStream\<close>.
\<close>

lemma stream_read_answer:
  assumes "conn_get api i (endpoint b)" and "stream_read api i s n (endpoint b) = (res, buf, q)"
  shows "\<exists>x. process_command api iter ec l (StreamRead i s n r) b
      = respond r (RespRead x) (b\<lparr>endpoint := q\<rparr>)
    \<and> (case x of
         Ok (data, fin) \<Rightarrow> length data \<le> n \<and>
           (res = Err Done \<and> data = [] \<and> \<not> fin \<or> (\<exists>m. res = Ok (m, fin) \<and> data = map buf [0 ..< min m n]))
       | Err (ReadReset v) \<Rightarrow>
           (\<exists>code. res = Err (StreamReset code) \<and> unat (varint_into_inner v) = unat code mod 2 ^ 32)
       | Err e \<Rightarrow> e = ReadClosedStream
           \<and> (\<exists>te. res = Err te \<and> te \<noteq> Done \<and> (\<forall>code. te \<noteq> StreamReset code)))"
proof -
  let ?x = "read_result n (res, buf)"
  have "process_command api iter ec l (StreamRead i s n r) b = respond r (RespRead ?x) (b\<lparr>endpoint := q\<rparr>)"
    using assms by (simp add: query_conn_known)
  moreover have "take m (map buf [0 ..< n]) = map buf [0 ..< min m n]" for m
    by (simp add: take_map take_upt min_def)
  ultimately show ?thesis
    by (intro exI [of _ ?x])
      (auto simp: read_result_def Let_def unat_truncated_code split: result.split tquic_Error.split)
qed

text \<open>
  C26: a \<open>StreamWrite\<close> reports what TQUIC did: the number of bytes taken, 0 when TQUIC had no
  capacity, the low 32 bits of the peer's code when the peer stopped the stream, and \<open>ClosedStream\<close>
  for every other failure. The reported stop code is the peer's exactly when that fits 32 bits.
\<close>

theorem stream_write_answer:
  assumes "conn_get api i (endpoint b)" and "stream_write api i s data fin (endpoint b) = (res, q)"
  shows "\<exists>x. process_command api iter ec l (StreamWrite i s data fin r) b
      = respond r (RespWrite x) (b\<lparr>endpoint := q\<rparr>)
    \<and> (case x of
         Ok k \<Rightarrow> res = Ok k \<or> res = Err Done \<and> k = 0
       | Err (Stopped v) \<Rightarrow> (\<exists>code. res = Err (StreamStopped code)
           \<and> unat (varint_into_inner v) = unat code mod 2 ^ 32
           \<and> (varint_into_inner v = code \<longleftrightarrow> unat code < 2 ^ 32))
       | Err e \<Rightarrow> e = WriteClosedStream
           \<and> (\<exists>te. res = Err te \<and> te \<noteq> Done \<and> (\<forall>code. te \<noteq> StreamStopped code)))"
proof -
  let ?x = "write_result res"
  have "process_command api iter ec l (StreamWrite i s data fin r) b
      = respond r (RespWrite ?x) (b\<lparr>endpoint := q\<rparr>)"
    using assms by (simp add: query_conn_known)
  moreover have "varint_into_inner (varint_from_u32 (ucast code)) = code \<longleftrightarrow> unat code < 2 ^ 32"
    for code :: u64
    using unat_truncated_code [of code]
    by (metis mod_less mod_less_divisor word_unat_eq_iff zero_less_numeral zero_less_power)
  ultimately show ?thesis
    by (intro exI [of _ ?x])
      (auto simp: write_result_def unat_truncated_code split: result.split tquic_Error.split)
qed

theorem stream_write_answer_witness:
  "\<exists>q. process_command sample_api (\<lambda>m. []) EndpointConfig_default addr_unspecified
      (StreamWrite 7 0 [1, 2, 3, 4, 5] False 3) sample_bridge
     = respond 3 (RespWrite (Ok 4)) (sample_bridge\<lparr>endpoint := q\<rparr>)"
proof -
  have "conn_get sample_api 7 (endpoint sample_bridge)"
    and "stream_write sample_api 7 0 [1, 2, 3, 4, 5] False (endpoint sample_bridge) = (Ok 4, endpoint sample_bridge)"
    by (simp_all add: sample_api_def sample_bridge_def)
  from stream_write_answer [OF this, of "\<lambda>m. []" EndpointConfig_default addr_unspecified 3]
  show ?thesis
  proof (elim exE conjE, goal_cases)
    case (1 x)
    from 1(2) have "x = Ok 4" by (cases x) (auto split: WriteError.splits)
    with 1(1) show ?case by blast
  qed
qed

text \<open>
  C27: a connection attempt uses the configuration given with it, else the default client
  configuration, else the endpoint's own; TQUIC is called only when that configuration could be
  built, and then with it. The answer is TQUIC's connection index, or \<open>EndpointStopping\<close>, or
  \<open>InvalidDnsName\<close> with the text of the failure; in particular a missing default configuration is
  not an error and \<open>NoDefaultClientConfig\<close> is never answered.
\<close>

theorem connect_uses_config:
  "\<exists>res. responses (process_connect api ec l addr name client_config r b) = responses b @ [(r, RespConnect res)]
    \<and> (case res of Ok i \<Rightarrow> True | Err e \<Rightarrow> e = EndpointStopping \<or> (\<exists>s. e = InvalidDnsName s))
    \<and> (case or_else client_config (current_client_config b) of
         None \<Rightarrow> \<exists>tq. res = map_err connect_error tq
           \<and> ep_connect api l addr (Some name) None None None (endpoint b)
             = (tq, fst (snd (ep_connect api l addr (Some name) None None None (endpoint b))),
                endpoint (process_connect api ec l addr name client_config r b))
       | Some cc \<Rightarrow>
           (case bind_result (build_client_tls_config (config_api api) cc)
                  (\<lambda>tls. build_tquic_config (config_api api) ec (cc_transport cc) tls None) of
              Err e \<Rightarrow> res = Err e
                \<and> process_connect api ec l addr name client_config r b = respond r (RespConnect (Err e)) b
            | Ok cfg \<Rightarrow> \<exists>tq. res = map_err connect_error tq
                \<and> ep_connect api l addr (Some name) None None (Some cfg) (endpoint b)
                  = (tq, fst (snd (ep_connect api l addr (Some name) None None (Some cfg) (endpoint b))),
                     endpoint (process_connect api ec l addr name client_config r b))))"
proof -
  have tls: "build_client_tls_config (config_api api) cc = Err e \<Longrightarrow> \<exists>s. e = InvalidDnsName s" for cc e
    by (auto simp: build_client_tls_config_def Let_def map_err_eq_Err bind_result_eq_Err
        split: option.splits)
  have cfg: "build_tquic_config (config_api api) ec t tls None = Err e \<Longrightarrow> \<exists>s. e = InvalidDnsName s" for t tls e
    by (auto simp: build_tquic_config_def map_err_eq_Err)
  have conn: "case map_err connect_error tq of Ok i \<Rightarrow> True
      | Err e \<Rightarrow> e = EndpointStopping \<or> (\<exists>s. e = InvalidDnsName s)" for tq :: "(tquic_Error, u64) result"
    by (cases tq) (simp_all add: connect_error_def split: tquic_Error.split)
  show ?thesis
  proof (cases "or_else client_config (current_client_config b)")
    case None
    with conn show ?thesis by (auto simp: process_connect_def call_connect_def split: prod.split)
  next
    case (Some cc)
    let ?built = "bind_result (build_client_tls_config (config_api api) cc)
      (\<lambda>tls. build_tquic_config (config_api api) ec (cc_transport cc) tls None)"
    show ?thesis
    proof (cases ?built)
      case (Err e)
      then have "\<exists>s. e = InvalidDnsName s" using tls cfg by (auto simp: bind_result_eq_Err)
      with Some Err show ?thesis
        by (auto simp: process_connect_def bind_result_eq_Err)
    next
      case (Ok cfg)
      with Some conn show ?thesis
        by (auto simp: process_connect_def call_connect_def bind_result_eq_Ok split: prod.split)
    qed
  qed
qed

text \<open>
  Setting the default client configuration and then connecting without one does exactly
  what connecting with that configuration does: same TQUIC calls, same callbacks, same answer.
\<close>

lemma default_client_config:
  "process_command api iter ec l (Connect addr name None r)
     (process_command api iter ec l (SetDefaultClientConfig cc) b)
   = (process_command api iter ec l (Connect addr name (Some cc) r) b)\<lparr>current_client_config := Some cc\<rparr>"
  by (simp add: process_connect_def call_connect_def respond_def after_call_def
      split: result.split prod.split)

lemma close_all_closes:
  assumes closes: "\<And>i q. closing i (snd (conn_close api i True code reason q))"
    and keeps: "\<And>i j q. closing j q \<Longrightarrow> closing j (snd (conn_close api i True code reason q))"
    and get: "\<And>i j q. conn_get api j (snd (conn_close api i True code reason q)) = conn_get api j q"
  shows "\<forall>i. closing i q \<or> i \<in> set ids \<and> conn_get api i q \<longrightarrow> closing i (close_all api code reason ids q)"
proof (induction ids arbitrary: q)
  case (Cons a ids)
  let ?q = "if conn_get api a q then snd (conn_close api a True code reason q) else q"
  have "close_all api code reason (a # ids) q = close_all api code reason ids ?q"
    by (simp add: close_all_def)
  with Cons.IH [of ?q] show ?case by (auto simp: closes keeps get)
qed (simp add: close_all_def)

text \<open>
  C28: closing the endpoint marks it closed for the API and closes every connection that is in the
  table and known to TQUIC, with the application's code and reason, before the TQUIC endpoint
  itself is closed (not forced) and its callbacks are handled. What is assumed of TQUIC: closing
  a connection starts its close, does not undo another one's and does not make one disappear; of
  the table: an iteration meets every key.
\<close>

theorem close_endpoint_closes_all:
  assumes "\<And>i q. closing i (snd (conn_close api i True code reason q))"
    and "\<And>i j q. closing j q \<Longrightarrow> closing j (snd (conn_close api i True code reason q))"
    and "\<And>i j q. conn_get api j (snd (conn_close api i True code reason q)) = conn_get api j q"
    and "set (iter (conn_states (handle (handler b)))) = dom (conn_states (handle (handler b)))"
  shows "\<exists>q cbs q'.
      (\<forall>i \<in> dom (conn_states (handle (handler b))). conn_get api i (endpoint b) \<longrightarrow> closing i q)
    \<and> ep_close api False q = (cbs, q')
    \<and> process_command api iter ec l (CloseEndpoint code reason) b
      = b\<lparr>endpoint := q', handler := run_callbacks cbs
            ((handler b)\<lparr>handle := (handle (handler b))\<lparr>endpoint_closed := True\<rparr>\<rparr>)\<rparr>
    \<and> endpoint_closed (handle (handler (process_command api iter ec l (CloseEndpoint code reason) b)))"
proof -
  let ?q = "close_all api code reason (iter (conn_states (handle (handler b)))) (endpoint b)"
  have "\<forall>i \<in> dom (conn_states (handle (handler b))). conn_get api i (endpoint b) \<longrightarrow> closing i ?q"
    using close_all_closes [of closing api code reason "endpoint b", OF assms(1-3)] assms(4) by blast
  moreover have "endpoint_closed (handle (run_callbacks cbs s)) = endpoint_closed (handle s)" for cbs s
    by (induction cbs arbitrary: s) simp_all
  ultimately show ?thesis
    by (intro exI [of _ ?q] exI [of _ "fst (ep_close api False ?q)"] exI [of _ "snd (ep_close api False ?q)"])
      (simp add: process_close_endpoint_def after_call_def Let_def)
qed

theorem close_endpoint_closes_all_witness:
  "endpoint_closed (handle (handler (process_command sample_api (\<lambda>m. [7 :: u64]) EndpointConfig_default
     addr_unspecified (CloseEndpoint 3 [])
     (sample_bridge\<lparr>handler := on_conn_created (sample_conn 7) sample_handler\<rparr>))))"
proof -
  let ?b = "sample_bridge\<lparr>handler := on_conn_created (sample_conn 7) sample_handler\<rparr>"
  let ?closing = "\<lambda>i q. (i, 3) \<in> set (se_closed q)"
  have "set [7 :: u64] = dom (conn_states (handle (handler ?b)))"
    by (auto simp: on_conn_created_def sample_handler_def BridgeHandle_new_def Let_def)
  moreover have "?closing i (snd (conn_close sample_api i True 3 [] q))" for i q
    by (simp add: sample_api_def)
  moreover have "?closing j q \<Longrightarrow> ?closing j (snd (conn_close sample_api i True 3 [] q))" for i j q
    by (simp add: sample_api_def)
  moreover have "conn_get sample_api j (snd (conn_close sample_api i True 3 [] q)) = conn_get sample_api j q"
    for i j q by (simp add: sample_api_def)
  ultimately show ?thesis
    using close_endpoint_closes_all [of ?closing sample_api 3 "[]" "\<lambda>m. [7]" ?b EndpointConfig_default
        addr_unspecified] by blast
qed

end
