(* ===== verification/Async.thy ===== *)
theory Async
  imports Commands_Props
begin

text \<open>
  How the \<open>async\<close> functions of the API are modelled. A task runs without interruption between two
  suspension points; at each \<open>.await\<close> it gives the processor away. What the rest of the program
  does meanwhile, and what the await returns, is the environment's choice: a task carries the list
  of the awaits that will complete, each with its result, with what the close \<open>watch\<close> of the
  connection it refers to holds at that moment, and with what others did to the shared handle. A
  task whose list is used up is suspended. So a theorem about a task speaks about every schedule
  and every behaviour of the TQUIC thread, of the peer and of the other tasks.
\<close>

section \<open>Outcome of running a task\<close>

text \<open>
  \<open>Suspended h\<close>: the task waits, having left the shared handle as \<open>h\<close>, so that the request it waits for
  is the last command of \<open>h\<close>. \<open>Panicked\<close> is a Rust panic, here that of a slice operation out of
  bounds.
\<close>

datatype 'a run = Suspended BridgeHandle | Panicked | Finished 'a

fun and_then :: "'a run \<Rightarrow> ('a \<Rightarrow> 'b run) \<Rightarrow> 'b run" where
  "and_then (Suspended h) f = Suspended h"
| "and_then Panicked f = Panicked"
| "and_then (Finished a) f = f a"

lemma and_then_cong [fundef_cong]:
  "m = m' \<Longrightarrow> (\<And>a. m' = Finished a \<Longrightarrow> f a = g a) \<Longrightarrow> and_then m f = and_then m' g"
  by (cases m') auto

lemma and_then_Finished: "and_then m f = Finished b \<longleftrightarrow> (\<exists>a. m = Finished a \<and> f a = Finished b)"
  by (cases m) auto

lemma and_then_Panicked: "and_then m f = Panicked \<longleftrightarrow> m = Panicked \<or> (\<exists>a. m = Finished a \<and> f a = Panicked)"
  by (cases m) auto

section \<open>Tasks\<close>

datatype await_result =
    Answered "response option"
  | Notified
  | Locked
  | Received "u64 option"
  | Changed bool
  | Arrived "IncomingData option"
  | FileRead bytes "(string, bytes) result"

text \<open>
  \<open>Answered None\<close>: the sender of the oneshot channel was dropped. \<open>Received\<close>: the receiving branch
  of a \<open>select!\<close> fired. \<open>Changed\<close>: \<open>changed()\<close> returned, with \<open>False\<close> when the sender is gone.
  \<open>Arrived\<close>: the channel of the incoming connections had a value, or was closed. \<open>FileRead\<close>: the file
  with this path was read, or reading it failed with this text (used by an example program).
\<close>

record event =
  outcome :: await_result
  held_watch :: closed_watch
  others :: "BridgeHandle \<Rightarrow> BridgeHandle"

record task =
  shared :: BridgeHandle
  next_tx :: responder
  env :: "event list"

definition await :: "task \<Rightarrow> (await_result \<times> closed_watch \<times> task) run" where
  "await t =
     (case env t of
        [] \<Rightarrow> Suspended (shared t)
      | ev # evs \<Rightarrow>
          Finished (outcome ev, held_watch ev, t\<lparr>shared := others ev (shared t), env := evs\<rparr>))"

text \<open>\<open>let (tx, rx) = oneshot::channel(); handle.send_cmd(..)\<close>\<close>

definition send_request :: "(responder \<Rightarrow> BridgeCommand) \<Rightarrow> task \<Rightarrow> task" where
  "send_request request t =
     t\<lparr>shared := send_cmd (request (next_tx t)) (shared t), next_tx := Suc (next_tx t)\<rparr>"

text \<open>
  \<open>rx.await\<close> on a oneshot channel whose values \<open>prj\<close> recognises; an outcome of another kind is not
  one this await can have.
\<close>

definition await_answer :: "(response \<Rightarrow> 'a option) \<Rightarrow> task \<Rightarrow> ((unit, 'a) result \<times> task) run" where
  "await_answer prj t = and_then (await t) (\<lambda>(r, w, t).
     case r of
       Answered None \<Rightarrow> Finished (Err (), t)
     | Answered (Some x) \<Rightarrow>
         (case prj x of Some a \<Rightarrow> Finished (Ok a, t) | None \<Rightarrow> Suspended (shared t))
     | _ \<Rightarrow> Suspended (shared t))"

definition await_notified :: "task \<Rightarrow> (closed_watch \<times> task) run" where
  "await_notified t = and_then (await t) (\<lambda>(r, w, t).
     case r of Notified \<Rightarrow> Finished (w, t) | _ \<Rightarrow> Suspended (shared t))"

fun read_response :: "response \<Rightarrow> (ReadError, bytes \<times> bool) result option" where
  "read_response (RespRead x) = Some x"
| "read_response _ = None"

fun write_response :: "response \<Rightarrow> (WriteError, nat) result option" where
  "write_response (RespWrite x) = Some x"
| "write_response _ = None"

section \<open>Laws\<close>

lemma await_not_panicked [simp]: "await t \<noteq> Panicked"
  by (simp add: await_def split: list.split)

lemma await_answer_not_panicked [simp]: "await_answer prj t \<noteq> Panicked"
  by (auto simp: await_answer_def and_then_Panicked split: await_result.splits option.splits)

lemma await_notified_not_panicked [simp]: "await_notified t \<noteq> Panicked"
  by (auto simp: await_notified_def and_then_Panicked split: await_result.splits)

text \<open>Each await consumes one event: this is why loops that await in every round end.\<close>

lemma await_answer_env: "await_answer prj t = Finished (r, t') \<Longrightarrow> length (env t') < length (env t)"
  by (cases "env t") (auto simp: await_answer_def await_def split: await_result.split_asm option.split_asm)

lemma await_notified_env: "await_notified t = Finished (w, t') \<Longrightarrow> length (env t') < length (env t)"
  by (cases "env t") (auto simp: await_notified_def await_def split: await_result.split_asm)

lemma send_request_env [simp]: "env (send_request c t) = env t"
  by (simp add: send_request_def)

lemma shared_send_request [simp]: "shared (send_request c t) = send_cmd (c (next_tx t)) (shared t)"
  by (simp add: send_request_def)

lemma next_send_request [simp]: "next_tx (send_request c t) = Suc (next_tx t)"
  by (simp add: send_request_def)

lemma await_answer_Some:
  "env t = ev # evs \<Longrightarrow> outcome ev = Answered (Some x) \<Longrightarrow> prj x = Some a
   \<Longrightarrow> await_answer prj t = Finished (Ok a, t\<lparr>shared := others ev (shared t), env := evs\<rparr>)"
  by (simp add: await_answer_def await_def)

lemma await_answer_Nil: "env t = [] \<Longrightarrow> await_answer prj t = Suspended (shared t)"
  by (simp add: await_answer_def await_def)

lemma await_notified_Notified:
  "env t = ev # evs \<Longrightarrow> outcome ev = Notified
   \<Longrightarrow> await_notified t = Finished (held_watch ev, t\<lparr>shared := others ev (shared t), env := evs\<rparr>)"
  by (simp add: await_notified_def await_def)

section \<open>An open connection\<close>

text \<open>The connection has an entry and is not closed, as far as \<open>borrow\<close> tells.\<close>

definition conn_open :: "(closed_watch \<Rightarrow> ConnectionError option) \<Rightarrow> u64 \<Rightarrow> BridgeHandle \<Rightarrow> bool" where
  "conn_open borrow i h \<longleftrightarrow> (case get_conn_notify i h of Some cn \<Rightarrow> borrow (closed_tx cn) = None | None \<Rightarrow> False)"

text \<open>What others did left the connection open.\<close>

definition keeps_open :: "(closed_watch \<Rightarrow> ConnectionError option) \<Rightarrow> u64 \<Rightarrow> event \<Rightarrow> bool" where
  "keeps_open borrow i ev \<longleftrightarrow> (\<forall>h. conn_open borrow i h \<longrightarrow> conn_open borrow i (others ev h))"

lemma conn_open_send_cmd [simp]: "conn_open borrow i (send_cmd c h) = conn_open borrow i h"
  by (simp add: conn_open_def get_conn_notify_def)

lemma conn_open_with_conn:
  "(\<And>cn. closed_tx (f cn) = closed_tx cn) \<Longrightarrow> conn_open borrow i (with_conn j f h) = conn_open borrow i h"
  by (auto simp: conn_open_def get_conn_notify_def split: option.split)

section \<open>Operations that retry until they have an answer\<close>

text \<open>
  The events of a schedule in which connection \<open>i\<close> stays open: answers to one kind of request, each
  empty one followed by a wake-up. \<open>as\<close> are the answers that are not empty, encoded as outcomes by
  \<open>enc\<close>; \<open>later\<close> are the events after them.
\<close>

inductive delivers ::
    "('a \<Rightarrow> await_result) \<Rightarrow> 'a \<Rightarrow> (closed_watch \<Rightarrow> ConnectionError option) \<Rightarrow> u64 \<Rightarrow> event list
     \<Rightarrow> 'a list \<Rightarrow> event list \<Rightarrow> bool"
  for enc :: "'a \<Rightarrow> await_result" and no_answer :: 'a
    and borrow :: "closed_watch \<Rightarrow> ConnectionError option" and i :: u64 and later :: "event list" where
  nothing: "delivers enc no_answer borrow i later [] later"
| stall: "outcome e1 = enc no_answer \<Longrightarrow> outcome e2 = Notified \<Longrightarrow> borrow (held_watch e2) = None
    \<Longrightarrow> as \<noteq> [] \<Longrightarrow> keeps_open borrow i e1 \<Longrightarrow> keeps_open borrow i e2 \<Longrightarrow> delivers enc no_answer borrow i later as evs
    \<Longrightarrow> delivers enc no_answer borrow i later as (e1 # e2 # evs)"
| answer: "outcome ev = enc a \<Longrightarrow> a \<noteq> no_answer \<Longrightarrow> keeps_open borrow i ev
    \<Longrightarrow> delivers enc no_answer borrow i later as evs \<Longrightarrow> delivers enc no_answer borrow i later (a # as) (ev # evs)"

lemma delivers_not_empty: "delivers enc no_answer borrow i later as evs \<Longrightarrow> as = a # rest \<Longrightarrow> a \<noteq> no_answer"
  by (induction rule: delivers.induct) auto

lemma delivers_done: "delivers enc no_answer borrow i later [] evs \<Longrightarrow> evs = later"
  by (cases rule: delivers.cases) auto

text \<open>
  A loop that sends a request, waits for a notification after an empty answer, and stops at the
  first other one. \<open>RecvStream::read\<close> and \<open>SendStream::write\<close> are such loops.
\<close>

locale retry_loop =
  fixes enc :: "'a \<Rightarrow> await_result"
    and no_answer :: 'a
    and borrow :: "closed_watch \<Rightarrow> ConnectionError option"
    and i :: u64
    and loop :: "task \<Rightarrow> 'r run"
    and fits :: "'a \<Rightarrow> bool"
    and result_of :: "'a \<Rightarrow> task \<Rightarrow> 'r"
  assumes loop_stall:
      "env t = e1 # e2 # evs \<Longrightarrow> outcome e1 = enc no_answer \<Longrightarrow> outcome e2 = Notified
       \<Longrightarrow> borrow (held_watch e2) = None \<Longrightarrow> keeps_open borrow i e1 \<Longrightarrow> keeps_open borrow i e2
       \<Longrightarrow> conn_open borrow i (shared t)
       \<Longrightarrow> \<exists>t'. loop t = loop t' \<and> env t' = evs \<and> conn_open borrow i (shared t')"
    and loop_answer:
      "env t = ev # evs \<Longrightarrow> outcome ev = enc a \<Longrightarrow> a \<noteq> no_answer \<Longrightarrow> fits a
       \<Longrightarrow> keeps_open borrow i ev \<Longrightarrow> conn_open borrow i (shared t)
       \<Longrightarrow> \<exists>t'. loop t = Finished (result_of a t') \<and> env t' = evs \<and> conn_open borrow i (shared t')"
begin

lemma loop_delivers_aux:
  "delivers enc no_answer borrow i later as evs \<Longrightarrow> as = a # rest \<Longrightarrow> env t = evs \<Longrightarrow> conn_open borrow i (shared t)
   \<Longrightarrow> fits a \<Longrightarrow>
   \<exists>t'. loop t = Finished (result_of a t') \<and> conn_open borrow i (shared t')
     \<and> delivers enc no_answer borrow i later rest (env t')"
proof (induction arbitrary: t rule: delivers.induct)
  case (stall e1 e2 as evs)
  from loop_stall [OF stall.prems(2) stall.hyps(1-3,5,6) stall.prems(3)]
  obtain t' where "loop t = loop t'" "env t' = evs" "conn_open borrow i (shared t')" by blast
  with stall.IH [of t'] stall.prems show ?case by simp
next
  case (answer ev a' as evs)
  then have fits: "fits a'" by simp
  from loop_answer [OF answer.prems(2) answer.hyps(1,2) fits answer.hyps(3) answer.prems(3)] answer
  show ?case by auto
qed simp

lemma loop_delivers:
  assumes "delivers enc no_answer borrow i later (a # rest) (env t)" and "conn_open borrow i (shared t)" and "fits a"
  obtains t' where "loop t = Finished (result_of a t')" and "conn_open borrow i (shared t')"
    and "delivers enc no_answer borrow i later rest (env t')"
  using loop_delivers_aux [OF assms(1) refl refl assms(2,3)] by blast

end

end
