(* ===== verification/Send_Stream.thy ===== *)
theory Send_Stream
  imports Async
begin

text \<open>
  \<^verbatim>\<open>src/send_stream.rs\<close>: \<open>SendStream\<close>, its async writes, \<open>finish\<close>, \<open>reset\<close>, \<open>set_priority\<close>, its
  \<open>AsyncWrite\<close> implementation and its \<open>Drop\<close>.
\<close>

record SendStream =
  ss_conn_id :: u64
  ss_stream_id :: u64
  finished :: bool

section \<open>Writing\<close>

definition wait_writable ::
    "(closed_watch \<Rightarrow> ConnectionError option) \<Rightarrow> SendStream \<Rightarrow> task \<Rightarrow> ((WriteError, unit) result \<times> task) run" where
  "wait_writable borrow self t =
     (case get_conn_notify (ss_conn_id self) (shared t) of
        None \<Rightarrow> Finished (Err (WriteConnectionLost LocallyClosed), t)
      | Some cn \<Rightarrow>
          (case borrow (closed_tx cn) of
             Some err \<Rightarrow> Finished (Err (WriteConnectionLost err), t)
           | None \<Rightarrow>
               and_then
                 (await_notified (t\<lparr>shared := with_conn (ss_conn_id self)
                    (get_or_create_writable (ss_stream_id self)) (shared t)\<rparr>))
                 (\<lambda>(closed, t).
                    case borrow closed of
                      Some err \<Rightarrow> Finished (Err (WriteConnectionLost err), t)
                    | None \<Rightarrow> Finished (Ok (), t))))"

lemma wait_writable_env: "wait_writable borrow self t = Finished (r, t') \<Longrightarrow> length (env t') \<le> length (env t)"
  by (auto simp: wait_writable_def and_then_Finished dest!: await_notified_env split: option.splits)

function write_loop ::
    "(closed_watch \<Rightarrow> ConnectionError option) \<Rightarrow> SendStream \<Rightarrow> bytes \<Rightarrow> task
     \<Rightarrow> ((WriteError, nat) result \<times> task) run" where
  "write_loop borrow self buf t =
     and_then
       (await_answer write_response
          (send_request (StreamWrite (ss_conn_id self) (ss_stream_id self) buf False) t))
       (\<lambda>(answer, t).
          case answer of
            Ok (Ok n) \<Rightarrow>
              if n = 0
              then and_then (wait_writable borrow self t) (\<lambda>(r, t).
                     case r of
                       Err e \<Rightarrow> Finished (Err e, t)
                     | Ok _ \<Rightarrow> write_loop borrow self buf t)
              else Finished (Ok n, t)
          | Ok (Err e) \<Rightarrow> Finished (Err e, t)
          | Err _ \<Rightarrow> Finished (Err (WriteConnectionLost LocallyClosed), t))"
  by pat_completeness auto

termination
  by (relation "measure (\<lambda>(_, _, _, t). length (env t))")
    (auto dest!: await_answer_env wait_writable_env)

declare write_loop.simps [simp del]

definition send_write ::
    "(closed_watch \<Rightarrow> ConnectionError option) \<Rightarrow> SendStream \<Rightarrow> bytes \<Rightarrow> task
     \<Rightarrow> ((WriteError, nat) result \<times> task) run" where
  "send_write borrow self buf t =
     (if finished self then Finished (Err WriteClosedStream, t) else write_loop borrow self buf t)"

text \<open>The loop by what its first await returns.\<close>

lemma write_loop_answer:
  assumes "await_answer write_response
      (send_request (StreamWrite (ss_conn_id self) (ss_stream_id self) buf False) t) = Finished (answer, t1)"
  shows "write_loop borrow self buf t =
    (case answer of
       Ok (Ok n) \<Rightarrow>
         if n = 0
         then and_then (wait_writable borrow self t1) (\<lambda>(r, t).
                case r of Err e \<Rightarrow> Finished (Err e, t) | Ok _ \<Rightarrow> write_loop borrow self buf t)
         else Finished (Ok n, t1)
     | Ok (Err e) \<Rightarrow> Finished (Err e, t1)
     | Err _ \<Rightarrow> Finished (Err (WriteConnectionLost LocallyClosed), t1))"
  by (subst write_loop.simps) (simp add: assms split: result.split)

lemma write_loop_env:
  "write_loop borrow self buf t = Finished (r, t') \<Longrightarrow> length (env t') < length (env t)"
proof (induction "length (env t)" arbitrary: t rule: less_induct)
  case less
  from less.prems obtain answer t1 where aw: "await_answer write_response
      (send_request (StreamWrite (ss_conn_id self) (ss_stream_id self) buf False) t) = Finished (answer, t1)"
    by (subst (asm) write_loop.simps) (auto simp: and_then_Finished)
  then have lt: "length (env t1) < length (env t)" using await_answer_env by fastforce
  show ?case
  proof (cases "answer = Ok (Ok 0)")
    case True
    with less.prems obtain w t2 where w: "wait_writable borrow self t1 = Finished (w, t2)"
      by (auto simp: write_loop_answer [OF aw] and_then_Finished)
    with lt have "length (env t2) < length (env t)" using wait_writable_env by fastforce
    with less.prems less.hyps [of t2] True w show ?thesis
      by (cases w) (auto simp: write_loop_answer [OF aw])
  next
    case False
    with less.prems lt show ?thesis
      by (auto simp: write_loop_answer [OF aw] split: result.split_asm if_split_asm)
  qed
qed

lemma write_Ok_env: "send_write borrow self buf t = Finished (Ok n, t') \<Longrightarrow> length (env t') < length (env t)"
  by (auto simp: send_write_def dest: write_loop_env split: if_splits)

text \<open>\<open>&buf[offset..]\<close> panics when \<open>offset\<close> is past the end; the loop condition excludes it.\<close>

function write_all_loop ::
    "(closed_watch \<Rightarrow> ConnectionError option) \<Rightarrow> SendStream \<Rightarrow> nat \<Rightarrow> bytes \<Rightarrow> task
     \<Rightarrow> ((WriteError, unit) result \<times> task) run" where
  "write_all_loop borrow self offset buf t =
     (if offset < length buf
      then and_then (send_write borrow self (drop offset buf) t) (\<lambda>(r, t).
             case r of
               Err e \<Rightarrow> Finished (Err e, t)
             | Ok n \<Rightarrow> write_all_loop borrow self (offset + n) buf t)
      else Finished (Ok (), t))"
  by pat_completeness auto

termination
  by (relation "measure (\<lambda>(_, _, _, _, t). length (env t))") (auto dest: write_Ok_env)

declare write_all_loop.simps [simp del]

definition write_all ::
    "(closed_watch \<Rightarrow> ConnectionError option) \<Rightarrow> SendStream \<Rightarrow> bytes \<Rightarrow> task
     \<Rightarrow> ((WriteError, unit) result \<times> task) run" where
  "write_all borrow self buf t = write_all_loop borrow self 0 buf t"

section \<open>Ending a stream\<close>

text \<open>
  The operations return their result, the commands they send and the new stream. \<open>finish\<close> drops
  the receiver of its answer; \<open>tx\<close> is the responder it creates.
\<close>

definition finish ::
    "responder \<Rightarrow> SendStream \<Rightarrow> (ClosedStream, unit) result \<times> BridgeCommand list \<times> SendStream" where
  "finish tx self =
     (if finished self then (Err ClosedStream, [], self)
      else (Ok (), [StreamWrite (ss_conn_id self) (ss_stream_id self) [] True tx], self\<lparr>finished := True\<rparr>))"

definition reset ::
    "VarInt \<Rightarrow> SendStream \<Rightarrow> (ClosedStream, unit) result \<times> BridgeCommand list \<times> SendStream" where
  "reset error_code self =
     (if finished self then (Err ClosedStream, [], self)
      else (Ok (),
            [StreamShutdownWrite (ss_conn_id self) (ss_stream_id self) (varint_into_inner error_code)],
            self\<lparr>finished := True\<rparr>))"

text \<open>\<open>priority.clamp(0, 255) as u8\<close> on a signed 32-bit number\<close>

definition clamp_urgency :: "i32 \<Rightarrow> u8" where
  "clamp_urgency priority =
     (if sint priority < 0 then 0 else if 255 < sint priority then 255 else ucast priority)"

definition set_priority :: "i32 \<Rightarrow> SendStream \<Rightarrow> (ClosedStream, unit) result \<times> BridgeCommand list" where
  "set_priority priority self =
     (if finished self then (Err ClosedStream, [])
      else (Ok (), [StreamSetPriority (ss_conn_id self) (ss_stream_id self) (clamp_urgency priority)]))"

definition send_id :: "SendStream \<Rightarrow> StreamId" where
  "send_id self = streamid_from_raw (ss_stream_id self)"

definition send_drop :: "responder \<Rightarrow> SendStream \<Rightarrow> BridgeCommand list" where
  "send_drop tx self = (if \<not> finished self then fst (snd (finish tx self)) else [])"

section \<open>AsyncWrite\<close>

text \<open>The errors are of kind \<open>BrokenPipe\<close>; the text is what distinguishes them.\<close>

definition poll_write :: "SendStream \<Rightarrow> bytes \<Rightarrow> task \<Rightarrow> (string, nat) result poll \<times> task" where
  "poll_write self buf t =
     (if finished self then (Ready (Err ''stream finished''), t)
      else (Pending, send_request (StreamWrite (ss_conn_id self) (ss_stream_id self) buf False) t))"

definition poll_write_task :: "SendStream \<Rightarrow> task \<Rightarrow> task run" where
  "poll_write_task self t =
     and_then (await_answer write_response t) (\<lambda>(answer, t).
       case answer of
         Ok (Ok n) \<Rightarrow>
           if n = 0
           then (case get_conn_notify (ss_conn_id self) (shared t) of
                   Some cn \<Rightarrow>
                     and_then (await_notified (t\<lparr>shared := with_conn (ss_conn_id self)
                        (get_or_create_writable (ss_stream_id self)) (shared t)\<rparr>))
                       (\<lambda>(closed, t). Finished t)
                 | None \<Rightarrow> Finished t)
           else Finished t
       | _ \<Rightarrow> Finished t)"

definition poll_flush :: "SendStream \<Rightarrow> (string, unit) result poll" where
  "poll_flush self = Ready (Ok ())"

definition poll_shutdown ::
    "responder \<Rightarrow> SendStream \<Rightarrow> (string, unit) result poll \<times> BridgeCommand list \<times> SendStream" where
  "poll_shutdown tx self =
     (case finish tx self of
        (Ok _, cmds, self) \<Rightarrow> (Ready (Ok ()), cmds, self)
      | (Err _, cmds, self) \<Rightarrow> (Ready (Err ''stream already closed''), cmds, self))"

end
