(* ===== verification/Recv_Stream.thy ===== *)
theory Recv_Stream
  imports Async
begin

text \<open>
  \<^verbatim>\<open>src/recv_stream.rs\<close>: \<open>RecvStream\<close>, its async reads, \<open>stop\<close>, its \<open>AsyncRead\<close> implementation
  and its \<open>Drop\<close>.
\<close>

record RecvStream =
  rs_conn_id :: u64
  rs_stream_id :: u64
  all_data_read :: bool

section \<open>Reading\<close>

text \<open>
  The entry found at the start stays with the waiter: what its close watch holds after the wake-up
  comes with the event, whatever happened to the table of connections.
\<close>

definition wait_readable ::
    "(closed_watch \<Rightarrow> ConnectionError option) \<Rightarrow> RecvStream \<Rightarrow> task \<Rightarrow> ((ReadError, unit) result \<times> task) run" where
  "wait_readable borrow self t =
     (case get_conn_notify (rs_conn_id self) (shared t) of
        None \<Rightarrow> Finished (Err (ReadConnectionLost LocallyClosed), t)
      | Some cn \<Rightarrow>
          (case borrow (closed_tx cn) of
             Some err \<Rightarrow> Finished (Err (ReadConnectionLost err), t)
           | None \<Rightarrow>
               and_then
                 (await_notified (t\<lparr>shared := with_conn (rs_conn_id self)
                    (get_or_create_readable (rs_stream_id self)) (shared t)\<rparr>))
                 (\<lambda>(closed, t).
                    case borrow closed of
                      Some err \<Rightarrow> Finished (Err (ReadConnectionLost err), t)
                    | None \<Rightarrow> Finished (Ok (), t))))"

lemma wait_readable_env: "wait_readable borrow self t = Finished (r, t') \<Longrightarrow> length (env t') \<le> length (env t)"
  by (auto simp: wait_readable_def and_then_Finished dest!: await_notified_env split: option.splits)

text \<open>
  One value of the result per way out of the loop: the return value, the stream, the buffer and
  the task. \<open>buf[..n]\<close> panics when the answer is longer than the buffer.
\<close>

function read_loop ::
    "(closed_watch \<Rightarrow> ConnectionError option) \<Rightarrow> RecvStream \<Rightarrow> bytes \<Rightarrow> task
     \<Rightarrow> ((ReadError, nat option) result \<times> RecvStream \<times> bytes \<times> task) run" where
  "read_loop borrow self buf t =
     and_then
       (await_answer read_response
          (send_request (StreamRead (rs_conn_id self) (rs_stream_id self) (length buf)) t))
       (\<lambda>(answer, t).
          case answer of
            Ok (Ok (data, fin)) \<Rightarrow>
              if data = [] \<and> \<not> fin
              then and_then (wait_readable borrow self t) (\<lambda>(r, t).
                     case r of
                       Err e \<Rightarrow> Finished (Err e, self, buf, t)
                     | Ok _ \<Rightarrow> read_loop borrow self buf t)
              else if length buf < length data then Panicked
              else
                (let buf = write_front data buf in
                 if fin
                 then (let self = self\<lparr>all_data_read := True\<rparr> in
                       if length data = 0 then Finished (Ok None, self, buf, t)
                       else Finished (Ok (Some (length data)), self, buf, t))
                 else Finished (Ok (Some (length data)), self, buf, t))
          | Ok (Err e) \<Rightarrow> Finished (Err e, self, buf, t)
          | Err _ \<Rightarrow> Finished (Err (ReadConnectionLost LocallyClosed), self, buf, t))"
  by pat_completeness auto

termination
  by (relation "measure (\<lambda>(_, _, _, t). length (env t))")
    (auto dest!: await_answer_env wait_readable_env)

declare read_loop.simps [simp del]

definition read ::
    "(closed_watch \<Rightarrow> ConnectionError option) \<Rightarrow> RecvStream \<Rightarrow> bytes \<Rightarrow> task
     \<Rightarrow> ((ReadError, nat option) result \<times> RecvStream \<times> bytes \<times> task) run" where
  "read borrow self buf t =
     (if all_data_read self then Finished (Ok None, self, buf, t) else read_loop borrow self buf t)"

text \<open>The loop by what its first await returns.\<close>

lemma read_loop_answer:
  assumes "await_answer read_response
      (send_request (StreamRead (rs_conn_id self) (rs_stream_id self) (length buf)) t) = Finished (answer, t1)"
  shows "read_loop borrow self buf t =
    (case answer of
       Ok (Ok (data, fin)) \<Rightarrow>
         if data = [] \<and> \<not> fin
         then and_then (wait_readable borrow self t1) (\<lambda>(r, t).
                case r of
                  Err e \<Rightarrow> Finished (Err e, self, buf, t)
                | Ok _ \<Rightarrow> read_loop borrow self buf t)
         else if length buf < length data then Panicked
         else Finished (if fin \<and> data = [] then Ok None else Ok (Some (length data)),
                (if fin then self\<lparr>all_data_read := True\<rparr> else self), write_front data buf, t1)
     | Ok (Err e) \<Rightarrow> Finished (Err e, self, buf, t1)
     | Err _ \<Rightarrow> Finished (Err (ReadConnectionLost LocallyClosed), self, buf, t1))"
  by (subst read_loop.simps) (simp add: assms Let_def split: result.split prod.split)

lemma read_loop_env:
  "read_loop borrow self buf t = Finished (r, self', buf', t') \<Longrightarrow> length (env t') < length (env t)"
proof (induction "length (env t)" arbitrary: t rule: less_induct)
  case less
  from less.prems obtain answer t1 where aw: "await_answer read_response
      (send_request (StreamRead (rs_conn_id self) (rs_stream_id self) (length buf)) t) = Finished (answer, t1)"
    by (subst (asm) read_loop.simps) (auto simp: and_then_Finished)
  then have lt: "length (env t1) < length (env t)" using await_answer_env by fastforce
  show ?case
  proof (cases "answer = Ok (Ok ([], False))")
    case True
    with less.prems obtain w t2 where w: "wait_readable borrow self t1 = Finished (w, t2)"
      by (auto simp: read_loop_answer [OF aw] and_then_Finished)
    with lt have "length (env t2) < length (env t)" using wait_readable_env by fastforce
    with less.prems less.hyps [of t2] True w show ?thesis
      by (cases w) (auto simp: read_loop_answer [OF aw])
  next
    case False
    with less.prems lt show ?thesis
      by (auto simp: read_loop_answer [OF aw] split: result.split_asm if_split_asm)
  qed
qed

lemma read_Some_env:
  "read borrow self buf t = Finished (Ok (Some n), self', buf', t') \<Longrightarrow> length (env t') < length (env t)"
  by (auto simp: read_def dest: read_loop_env split: if_splits)

text \<open>\<open>read(&mut buf[offset..])\<close> changes the buffer from \<open>offset\<close> on.\<close>

function read_exact_loop ::
    "(closed_watch \<Rightarrow> ConnectionError option) \<Rightarrow> RecvStream \<Rightarrow> nat \<Rightarrow> bytes \<Rightarrow> task
     \<Rightarrow> ((ReadExactError, unit) result \<times> RecvStream \<times> bytes \<times> task) run" where
  "read_exact_loop borrow self offset buf t =
     (if offset < length buf
      then and_then (read borrow self (drop offset buf) t) (\<lambda>(r, self, rest, t).
             let buf = take offset buf @ rest in
             case r of
               Ok (Some n) \<Rightarrow> read_exact_loop borrow self (offset + n) buf t
             | Ok None \<Rightarrow> Finished (Err (FinishedEarly offset), self, buf, t)
             | Err e \<Rightarrow> Finished (Err (ExactReadError e), self, buf, t))
      else Finished (Ok (), self, buf, t))"
  by pat_completeness auto

termination
  by (relation "measure (\<lambda>(_, _, _, _, t). length (env t))") (auto dest: read_Some_env)

declare read_exact_loop.simps [simp del]

definition read_exact ::
    "(closed_watch \<Rightarrow> ConnectionError option) \<Rightarrow> RecvStream \<Rightarrow> bytes \<Rightarrow> task
     \<Rightarrow> ((ReadExactError, unit) result \<times> RecvStream \<times> bytes \<times> task) run" where
  "read_exact borrow self buf t = read_exact_loop borrow self 0 buf t"

function read_to_end_loop ::
    "(closed_watch \<Rightarrow> ConnectionError option) \<Rightarrow> nat \<Rightarrow> RecvStream \<Rightarrow> bytes \<Rightarrow> bytes \<Rightarrow> task
     \<Rightarrow> ((ReadToEndError, bytes) result \<times> RecvStream \<times> task) run" where
  "read_to_end_loop borrow size_limit self data buf t =
     and_then (read borrow self buf t) (\<lambda>(r, self, buf, t).
       case r of
         Ok (Some n) \<Rightarrow>
           (let data = data @ take n buf in
            if size_limit < length data then Finished (Err TooLong, self, t)
            else read_to_end_loop borrow size_limit self data buf t)
       | Ok None \<Rightarrow> Finished (Ok data, self, t)
       | Err e \<Rightarrow> Finished (Err (ToEndRead e), self, t))"
  by pat_completeness auto

termination
  by (relation "measure (\<lambda>(_, _, _, _, _, t). length (env t))") (auto dest: read_Some_env)

declare read_to_end_loop.simps [simp del]

definition read_to_end ::
    "(closed_watch \<Rightarrow> ConnectionError option) \<Rightarrow> nat \<Rightarrow> RecvStream \<Rightarrow> task
     \<Rightarrow> ((ReadToEndError, bytes) result \<times> RecvStream \<times> task) run" where
  "read_to_end borrow size_limit self t =
     read_to_end_loop borrow size_limit self [] (replicate 8192 0) t"

section \<open>Closing\<close>

definition stop :: "VarInt \<Rightarrow> RecvStream \<Rightarrow> (ClosedStream, unit) result \<times> BridgeCommand list \<times> RecvStream" where
  "stop error_code self =
     (if all_data_read self then (Err ClosedStream, [], self)
      else (Ok (),
            [StreamShutdownRead (rs_conn_id self) (rs_stream_id self) (varint_into_inner error_code)],
            self\<lparr>all_data_read := True\<rparr>))"

definition recv_id :: "RecvStream \<Rightarrow> StreamId" where
  "recv_id self = streamid_from_raw (rs_stream_id self)"

text \<open>\<open>Drop\<close>: the commands it sends.\<close>

definition recv_drop :: "RecvStream \<Rightarrow> BridgeCommand list" where
  "recv_drop self =
     (if \<not> all_data_read self then fst (snd (stop (varint_from_u32 0) self)) else [])"

section \<open>AsyncRead\<close>

text \<open>
  \<open>poll_read\<close> sends a request and hands the response to a background task: the result of the poll,
  and what it sends. \<open>remaining\<close> is the free room of the caller's \<open>ReadBuf\<close>, which the function does
  not fill.
\<close>

definition poll_read :: "RecvStream \<Rightarrow> nat \<Rightarrow> task \<Rightarrow> (string, unit) result poll \<times> task" where
  "poll_read self remaining t =
     (if all_data_read self then (Ready (Ok ()), t)
      else (Pending, send_request (StreamRead (rs_conn_id self) (rs_stream_id self) remaining) t))"

text \<open>The background task: it ends by waking the poller (\<open>Finished\<close>) and drops what it received.\<close>

definition poll_read_task :: "RecvStream \<Rightarrow> task \<Rightarrow> task run" where
  "poll_read_task self t =
     and_then (await_answer read_response t) (\<lambda>(answer, t).
       case answer of
         Ok (Ok (data, fin)) \<Rightarrow>
           if data = []
           then (case get_conn_notify (rs_conn_id self) (shared t) of
                   Some cn \<Rightarrow>
                     and_then (await_notified (t\<lparr>shared := with_conn (rs_conn_id self)
                        (get_or_create_readable (rs_stream_id self)) (shared t)\<rparr>))
                       (\<lambda>(closed, t). Finished t)
                 | None \<Rightarrow> Finished t)
           else Finished t
       | _ \<Rightarrow> Finished t)"

end
