(* ===== verification/Requests.thy ===== *)
theory Requests
  imports Async
begin

text \<open>
  The answers the TQUIC thread gives to the requests a task sends. A task that waits for an answer
  is suspended with its request as the last command of the channel, so the answer it gets can be
  tied to what it has really asked for. The laws here split this condition along the awaits of a
  composed operation.
\<close>

section \<open>Answers of the thread\<close>

text \<open>The answer the TQUIC thread sends for a request it processes in state \<open>b\<close>.\<close>

definition bridge_answer ::
    "('tls, 'cfg, 'q) tquic_api \<Rightarrow> ((u64 \<rightharpoonup> ConnNotify) \<Rightarrow> u64 list) \<Rightarrow> EndpointConfig \<Rightarrow> SocketAddr
     \<Rightarrow> BridgeCommand \<Rightarrow> 'q Bridge \<Rightarrow> response" where
  "bridge_answer api iter ec l cmd b = snd (last (responses (process_command api iter ec l cmd b)))"

lemma bridge_answer_query:
  assumes "process_command api iter ec l cmd b = query_conn api i r f ok u b"
  shows "bridge_answer api iter ec l cmd b
    = (if conn_get api i (endpoint b) then ok (fst (f (endpoint b))) else u)"
  unfolding bridge_answer_def assms
  by (simp add: query_conn_def split: prod.split)

text \<open>The request a task waits for.\<close>

definition pending_request :: "BridgeHandle \<Rightarrow> BridgeCommand" where
  "pending_request h = last (cmd_tx h)"

lemma pending_send_cmd [simp]: "pending_request (send_cmd c h) = c"
  by (simp add: pending_request_def send_cmd_def)

section \<open>Schedules with answers of the thread\<close>

text \<open>
  In the schedule of \<open>t\<close>, every answer that \<open>run\<close> gets is the thread's answer, in some state of the
  thread, to the request that \<open>run\<close> is waiting for when it gets it.
\<close>

definition served ::
    "('tls, 'cfg, 'q) tquic_api \<Rightarrow> ((u64 \<rightharpoonup> ConnNotify) \<Rightarrow> u64 list) \<Rightarrow> EndpointConfig \<Rightarrow> SocketAddr
     \<Rightarrow> (task \<Rightarrow> 'a run) \<Rightarrow> task \<Rightarrow> bool" where
  "served api iter ec l run t \<longleftrightarrow>
     (\<forall>evs ev later h x. env t = evs @ ev # later \<longrightarrow> run (t\<lparr>env := evs\<rparr>) = Suspended h
        \<longrightarrow> outcome ev = Answered (Some x) \<longrightarrow> (\<exists>b. x = bridge_answer api iter ec l (pending_request h) b))"

lemma servedD:
  "served api iter ec l run t \<Longrightarrow> env t = evs @ ev # later \<Longrightarrow> run (t\<lparr>env := evs\<rparr>) = Suspended h
   \<Longrightarrow> outcome ev = Answered (Some x) \<Longrightarrow> \<exists>b. x = bridge_answer api iter ec l (pending_request h) b"
  unfolding served_def by blast

lemma served_first: "served api iter ec l (\<lambda>t. and_then (run t) f) t \<Longrightarrow> served api iter ec l run t"
  unfolding served_def by (metis and_then.simps(1))

text \<open>
  A run that depends only on the part of the schedule it uses up: \<open>task_of\<close> finds the task in its
  result and \<open>with_env\<close> replaces what is left of the schedule there.
\<close>

definition framed :: "(task \<Rightarrow> 'a run) \<Rightarrow> ('a \<Rightarrow> task) \<Rightarrow> (event list \<Rightarrow> 'a \<Rightarrow> 'a) \<Rightarrow> task \<Rightarrow> bool" where
  "framed run task_of with_env t \<longleftrightarrow> (\<forall>a. run t = Finished a \<longrightarrow>
     (\<exists>used. env t = used @ env (task_of a) \<and> (\<forall>evs. run (t\<lparr>env := used @ evs\<rparr>) = Finished (with_env evs a))))"

lemma framedE:
  assumes "framed run task_of with_env t" and "run t = Finished a"
  obtains used where "env t = used @ env (task_of a)" and "\<And>evs. run (t\<lparr>env := used @ evs\<rparr>) = Finished (with_env evs a)"
  using assms unfolding framed_def by blast

lemma served_rest:
  assumes "served api iter ec l (\<lambda>t. and_then (run t) f) t" and "framed run task_of with_env t" and "run t = Finished a"
    and "\<And>evs. f (with_env evs a) = rest ((task_of a)\<lparr>env := evs\<rparr>)"
  shows "served api iter ec l rest (task_of a)"
proof -
  from assms(2,3) obtain used where used: "env t = used @ env (task_of a)"
    "\<And>evs. run (t\<lparr>env := used @ evs\<rparr>) = Finished (with_env evs a)" by (rule framedE) blast
  show ?thesis
    unfolding served_def
  proof (intro allI impI)
    fix evs ev later h x
    assume "env (task_of a) = evs @ ev # later" "rest ((task_of a)\<lparr>env := evs\<rparr>) = Suspended h"
      "outcome ev = Answered (Some x)"
    with used servedD [OF assms(1), of "used @ evs" ev later h x] assms(4)
    show "\<exists>b. x = bridge_answer api iter ec l (pending_request h) b" by simp
  qed
qed

text \<open>A run followed by another one.\<close>

lemma framed_and_then:
  assumes "framed run task_of with_env t"
    and "\<And>a. run t = Finished a \<Longrightarrow> framed (rest a) task_of' with_env' (task_of a)"
    and "\<And>a evs. run t = Finished a \<Longrightarrow> f (with_env evs a) = rest a ((task_of a)\<lparr>env := evs\<rparr>)"
    and "\<And>a. run t = Finished a \<Longrightarrow> f a = rest a (task_of a)"
  shows "framed (\<lambda>t. and_then (run t) f) task_of' with_env' t"
  unfolding framed_def
proof (intro allI impI)
  fix b assume "and_then (run t) f = Finished b"
  then obtain a where a: "run t = Finished a" "f a = Finished b" by (auto simp: and_then_Finished)
  from assms(1) a(1) obtain used where used: "env t = used @ env (task_of a)"
    "\<And>evs. run (t\<lparr>env := used @ evs\<rparr>) = Finished (with_env evs a)" by (rule framedE) blast
  have "rest a (task_of a) = Finished b" using assms(4) a by simp
  from framedE [OF assms(2) [OF a(1)] this] obtain more where "env (task_of a) = more @ env (task_of' b)"
    "\<And>evs. rest a ((task_of a)\<lparr>env := more @ evs\<rparr>) = Finished (with_env' evs b)" by blast
  with used assms(3) [OF a(1)] show "\<exists>used. env t = used @ env (task_of' b)
      \<and> (\<forall>evs. and_then (run (t\<lparr>env := used @ evs\<rparr>)) f = Finished (with_env' evs b))"
    by (intro exI [of _ "used @ more"]) simp
qed

lemma framed_return: "(\<And>t. run t = Finished (res t)) \<Longrightarrow> (\<And>t. task_of (res t) = t)
  \<Longrightarrow> (\<And>evs. with_env evs (res t) = res (t\<lparr>env := evs\<rparr>)) \<Longrightarrow> framed run task_of with_env t"
  unfolding framed_def by auto

section \<open>The awaits\<close>

abbreviation pair_env :: "event list \<Rightarrow> 'a \<times> task \<Rightarrow> 'a \<times> task" where
  "pair_env evs p \<equiv> (fst p, (snd p)\<lparr>env := evs\<rparr>)"

lemma framed_await_answer: "framed (\<lambda>t. await_answer prj (send_request c t)) snd pair_env t"
  by (cases "env t") (auto simp: framed_def await_answer_def await_def send_request_def
      split: await_result.split_asm option.split_asm)

lemma framed_await_notified: "framed await_notified snd pair_env t"
  by (cases "env t") (auto simp: framed_def await_notified_def await_def split: await_result.split_asm)

end
