(* ===== verification/Recv_Props.thy ===== *)
theory Recv_Props
  imports Recv_Stream Requests
begin

text \<open>
  Properties of \<open>RecvStream\<close>: what \<open>read_to_end\<close> and \<open>read_exact\<close> return for every schedule in which
  the connection stays open, that no answer of the TQUIC thread makes a read panic, that a stream
  is shut down at most once, and that polling through \<open>AsyncRead\<close> makes no progress.
\<close>

section \<open>Schedules that keep the connection open\<close>

type_synonym read_answer = "(unit, (ReadError, bytes \<times> bool) result) result"

abbreviation no_data :: read_answer where
  "no_data \<equiv> Ok (Ok ([], False))"

fun answer_outcome :: "read_answer \<Rightarrow> await_result" where
  "answer_outcome (Ok x) = Answered (Some (RespRead x))"
| "answer_outcome (Err _) = Answered None"

abbreviation delivers_reads ::
    "(closed_watch \<Rightarrow> ConnectionError option) \<Rightarrow> u64 \<Rightarrow> event list \<Rightarrow> read_answer list \<Rightarrow> event list \<Rightarrow> bool" where
  "delivers_reads \<equiv> delivers answer_outcome no_data"

text \<open>What a read makes of a non-empty answer: return value, stream and buffer.\<close>

fun read_of :: "read_answer \<Rightarrow> RecvStream \<Rightarrow> bytes \<Rightarrow> (ReadError, nat option) result \<times> RecvStream \<times> bytes" where
  "read_of (Err _) self buf = (Err (ReadConnectionLost LocallyClosed), self, buf)"
| "read_of (Ok (Err e)) self buf = (Err e, self, buf)"
| "read_of (Ok (Ok (data, fin))) self buf =
     ((if data = [] then Ok None else Ok (Some (length data))),
      (if fin then self\<lparr>all_data_read := True\<rparr> else self), write_front data buf)"

fun answer_data :: "read_answer \<Rightarrow> bytes" where
  "answer_data (Ok (Ok (data, fin))) = data"
| "answer_data _ = []"

lemma await_read:
  assumes "env t = ev # evs" and "outcome ev = answer_outcome a"
  shows "await_answer read_response (send_request c t)
    = Finished (a, (send_request c t)\<lparr>shared := others ev (shared (send_request c t)), env := evs\<rparr>)"
  using assms by (cases a) (simp_all add: await_answer_def await_def)

lemma wait_readable_wakes:
  assumes "env t = ev # evs" and "outcome ev = Notified" and "borrow (held_watch ev) = None"
    and "conn_open borrow (rs_conn_id self) (shared t)" and "keeps_open borrow (rs_conn_id self) ev"
  shows "\<exists>t'. wait_readable borrow self t = Finished (Ok (), t') \<and> env t' = evs
    \<and> conn_open borrow (rs_conn_id self) (shared t')"
proof -
  let ?h = "with_conn (rs_conn_id self) (get_or_create_readable (rs_stream_id self)) (shared t)"
  have "conn_open borrow (rs_conn_id self) ?h" using assms(4) by (simp add: conn_open_with_conn)
  with assms show ?thesis
    by (auto simp: wait_readable_def conn_open_def [of _ _ "shared t"] keeps_open_def await_notified_Notified
        split: option.splits)
qed

interpretation reading: retry_loop answer_outcome no_data borrow "rs_conn_id self" "read_loop borrow self buf"
    "\<lambda>a. length (answer_data a) \<le> length buf"
    "\<lambda>a t. case read_of a self buf of (r, self', buf') \<Rightarrow> (r, self', buf', t)"
  for borrow self buf
proof (unfold_locales, goal_cases)
  case (1 t e1 e2 evs)
  let ?s = "send_request (StreamRead (rs_conn_id self) (rs_stream_id self) (length buf)) t"
  let ?t1 = "?s\<lparr>shared := others e1 (shared ?s), env := e2 # evs\<rparr>"
  have "conn_open borrow (rs_conn_id self) (shared ?t1)" using 1 by (simp add: keeps_open_def)
  then obtain t2 where t2: "wait_readable borrow self ?t1 = Finished (Ok (), t2)" "env t2 = evs"
    "conn_open borrow (rs_conn_id self) (shared t2)"
    using wait_readable_wakes [of ?t1 e2 evs borrow self] 1 by auto
  then have "read_loop borrow self buf t = read_loop borrow self buf t2"
    using read_loop_answer [OF await_read [OF 1(1,2)], of borrow] by simp
  with t2 show ?case by blast
next
  case (2 t ev evs a)
  let ?s = "send_request (StreamRead (rs_conn_id self) (rs_stream_id self) (length buf)) t"
  let ?t1 = "?s\<lparr>shared := others ev (shared ?s), env := evs\<rparr>"
  have "read_loop borrow self buf t
      = Finished (case read_of a self buf of (r, self', buf') \<Rightarrow> (r, self', buf', ?t1))"
    using read_loop_answer [OF await_read [OF 2(1,2)], of borrow self buf] 2(3,4)
    by (cases a rule: answer_data.cases) (auto split: result.splits)
  with 2 show ?case by (intro exI [of _ ?t1]) (simp add: keeps_open_def)
qed

lemma read_delivers:
  assumes "delivers_reads borrow (rs_conn_id self) later (a # as) (env t)" and "conn_open borrow (rs_conn_id self) (shared t)"
    and "\<not> all_data_read self" and "length (answer_data a) \<le> length buf"
  obtains t' where "read borrow self buf t
        = Finished (case read_of a self buf of (r, self', buf') \<Rightarrow> (r, self', buf', t'))"
    and "conn_open borrow (rs_conn_id self) (shared t')"
    and "delivers_reads borrow (rs_conn_id self) later as (env t')"
  using reading.loop_delivers [OF assms(1,2,4)] assms(3) by (auto simp: read_def)

text \<open>A wait on an open connection leaves an entry under which the transport handler can wake it up.\<close>

lemma wait_readable_registers:
  assumes "env t = []" and "conn_open borrow (rs_conn_id self) (shared t)"
  shows "\<exists>h cn. wait_readable borrow self t = Suspended h \<and> conn_states h (rs_conn_id self) = Some cn
    \<and> rs_stream_id self \<in> dom (stream_readable cn)"
  using assms
  by (auto simp: wait_readable_def conn_open_def get_conn_notify_def await_notified_def await_def
      get_or_create_readable_def or_insert_def split: option.split option.split_asm)

section \<open>Reading a whole stream\<close>

abbreviation chunk :: "bytes \<Rightarrow> read_answer" where
  "chunk d \<equiv> Ok (Ok (d, False))"

abbreviation final :: "bytes \<Rightarrow> read_answer" where
  "final d \<equiv> Ok (Ok (d, True))"

text \<open>The error an answer ends a stream with; \<open>None\<close> for the end of the stream.\<close>

fun ending_error :: "read_answer \<Rightarrow> ReadError option" where
  "ending_error (Err _) = Some (ReadConnectionLost LocallyClosed)"
| "ending_error (Ok (Err e)) = Some e"
| "ending_error (Ok (Ok _)) = None"

lemma read_finished [simp]: "all_data_read self \<Longrightarrow> read borrow self buf t = Finished (Ok None, self, buf, t)"
  by (simp add: read_def)

lemma read_to_end_loop_chunks:
  assumes "delivers_reads borrow (rs_conn_id self) later (map chunk cs @ [z]) (env t)"
    and "conn_open borrow (rs_conn_id self) (shared t)" and "\<not> all_data_read self"
    and "\<forall>d \<in> set cs. length d \<le> length buf" and "length (answer_data z) \<le> length buf"
    and "\<forall>d. z \<noteq> chunk d" and "length acc \<le> limit"
  shows "\<exists>self' t'. read_to_end_loop borrow limit self acc buf t = Finished
     ((if limit < length (acc @ concat cs @ answer_data z) then Err TooLong
       else case ending_error z of
              Some e \<Rightarrow> Err (ToEndRead e) | None \<Rightarrow> Ok (acc @ concat cs @ answer_data z)), self', t')
   \<and> (\<not> limit < length (acc @ concat cs @ answer_data z) \<longrightarrow>
        self' = self\<lparr>all_data_read := (ending_error z = None)\<rparr> \<and> env t' = later
      \<and> conn_open borrow (rs_conn_id self) (shared t'))"
  using assms
proof (induction cs arbitrary: acc buf t)
  case Nil
  then obtain t' where t': "read borrow self buf t
      = Finished (case read_of z self buf of (r, self', buf') \<Rightarrow> (r, self', buf', t'))"
    and keep: "conn_open borrow (rs_conn_id self) (shared t')" "delivers_reads borrow (rs_conn_id self) later [] (env t')"
    using read_delivers [of borrow self later z "[]" t buf] by auto
  have "env t' = later" using keep(2) by (rule delivers_done)
  with Nil t' keep(1) show ?case
    by (cases z rule: answer_data.cases; subst read_to_end_loop.simps)
      (auto simp: Let_def read_to_end_loop.simps)
next
  case (Cons d cs)
  have d: "d \<noteq> []" using delivers_not_empty [OF Cons.prems(1)] by auto
  obtain t' where t': "read borrow self buf t = Finished (Ok (Some (length d)), self, write_front d buf, t')"
    and keep: "conn_open borrow (rs_conn_id self) (shared t')"
      "delivers_reads borrow (rs_conn_id self) later (map chunk cs @ [z]) (env t')"
    using read_delivers [of borrow self later "chunk d" "map chunk cs @ [z]" t buf] Cons.prems d by auto
  have step: "read_to_end_loop borrow limit self acc buf t =
      (if limit < length (acc @ d) then Finished (Err TooLong, self, t')
       else read_to_end_loop borrow limit self (acc @ d) (write_front d buf) t')"
    using Cons.prems(4) by (subst read_to_end_loop.simps) (simp add: t' Let_def write_front_def)
  show ?case
  proof (cases "limit < length (acc @ d)")
    case True
    with step show ?thesis by auto
  next
    case False
    have len: "length (write_front d buf) = length buf" using Cons.prems(4) by simp
    show ?thesis
      using Cons.IH [OF keep(2,1) Cons.prems(3), of "write_front d buf" "acc @ d", unfolded append_assoc]
        Cons.prems(4-6) False step len
      unfolding concat.simps append_assoc by simp
  qed
qed

section \<open>Reading an exact number of bytes\<close>

lemma read_exact_loop_chunks:
  assumes "delivers_reads borrow (rs_conn_id self) later (map chunk cs @ zs) (env t)"
    and "conn_open borrow (rs_conn_id self) (shared t)" and "\<not> all_data_read self"
    and "length (done @ concat cs) \<le> length buf"
  shows "\<exists>t'. read_exact_loop borrow self (length done) (write_front done buf) t
      = read_exact_loop borrow self (length (done @ concat cs)) (write_front (done @ concat cs) buf) t'
    \<and> delivers_reads borrow (rs_conn_id self) later zs (env t') \<and> conn_open borrow (rs_conn_id self) (shared t')"
  using assms
proof (induction cs arbitrary: "done" t)
  case Nil
  then show ?case by auto
next
  case (Cons d cs)
  have d: "d \<noteq> []" using delivers_not_empty [OF Cons.prems(1)] by auto
  let ?rest = "drop (length done) (write_front done buf)"
  have "length d \<le> length ?rest" and room: "length done < length buf"
    using Cons.prems(4) d by (simp_all add: write_front_def flip: length_greater_0_conv)
  then obtain t' where t': "read borrow self ?rest t = Finished (Ok (Some (length d)), self, write_front d ?rest, t')"
    and keep: "conn_open borrow (rs_conn_id self) (shared t')"
      "delivers_reads borrow (rs_conn_id self) later (map chunk cs @ zs) (env t')"
    using read_delivers [of borrow self later "chunk d" "map chunk cs @ zs" t ?rest] Cons.prems d
    by auto
  have "read_exact_loop borrow self (length done) (write_front done buf) t
      = read_exact_loop borrow self (length (done @ d)) (write_front (done @ d) buf) t'"
    using t' Cons.prems(4) room
    by (subst read_exact_loop.simps) (simp add: Let_def write_front_def add.commute)
  with Cons.IH [OF keep(2,1) Cons.prems(3), of "done @ d"] Cons.prems(4)
  show ?case by simp
qed

text \<open>The last answer, after the bytes \<open>done\<close>: the buffer has room for its data.\<close>

lemma read_exact_loop_last:
  assumes "delivers_reads borrow (rs_conn_id self) later [z] (env t)" and "conn_open borrow (rs_conn_id self) (shared t)"
    and "\<not> all_data_read self" and "length done < length buf" and "length (done @ answer_data z) \<le> length buf"
    and "\<forall>d. z \<noteq> chunk d"
  shows "\<exists>t'. read_exact_loop borrow self (length done) (write_front done buf) t = Finished
     ((if length (done @ answer_data z) = length buf then Ok ()
       else case ending_error z of
              Some e \<Rightarrow> Err (ExactReadError e) | None \<Rightarrow> Err (FinishedEarly (length (done @ answer_data z)))),
      self\<lparr>all_data_read := (ending_error z = None)\<rparr>, write_front (done @ answer_data z) buf, t') \<and> env t' = later"
proof -
  let ?rest = "drop (length done) (write_front done buf)"
  have "length (answer_data z) \<le> length ?rest" using assms(5) by (simp add: write_front_def)
  then obtain t' where t': "read borrow self ?rest t
      = Finished (case read_of z self ?rest of (r, self', buf') \<Rightarrow> (r, self', buf', t'))"
    and none: "delivers_reads borrow (rs_conn_id self) later [] (env t')"
    using read_delivers [of borrow self later z "[]" t ?rest] assms by auto
  from none have "env t' = later" by (rule delivers_done)
  with t' assms(3-6) show ?thesis
    by (cases z rule: answer_data.cases; subst read_exact_loop.simps)
      (auto simp: Let_def read_exact_loop.simps write_front_def add.commute)
qed

text \<open>With no answer left, the loop waits for the rest.\<close>

lemma read_exact_loop_waits:
  assumes "env t = []" and "\<not> all_data_read self" and "offset < length buf"
  shows "\<exists>h. read_exact_loop borrow self offset buf t = Suspended h
    \<and> pending_request h = StreamRead (rs_conn_id self) (rs_stream_id self) (length buf - offset) (next_tx t)"
  using assms by (subst read_exact_loop.simps) (simp add: read_def read_loop.simps await_answer_Nil)

section \<open>No panic\<close>

abbreviation task_of_read :: "'a \<times> RecvStream \<times> bytes \<times> task \<Rightarrow> task" where
  "task_of_read p \<equiv> snd (snd (snd p))"

abbreviation read_env :: "event list \<Rightarrow> 'a \<times> RecvStream \<times> bytes \<times> task \<Rightarrow> 'a \<times> RecvStream \<times> bytes \<times> task" where
  "read_env evs p \<equiv> (fst p, fst (snd p), fst (snd (snd p)), (task_of_read p)\<lparr>env := evs\<rparr>)"

lemma wait_readable_not_panicked [simp]: "wait_readable borrow self t \<noteq> Panicked"
  by (auto simp: wait_readable_def and_then_Panicked split: option.split)

lemma framed_wait_readable: "framed (wait_readable borrow self) snd pair_env t"
  by (cases "env t") (auto simp: framed_def wait_readable_def await_notified_def await_def
      split: option.splits await_result.split_asm)

text \<open>What a read does with the answer to its request.\<close>

definition after_read_answer ::
    "(closed_watch \<Rightarrow> ConnectionError option) \<Rightarrow> RecvStream \<Rightarrow> bytes \<Rightarrow> read_answer \<times> task
     \<Rightarrow> ((ReadError, nat option) result \<times> RecvStream \<times> bytes \<times> task) run" where
  "after_read_answer borrow self buf p =
     (if fst p = no_data
      then and_then (wait_readable borrow self (snd p)) (\<lambda>(r, t).
             case r of Err e \<Rightarrow> Finished (Err e, self, buf, t) | Ok _ \<Rightarrow> read_loop borrow self buf t)
      else if length buf < length (answer_data (fst p)) then Panicked
      else Finished (case read_of (fst p) self buf of (r, self', buf') \<Rightarrow> (r, self', buf', snd p)))"

abbreviation ask :: "RecvStream \<Rightarrow> bytes \<Rightarrow> task \<Rightarrow> task" where
  "ask self buf t \<equiv> send_request (StreamRead (rs_conn_id self) (rs_stream_id self) (length buf)) t"

lemma read_loop_unfold:
  "read_loop borrow self buf = (\<lambda>t. and_then (await_answer read_response (ask self buf t)) (after_read_answer borrow self buf))"
proof
  fix t
  show "read_loop borrow self buf t
      = and_then (await_answer read_response (ask self buf t)) (after_read_answer borrow self buf)"
  proof (cases "await_answer read_response (ask self buf t)")
    case (Finished p)
    then obtain a t1 where aw: "await_answer read_response (ask self buf t) = Finished (a, t1)" by (cases p) auto
    then show ?thesis
      by (cases a rule: answer_data.cases)
        (auto simp: read_loop_answer [OF aw] after_read_answer_def write_front_def split: result.split)
  qed (subst read_loop.simps; simp)+
qed

lemma framed_read_loop: "framed (read_loop borrow self buf) task_of_read read_env t"
proof (induction "length (env t)" arbitrary: t rule: less_induct)
  case less
  have loop: "framed (\<lambda>t. case r of Err e \<Rightarrow> Finished (Err e, self, buf, t) | Ok (_ :: unit) \<Rightarrow> read_loop borrow self buf t)
      task_of_read read_env t'" if "length (env t') < length (env t)" for r t'
    using less [OF that] by (cases r) (simp_all add: framed_return)
  have answer: "framed (\<lambda>t. after_read_answer borrow self buf (a, t)) task_of_read read_env t1"
    if "length (env t1) < length (env t)" for a t1
  proof (cases "a = no_data")
    case True
    have "framed (\<lambda>t. and_then (wait_readable borrow self t) (\<lambda>(r, t).
        case r of Err e \<Rightarrow> Finished (Err e, self, buf, t) | Ok _ \<Rightarrow> read_loop borrow self buf t))
      task_of_read read_env t1"
      by (rule framed_and_then [OF framed_wait_readable, where rest = "\<lambda>p t. case fst p of
            Err e \<Rightarrow> Finished (Err e, self, buf, t) | Ok _ \<Rightarrow> read_loop borrow self buf t"])
        (use that loop wait_readable_env in \<open>fastforce split: prod.split result.split\<close>)+
    with True show ?thesis by (simp add: after_read_answer_def)
  next
    case False
    then show ?thesis by (auto simp: after_read_answer_def framed_def split: prod.split)
  qed
  show ?case
    unfolding read_loop_unfold
    by (rule framed_and_then [OF framed_await_answer, where rest = "\<lambda>p t. after_read_answer borrow self buf (fst p, t)"])
      (use answer await_answer_env in fastforce)+
qed

lemma framed_read: "framed (read borrow self buf) task_of_read read_env t"
  by (cases "all_data_read self") (simp_all add: read_def [abs_def] framed_read_loop framed_return)

lemma read_answer_fits:
  "bridge_answer api iter ec l (StreamRead i s n tx) b = RespRead (Ok (data, fin)) \<Longrightarrow> length data \<le> n"
  by (subst (asm) bridge_answer_query [OF process_command.simps(11)])
    (auto dest: length_read_result split: if_split_asm)

lemma read_loop_served:
  assumes "served api iter ec l (read_loop borrow self buf) t"
  shows "read_loop borrow self buf t \<noteq> Panicked
    \<and> (\<forall>r self' buf' t'. read_loop borrow self buf t = Finished (r, self', buf', t') \<longrightarrow> length buf' = length buf)"
  using assms
proof (induction "length (env t)" arbitrary: t rule: less_induct)
  case less
  note served = less.prems [unfolded read_loop_unfold]
  show ?case
  proof (cases "await_answer read_response (ask self buf t)")
    case (Finished p)
    have fit: "length (answer_data (fst p)) \<le> length buf"
    proof (cases "env t")
      case (Cons ev evs)
      have "\<exists>b. x = bridge_answer api iter ec l (StreamRead (rs_conn_id self) (rs_stream_id self) (length buf) (next_tx t)) b"
        if "outcome ev = Answered (Some x)" for x
        using servedD [OF served, of "[]" ev evs _ x] Cons that by (auto simp: await_answer_Nil)
      with Finished Cons show ?thesis
        by (cases "fst p" rule: answer_data.cases)
          (auto simp: await_answer_def await_def elim!: read_response.elims dest!: sym [of "RespRead _"]
            dest: read_answer_fits split: await_result.split_asm option.split_asm)
    qed (use Finished in \<open>simp add: await_answer_Nil\<close>)
    have step: "read_loop borrow self buf t = after_read_answer borrow self buf p"
      using Finished by (simp add: read_loop_unfold)
    have rest: "served api iter ec l (\<lambda>t. after_read_answer borrow self buf (fst p, t)) (snd p)"
      by (rule served_rest [OF served framed_await_answer Finished]) simp
    show ?thesis
    proof (cases "fst p = no_data")
      case True
      show ?thesis
      proof (cases "wait_readable borrow self (snd p)")
        case (Finished q)
        then obtain w t2 where w: "wait_readable borrow self (snd p) = Finished (w, t2)" by (cases q) auto
        have "served api iter ec l (\<lambda>t. case w of
            Err e \<Rightarrow> Finished (Err e, self, buf, t) | Ok _ \<Rightarrow> read_loop borrow self buf t) (snd (w, t2))"
          by (rule served_rest [OF rest [unfolded after_read_answer_def fst_conv snd_conv if_P [OF True]]
                framed_wait_readable w]) (cases w; simp)
        moreover have "length (env t2) < length (env t)"
          using await_answer_env [of read_response "ask self buf t" "fst p" "snd p"] wait_readable_env [OF w]
            \<open>await_answer read_response (ask self buf t) = Finished p\<close> by simp
        ultimately show ?thesis
          using less.hyps [of t2] step True w by (cases w) (auto simp: after_read_answer_def)
      qed (use step True in \<open>simp_all add: after_read_answer_def\<close>)
    next
      case False
      with step fit show ?thesis
        by (cases "fst p" rule: answer_data.cases) (auto simp: after_read_answer_def write_front_def)
    qed
  qed (simp_all add: read_loop_unfold)
qed

lemma read_served:
  assumes "served api iter ec l (read borrow self buf) t"
  shows "read borrow self buf t \<noteq> Panicked
    \<and> (\<forall>r self' buf' t'. read borrow self buf t = Finished (r, self', buf', t') \<longrightarrow> length buf' = length buf)"
  using assms read_loop_served by (cases "all_data_read self") (simp_all add: read_def [abs_def])

text \<open>The loops around \<open>read\<close>: their continuation after a read.\<close>

definition after_exact_read ::
    "(closed_watch \<Rightarrow> ConnectionError option) \<Rightarrow> nat \<Rightarrow> bytes \<Rightarrow> (ReadError, nat option) result \<times> RecvStream \<times> bytes \<times> task
     \<Rightarrow> ((ReadExactError, unit) result \<times> RecvStream \<times> bytes \<times> task) run" where
  "after_exact_read borrow offset buf = (\<lambda>(r, self, rest, t).
     let buf = take offset buf @ rest in
     case r of
       Ok (Some n) \<Rightarrow> read_exact_loop borrow self (offset + n) buf t
     | Ok None \<Rightarrow> Finished (Err (FinishedEarly offset), self, buf, t)
     | Err e \<Rightarrow> Finished (Err (ExactReadError e), self, buf, t))"

lemma read_exact_loop_unfold:
  "offset < length buf \<Longrightarrow> read_exact_loop borrow self offset buf
    = (\<lambda>t. and_then (read borrow self (drop offset buf) t) (after_exact_read borrow offset buf))"
  by (rule ext) (subst read_exact_loop.simps, simp add: after_exact_read_def)

lemma read_exact_loop_served:
  "served api iter ec l (read_exact_loop borrow self offset buf) t \<Longrightarrow> read_exact_loop borrow self offset buf t \<noteq> Panicked"
proof (induction "length (env t)" arbitrary: t self offset buf rule: less_induct)
  case less
  show ?case
  proof (cases "offset < length buf")
    case True
    note served = less.prems [unfolded read_exact_loop_unfold [OF True]]
    note read = read_served [OF served_first [OF served]]
    show ?thesis
    proof (cases "read borrow self (drop offset buf) t")
      case (Finished p)
      then obtain r self' rest t' where p: "read borrow self (drop offset buf) t = Finished (r, self', rest, t')"
        by (cases p) auto
      have "served api iter ec l (\<lambda>t. after_exact_read borrow offset buf (r, self', rest, t)) (task_of_read (r, self', rest, t'))"
        by (rule served_rest [OF served framed_read p]) simp
      moreover have "r = Ok (Some n) \<Longrightarrow> length (env t') < length (env t)" for n using p read_Some_env by blast
      ultimately show ?thesis
        using less.hyps [of t' self'] p
        by (auto simp: read_exact_loop_unfold [OF True] after_exact_read_def Let_def split: result.split option.split)
    qed (use read in \<open>simp_all add: read_exact_loop_unfold [OF True]\<close>)
  qed (subst read_exact_loop.simps, simp)
qed

definition after_to_end_read ::
    "(closed_watch \<Rightarrow> ConnectionError option) \<Rightarrow> nat \<Rightarrow> bytes \<Rightarrow> (ReadError, nat option) result \<times> RecvStream \<times> bytes \<times> task
     \<Rightarrow> ((ReadToEndError, bytes) result \<times> RecvStream \<times> task) run" where
  "after_to_end_read borrow size_limit data = (\<lambda>(r, self, buf, t).
     case r of
       Ok (Some n) \<Rightarrow>
         (let data = data @ take n buf in
          if size_limit < length data then Finished (Err TooLong, self, t)
          else read_to_end_loop borrow size_limit self data buf t)
     | Ok None \<Rightarrow> Finished (Ok data, self, t)
     | Err e \<Rightarrow> Finished (Err (ToEndRead e), self, t))"

lemma read_to_end_loop_unfold:
  "read_to_end_loop borrow size_limit self data buf
    = (\<lambda>t. and_then (read borrow self buf t) (after_to_end_read borrow size_limit data))"
  by (rule ext) (subst read_to_end_loop.simps, simp add: after_to_end_read_def)

lemma read_to_end_loop_served:
  "served api iter ec l (read_to_end_loop borrow size_limit self data buf) t
   \<Longrightarrow> read_to_end_loop borrow size_limit self data buf t \<noteq> Panicked"
proof (induction "length (env t)" arbitrary: t self data buf rule: less_induct)
  case less
  note served = less.prems [unfolded read_to_end_loop_unfold]
  note read = read_served [OF served_first [OF served]]
  show ?case
  proof (cases "read borrow self buf t")
    case (Finished p)
    then obtain r self' buf' t' where p: "read borrow self buf t = Finished (r, self', buf', t')" by (cases p) auto
    have "served api iter ec l (\<lambda>t. after_to_end_read borrow size_limit data (r, self', buf', t)) (task_of_read (r, self', buf', t'))"
      by (rule served_rest [OF served framed_read p]) simp
    moreover have "r = Ok (Some n) \<Longrightarrow> length (env t') < length (env t)" for n using p read_Some_env by blast
    ultimately show ?thesis
      using less.hyps [of t' self'] p
      by (auto simp: read_to_end_loop_unfold [of borrow size_limit self data buf] after_to_end_read_def Let_def
          split: result.split option.split if_split_asm)
  qed (use read in \<open>simp_all add: read_to_end_loop_unfold\<close>)
qed

section \<open>Shutting a stream down\<close>

interpretation recv_stop: close_once all_data_read stop
    "\<lambda>error_code self. StreamShutdownRead (rs_conn_id self) (rs_stream_id self) (varint_into_inner error_code)"
    ClosedStream
  by unfold_locales (auto simp: stop_def)

section \<open>Properties\<close>

definition sample_recv :: RecvStream where
  "sample_recv = \<lparr>rs_conn_id = 7, rs_stream_id = 4, all_data_read = False\<rparr>"

definition calm :: "await_result \<Rightarrow> event" where
  "calm r = \<lparr>outcome = r, held_watch = [None], others = id\<rparr>"

definition sample_task :: "event list \<Rightarrow> task" where
  "sample_task evs =
     \<lparr>shared = handle (on_conn_created (sample_conn 7) sample_handler), next_tx = 0, env = evs\<rparr>"

lemma calm_simps [simp]: "outcome (calm r) = r" "held_watch (calm r) = [None]" "keeps_open borrow i (calm r)"
  by (simp_all add: calm_def keeps_open_def)

lemma sample_task_open [simp]: "conn_open last 7 (shared (sample_task evs))" "env (sample_task evs) = evs"
  by (simp_all add: sample_task_def conn_open_def get_conn_notify_def handler_simps sample_simps callback_conn_id_def)

text \<open>
  C2: \<open>read_to_end\<close> returns the whole stream. While the connection stays open, whatever the
  schedule and however often it has to wait, the result is the concatenation of the chunks up to
  the end of the stream, in order; it is \<open>TooLong\<close> exactly when they exceed the limit; and an error
  (the peer's reset, or a lost TQUIC thread) is returned if the data before it was within the
  limit. It always returns, having awaited exactly these answers, and after success the stream is
  marked as read to its end.
\<close>

theorem read_to_end_outcome:
  assumes "\<not> all_data_read self" and "conn_open borrow (rs_conn_id self) (shared t)"
    and "delivers_reads borrow (rs_conn_id self) later (map chunk cs @ [z]) (env t)" and "\<forall>d. z \<noteq> chunk d"
    and "\<forall>d \<in> set cs. length d \<le> 8192" and "length (answer_data z) \<le> 8192"
  shows "\<exists>self' t'. read_to_end borrow limit self t = Finished
     ((if limit < length (concat cs @ answer_data z) then Err TooLong
       else case ending_error z of
              Some e \<Rightarrow> Err (ToEndRead e) | None \<Rightarrow> Ok (concat cs @ answer_data z)), self', t')
   \<and> (length (concat cs @ answer_data z) \<le> limit \<longrightarrow>
        all_data_read self' = (ending_error z = None) \<and> env t' = later)"
  using read_to_end_loop_chunks [OF assms(3,2,1), of "replicate 8192 0" "[]" limit] assms
  unfolding read_to_end_def append_Nil not_less length_replicate by auto

theorem read_to_end_outcome_witness:
  "\<exists>self' t'. read_to_end last 100 sample_recv
     (sample_task (map calm [Answered (Some (RespRead (Ok ([1, 2], False)))),
        Answered (Some (RespRead (Ok ([], False)))), Notified, Answered (Some (RespRead (Ok ([3], True))))]))
     = Finished (Ok [1, 2, 3], self', t')"
proof -
  let ?evs = "map calm [Answered (Some (RespRead (Ok ([1, 2], False)))),
        Answered (Some (RespRead (Ok ([], False)))), Notified, Answered (Some (RespRead (Ok ([3], True))))]"
  have "delivers_reads last 7 [] (map chunk [[1, 2]] @ [Ok (Ok ([3], True))]) ?evs"
    by (simp, rule delivers.answer, simp_all, rule delivers.stall, simp_all, rule delivers.answer)
      (simp_all add: delivers.nothing)
  then show ?thesis
    using read_to_end_outcome [of sample_recv last "sample_task ?evs" "[]" "[[1, 2]]" "Ok (Ok ([3], True))" 100]
    by (auto simp: sample_recv_def)
qed

text \<open>
  C15: \<open>read_exact\<close> fills the buffer with the bytes of the stream, in order. Let the connection stay
  open and the pieces \<open>cs\<close> be answered, with any number of waits in between, and \<open>zs\<close> be what is
  answered after them. When the pieces fill the buffer it succeeds, whatever follows, and has
  awaited nothing more. When the stream ends with a piece before or just as the buffer is full, it
  reports how many bytes there were, or succeeds; when an error comes before, it returns the
  error; in both cases the front of the buffer holds what was read. And when nothing more is
  answered, it waits, having asked for exactly the bytes that are missing.
\<close>

theorem read_exact_outcome:
  assumes "\<not> all_data_read self" and "conn_open borrow (rs_conn_id self) (shared t)"
    and "delivers_reads borrow (rs_conn_id self) later (map chunk cs @ zs) (env t)"
    and "length (concat cs) \<le> length buf"
  shows "(length (concat cs) = length buf \<longrightarrow>
        (\<exists>t'. read_exact borrow self buf t = Finished (Ok (), self, concat cs, t') \<and> (zs = [] \<longrightarrow> env t' = later)))
    \<and> (\<forall>d. zs = [final d] \<and> length (concat cs) < length buf \<and> length (concat cs @ d) \<le> length buf \<longrightarrow>
        (\<exists>t'. read_exact borrow self buf t = Finished
          (if length (concat cs @ d) = length buf then Ok () else Err (FinishedEarly (length (concat cs @ d))),
           self\<lparr>all_data_read := True\<rparr>, (concat cs @ d) @ drop (length (concat cs @ d)) buf, t') \<and> env t' = later))
    \<and> (\<forall>z e. zs = [z] \<and> ending_error z = Some e \<and> length (concat cs) < length buf \<longrightarrow>
        (\<exists>t'. read_exact borrow self buf t
          = Finished (Err (ExactReadError e), self, concat cs @ drop (length (concat cs)) buf, t') \<and> env t' = later))
    \<and> (zs = [] \<and> later = [] \<and> length (concat cs) < length buf \<longrightarrow>
        (\<exists>h tx. read_exact borrow self buf t = Suspended h
          \<and> pending_request h = StreamRead (rs_conn_id self) (rs_stream_id self) (length buf - length (concat cs)) tx))"
proof -
  let ?c = "concat cs"
  obtain t' where start: "read_exact borrow self buf t = read_exact_loop borrow self (length ?c) (write_front ?c buf) t'"
    and zs: "delivers_reads borrow (rs_conn_id self) later zs (env t')" and op: "conn_open borrow (rs_conn_id self) (shared t')"
    using read_exact_loop_chunks [OF assms(3,2,1), of "[]" buf] assms(4) by (auto simp: read_exact_def write_front_def)
  have len: "length (write_front ?c buf) = length buf" using assms(4) by simp
  have same: "self\<lparr>all_data_read := False\<rparr> = self" using assms(1) by (cases self) simp
  have "read_exact borrow self buf t = Finished (Ok (), self, ?c, t') \<and> (zs = [] \<longrightarrow> env t' = later)"
    if "length ?c = length buf"
    using that start zs delivers_done by (subst (asm) read_exact_loop.simps) (auto simp: write_front_def)
  moreover have "\<exists>t''. read_exact borrow self buf t = Finished
      (if length (?c @ d) = length buf then Ok () else Err (FinishedEarly (length (?c @ d))),
       self\<lparr>all_data_read := True\<rparr>, (?c @ d) @ drop (length (?c @ d)) buf, t'') \<and> env t'' = later"
    if "zs = [final d]" "length ?c < length buf" "length (?c @ d) \<le> length buf" for d
    using read_exact_loop_last [of borrow self later "final d" t' ?c buf] zs op assms(1) that start
    by (cases "length (?c @ d) = length buf") (auto simp: write_front_def)
  moreover have "\<exists>t''. read_exact borrow self buf t
      = Finished (Err (ExactReadError e), self, ?c @ drop (length ?c) buf, t'') \<and> env t'' = later"
    if "zs = [z]" "ending_error z = Some e" "length ?c < length buf" for z e
    using read_exact_loop_last [of borrow self later z t' ?c buf] zs op assms(1) that start
    by (cases z rule: ending_error.cases) (auto simp: write_front_def same)
  moreover have "\<exists>h tx. read_exact borrow self buf t = Suspended h
      \<and> pending_request h = StreamRead (rs_conn_id self) (rs_stream_id self) (length buf - length ?c) tx"
    if "zs = []" "later = []" "length ?c < length buf"
    using read_exact_loop_waits [of t' self "length ?c" "write_front ?c buf" borrow] zs delivers_done that assms(1) start len
    by fastforce
  ultimately show ?thesis by blast
qed

theorem read_exact_outcome_witness:
  "(\<exists>t'. read_exact last sample_recv [0, 0] (sample_task (map calm [Answered (Some (RespRead (Ok ([1, 2], False)))), Locked]))
      = Finished (Ok (), sample_recv, [1, 2], t') \<and> env t' = [calm Locked])
   \<and> (\<exists>t'. read_exact last sample_recv [0, 0, 0]
        (sample_task (map calm [Answered (Some (RespRead (Ok ([1, 2], False)))), Answered None]))
      = Finished (Err (ExactReadError (ReadConnectionLost LocallyClosed)), sample_recv, [1, 2, 0], t'))"
proof -
  let ?full = "map calm [Answered (Some (RespRead (Ok ([1, 2], False)))), Locked]"
  let ?lost = "map calm [Answered (Some (RespRead (Ok ([1, 2], False)))), Answered None]"
  have "delivers_reads last 7 [calm Locked] (map chunk [[1, 2]] @ []) ?full"
    by (simp, rule delivers.answer) (simp_all add: delivers.nothing)
  moreover have "delivers_reads last 7 [] (map chunk [[1, 2]] @ [Err ()]) ?lost"
    by (simp, rule delivers.answer, simp_all, rule delivers.answer) (simp_all add: delivers.nothing)
  ultimately show ?thesis
    using read_exact_outcome [of sample_recv last "sample_task ?full" "[calm Locked]" "[[1, 2]]" "[]" "[0, 0]"]
      read_exact_outcome [of sample_recv last "sample_task ?lost" "[]" "[[1, 2]]" "[Err ()]" "[0, 0, 0]"]
    by (auto simp: sample_recv_def)
qed

text \<open>
  C17: no read panics: if every answer that \<open>read\<close>, \<open>read_exact\<close> or \<open>read_to_end\<close> gets is one that the
  TQUIC thread gives, in whatever state, to the request the operation has really sent and is
  waiting for, it never copies out of bounds, whatever the schedule and whether or not the
  connection stays open.
\<close>

theorem reads_never_panic:
  "(served api iter ec l (read borrow self buf) t \<longrightarrow> read borrow self buf t \<noteq> Panicked)
   \<and> (served api iter ec l (read_exact borrow self buf) t \<longrightarrow> read_exact borrow self buf t \<noteq> Panicked)
   \<and> (served api iter ec l (read_to_end borrow limit self) t \<longrightarrow> read_to_end borrow limit self t \<noteq> Panicked)"
  using read_served [of api iter ec l borrow self buf t] read_exact_loop_served [of api iter ec l borrow self 0 buf t]
    read_to_end_loop_served [of api iter ec l borrow limit self "[]" "replicate 8192 0" t]
  by (simp add: read_exact_def [abs_def] read_to_end_def [abs_def])

theorem reads_never_panic_witness:
  "read_exact last sample_recv [0, 0] (sample_task [calm (Answered (Some (bridge_answer sample_api (\<lambda>m. [])
      EndpointConfig_default addr_unspecified (StreamRead 7 4 2 0) sample_bridge)))]) \<noteq> Panicked"
proof -
  let ?x = "bridge_answer sample_api (\<lambda>m. []) EndpointConfig_default addr_unspecified (StreamRead 7 4 2 0) sample_bridge"
  let ?t = "sample_task [calm (Answered (Some ?x))]"
  have "served sample_api (\<lambda>m. []) EndpointConfig_default addr_unspecified (read_exact last sample_recv [0, 0]) ?t"
    unfolding served_def
  proof (intro allI impI)
    fix evs ev later h x
    assume split: "env ?t = evs @ ev # later" and run: "read_exact last sample_recv [0, 0] (?t\<lparr>env := evs\<rparr>) = Suspended h"
      and x: "outcome ev = Answered (Some x)"
    from split have "evs = []" "ev = calm (Answered (Some ?x))" by (auto simp: Cons_eq_append_conv)
    with run x have "pending_request h = StreamRead 7 4 2 0" "x = ?x"
      by (auto simp: read_exact_def read_exact_loop_unfold read_def sample_recv_def read_loop_unfold await_answer_Nil
          sample_task_def numeral_2_eq_2)
    then show "\<exists>b. x = bridge_answer sample_api (\<lambda>m. []) EndpointConfig_default addr_unspecified (pending_request h) b"
      by auto
  qed
  with reads_never_panic [of sample_api "\<lambda>m. []" EndpointConfig_default addr_unspecified last sample_recv "[0, 0]" ?t]
  show ?thesis by blast
qed

text \<open>
  C19: a receive stream is shut down at most once: any sequence of \<open>stop\<close> calls followed by the
  drop sends one \<open>StreamShutdownRead\<close>, with the code of the first \<open>stop\<close>, or 0 if there was none;
  a stream that was read to its end sends none. After the first \<open>stop\<close> every further one fails and
  \<open>read\<close> reports the end of the stream without asking TQUIC.
\<close>

theorem recv_shut_down_once:
  "(let (cmds, self') = close_log stop codes self in cmds @ recv_drop self')
     = (if all_data_read self then []
        else [StreamShutdownRead (rs_conn_id self) (rs_stream_id self)
               (case codes of [] \<Rightarrow> 0 | c # _ \<Rightarrow> varint_into_inner c)])
   \<and> (case stop c self of (r, cmds, self') \<Rightarrow>
        stop d self' = (Err ClosedStream, [], self') \<and> read borrow self' buf t = Finished (Ok None, self', buf, t))"
proof -
  have "stop d self' = (Err ClosedStream, [], self')" if "stop c self = (r, cmds, self')" for r cmds self'
    using recv_stop.close_twice [OF that] .
  moreover have "all_data_read self'" if "stop c self = (r, cmds, self')" for r cmds self'
    using recv_stop.closed_after [of c self] that by simp
  moreover have "varint_into_inner (varint_from_u32 0) = 0" by (simp add: varint_from_u32_def)
  moreover have "(let (cmds, self') = close_log stop codes self in cmds @ recv_drop self')
     = (if all_data_read self then []
        else [StreamShutdownRead (rs_conn_id self) (rs_stream_id self)
               (case codes of [] \<Rightarrow> varint_into_inner (varint_from_u32 0) | c # _ \<Rightarrow> varint_into_inner c)])"
  proof (cases codes)
    case Nil
    then show ?thesis by (simp add: recv_drop_def stop_def)
  next
    case (Cons c cs)
    then show ?thesis
      using recv_stop.log_once [of c cs self] recv_stop.closed_after [of c self]
      by (cases "close_log stop codes self") (auto simp: recv_drop_def simp del: close_log.simps)
  qed
  ultimately show ?thesis by (auto cong: list.case_cong split: prod.split)
qed

text \<open>
  C38: polling through \<open>AsyncRead\<close> makes no progress. On a stream that is not yet finished, however
  often it is polled, every poll returns \<open>Pending\<close>, sends one more \<open>StreamRead\<close> of the full room and
  leaves the stream as it was; the background task drops the bytes it receives and only wakes the
  poller again. So a reader that only polls never gets data, although each request takes bytes
  out of TQUIC's buffer.
\<close>

theorem poll_read_never_ready:
  assumes "\<not> all_data_read self"
  shows "fst (poll_read self n t) = Pending
    \<and> shared (fold (\<lambda>n t. snd (poll_read self n t)) ns t)
        = (shared t)\<lparr>cmd_tx := cmd_tx (shared t)
            @ map (\<lambda>(n, r). StreamRead (rs_conn_id self) (rs_stream_id self) n r)
                (zip ns [next_tx t ..< next_tx t + length ns])\<rparr>
    \<and> (\<forall>data fin ev evs. env t = ev # evs \<and> outcome ev = Answered (Some (RespRead (Ok (data, fin)))) \<and> data \<noteq> []
        \<longrightarrow> poll_read_task self t = Finished (t\<lparr>shared := others ev (shared t), env := evs\<rparr>))"
proof -
  have "shared (fold (\<lambda>n t. snd (poll_read self n t)) ns t)
        = (shared t)\<lparr>cmd_tx := cmd_tx (shared t)
            @ map (\<lambda>(n, r). StreamRead (rs_conn_id self) (rs_stream_id self) n r)
                (zip ns [next_tx t ..< next_tx t + length ns])\<rparr>" for ns
  proof (induction ns arbitrary: t)
    case (Cons n ns)
    have "[next_tx t ..< next_tx t + length (n # ns)] = next_tx t # [Suc (next_tx t) ..< Suc (next_tx t) + length ns]"
      by (subst upt_conv_Cons) simp_all
    with Cons [of "snd (poll_read self n t)"] assms show ?case
      by (simp add: poll_read_def send_cmd_def)
  qed simp
  with assms show ?thesis
    by (auto simp: poll_read_def poll_read_task_def await_answer_Some)
qed

theorem poll_read_never_ready_witness:
  "fst (poll_read sample_recv 16 (sample_task [])) = Pending
   \<and> cmd_tx (shared (fold (\<lambda>n t. snd (poll_read sample_recv n t)) [16, 16] (sample_task [])))
     = [StreamRead 7 4 16 0, StreamRead 7 4 16 1]"
proof -
  have "\<not> all_data_read sample_recv" by (simp add: sample_recv_def)
  moreover have "cmd_tx (shared (sample_task [])) = []" "next_tx (sample_task []) = 0"
    by (simp_all add: sample_task_def handler_simps sample_simps)
  ultimately show ?thesis
    using poll_read_never_ready [of sample_recv 16 "sample_task []" "[16, 16]"]
    by (simp add: upt_rec sample_recv_def)
qed

end
