(* ===== verification/Send_Props.thy ===== *)
theory Send_Props
  imports Send_Stream Recv_Props
begin

text \<open>
  Properties of \<open>SendStream\<close>: that \<open>write_all\<close> hands the buffer to TQUIC in order, without loss or
  duplication, and when it returns; that a stream is ended exactly once; the priority clamp; and
  that polling through \<open>AsyncWrite\<close> makes no progress.
\<close>

section \<open>What is written\<close>

text \<open>The data of the write requests for one stream, and the number of bytes each answer took.\<close>

definition written_to :: "u64 \<Rightarrow> u64 \<Rightarrow> BridgeCommand \<Rightarrow> bytes list" where
  "written_to i s cmd = (case cmd of StreamWrite j u data _ _ \<Rightarrow> if j = i \<and> u = s then [data] else [] | _ \<Rightarrow> [])"

definition write_requests :: "u64 \<Rightarrow> u64 \<Rightarrow> BridgeHandle \<Rightarrow> bytes list" where
  "write_requests i s h = concat (map (written_to i s) (cmd_tx h))"

definition taken :: "event \<Rightarrow> nat list" where
  "taken ev = (case outcome ev of
     Answered x \<Rightarrow> [case x of Some (RespWrite (Ok n)) \<Rightarrow> n | _ \<Rightarrow> 0] | _ \<Rightarrow> [])"

abbreviation taken_counts :: "event list \<Rightarrow> nat list" where
  "taken_counts evs \<equiv> concat (map taken evs)"

text \<open>The bytes TQUIC took: of each request the number its answer says.\<close>

definition taken_bytes :: "nat list \<Rightarrow> bytes list \<Rightarrow> bytes" where
  "taken_bytes ns ws = concat (map2 take ns ws)"

lemma taken_bytes_append:
  "length ns = length ws \<Longrightarrow> taken_bytes (ns @ ns') (ws @ ws') = taken_bytes ns ws @ taken_bytes ns' ws'"
  by (simp add: taken_bytes_def)

lemma taken_bytes_single [simp]: "taken_bytes [n] [w] = take n w" "taken_bytes [] ws = []"
  by (simp_all add: taken_bytes_def)

text \<open>Nobody else writes to the stream: the handle is borrowed exclusively.\<close>

definition exclusive :: "u64 \<Rightarrow> u64 \<Rightarrow> event \<Rightarrow> bool" where
  "exclusive i s ev \<longleftrightarrow> (\<forall>h. write_requests i s (others ev h) = write_requests i s h)"

lemma write_requests_send_cmd [simp]:
  "write_requests i s (send_cmd c h) = write_requests i s h @ written_to i s c"
  by (simp add: write_requests_def)

lemma write_requests_with_conn [simp]: "write_requests i s (with_conn j f h) = write_requests i s h"
  by (simp add: write_requests_def)

text \<open>
  One segment of a task: the events it consumes, the requests it sends for the stream, one answer
  to each, and the bytes that were taken.
\<close>

definition segment :: "SendStream \<Rightarrow> task \<Rightarrow> task \<Rightarrow> bytes \<Rightarrow> bool" where
  "segment self t t' bs \<longleftrightarrow> (\<exists>evs ws. env t = evs @ env t'
     \<and> write_requests (ss_conn_id self) (ss_stream_id self) (shared t')
       = write_requests (ss_conn_id self) (ss_stream_id self) (shared t) @ ws
     \<and> length (taken_counts evs) = length ws \<and> taken_bytes (taken_counts evs) ws = bs)"

lemma segment_refl: "segment self t t []"
  unfolding segment_def by (intro exI [of _ "[]"]) simp

lemma segment_trans: "segment self t u bs \<Longrightarrow> segment self u v bs' \<Longrightarrow> segment self t v (bs @ bs')"
  unfolding segment_def
proof (elim exE conjE, goal_cases)
  case (1 evs evs' ws ws')
  then show ?case
    by (intro exI [of _ "evs @ evs'"] exI [of _ "ws @ ws'"]) (simp add: taken_bytes_append)
qed

lemma segment_env: "segment self t t' bs \<Longrightarrow> set (env t') \<subseteq> set (env t)"
  by (auto simp: segment_def)

lemma segment_answer:
  assumes "await_answer write_response
      (send_request (StreamWrite (ss_conn_id self) (ss_stream_id self) buf False) t) = Finished (answer, t1)"
    and "\<forall>ev \<in> set (env t). exclusive (ss_conn_id self) (ss_stream_id self) ev"
  shows "segment self t t1 (case answer of Ok (Ok n) \<Rightarrow> take n buf | _ \<Rightarrow> [])"
proof -
  from assms(1) obtain ev evs where ev: "env t = ev # evs"
    by (cases "env t") (simp_all add: await_answer_Nil)
  have "taken_counts [ev] = [case answer of Ok (Ok n) \<Rightarrow> n | _ \<Rightarrow> 0] \<and> env t1 = evs
      \<and> shared t1 = others ev (shared (send_request (StreamWrite (ss_conn_id self) (ss_stream_id self) buf False) t))"
    using assms(1) ev
    by (auto simp: await_answer_def await_def taken_def elim!: write_response.elims
        split: await_result.split_asm option.split_asm result.split)
  with assms(2) ev show ?thesis
    unfolding segment_def
    by (intro exI [of _ "[ev]"] exI [of _ "[buf]"])
      (simp add: exclusive_def written_to_def split: result.split)
qed

lemma segment_wait:
  assumes "wait_writable borrow self t = Finished (r, t')"
    and "\<forall>ev \<in> set (env t). exclusive (ss_conn_id self) (ss_stream_id self) ev"
  shows "segment self t t' []"
proof (cases "env t")
  case Nil
  with assms(1) have "t' = t"
    by (auto simp: wait_writable_def await_notified_def await_def split: option.split_asm)
  then show ?thesis by (simp add: segment_refl)
next
  case (Cons ev evs)
  have "t' = t \<or> taken_counts [ev] = [] \<and> env t' = evs
      \<and> shared t' = others ev (with_conn (ss_conn_id self) (get_or_create_writable (ss_stream_id self)) (shared t))"
    using assms(1) Cons
    by (auto simp: wait_writable_def await_notified_def await_def taken_def
        split: option.split_asm await_result.split_asm)
  with assms(2) Cons show ?thesis
    unfolding segment_def
    by (auto simp: exclusive_def intro: exI [of _ "[ev]"] exI [of _ "[]"])
qed

lemma write_loop_segment:
  assumes "write_loop borrow self buf t = Finished (r, t')"
    and "\<forall>ev \<in> set (env t). exclusive (ss_conn_id self) (ss_stream_id self) ev"
  shows "segment self t t' (case r of Ok n \<Rightarrow> take n buf | Err _ \<Rightarrow> [])"
  using assms
proof (induction "length (env t)" arbitrary: t rule: less_induct)
  case less
  from less.prems obtain answer t1 where aw: "await_answer write_response
      (send_request (StreamWrite (ss_conn_id self) (ss_stream_id self) buf False) t) = Finished (answer, t1)"
    by (subst (asm) write_loop.simps) (auto simp: and_then_Finished)
  note seg = segment_answer [OF aw less.prems(2)]
  show ?case
  proof (cases "answer = Ok (Ok 0)")
    case False
    with less.prems(1) seg show ?thesis
      by (auto simp: write_loop_answer [OF aw] split: result.split_asm if_split_asm)
  next
    case True
    with less.prems obtain w t2 where w: "wait_writable borrow self t1 = Finished (w, t2)"
      by (auto simp: write_loop_answer [OF aw] and_then_Finished)
    have priv: "\<forall>ev \<in> set (env t1). exclusive (ss_conn_id self) (ss_stream_id self) ev"
      using segment_env [OF seg] less.prems(2) by blast
    have seg2: "segment self t t2 []"
      using segment_trans [OF seg segment_wait [OF w priv]] True by simp
    have "length (env t2) < length (env t)"
      using await_answer_env [OF aw] wait_writable_env [OF w] by simp
    moreover have "\<forall>ev \<in> set (env t2). exclusive (ss_conn_id self) (ss_stream_id self) ev"
      using segment_env [OF seg2] less.prems(2) by blast
    ultimately show ?thesis
      using less.hyps [of t2] less.prems(1) True w seg2 segment_trans [OF seg2]
      by (cases w) (auto simp: write_loop_answer [OF aw])
  qed
qed

lemma write_all_loop_segment:
  assumes "write_all_loop borrow self offset buf t = Finished (r, t')"
    and "\<forall>ev \<in> set (env t). exclusive (ss_conn_id self) (ss_stream_id self) ev"
  shows "\<exists>bs rest. segment self t t' bs \<and> drop offset buf = bs @ rest \<and> (r = Ok () \<longrightarrow> rest = [])"
  using assms
proof (induction "length (env t)" arbitrary: t offset rule: less_induct)
  case less
  show ?case
  proof (cases "offset < length buf")
    case False
    with less.prems(1) show ?thesis
      by (subst (asm) write_all_loop.simps) (auto intro!: exI [of _ "[]"] simp: segment_refl)
  next
    case True
    with less.prems(1) obtain w t1 where w: "send_write borrow self (drop offset buf) t = Finished (w, t1)"
      by (subst (asm) write_all_loop.simps) (auto simp: and_then_Finished)
    have seg: "segment self t t1 (case w of Ok n \<Rightarrow> take n (drop offset buf) | Err _ \<Rightarrow> [])"
      using w write_loop_segment [OF _ less.prems(2)]
      by (auto simp: send_write_def segment_refl split: if_split_asm)
    show ?thesis
    proof (cases w)
      case (Err e)
      with less.prems(1) True w have "r = Err e" "t' = t1"
        by (subst (asm) write_all_loop.simps, simp)+
      with seg Err show ?thesis by (intro exI [of _ "[]"] exI [of _ "drop offset buf"]) simp
    next
      case (Ok n)
      have "write_all_loop borrow self (offset + n) buf t1 = Finished (r, t')"
        using less.prems(1) True w Ok by (subst (asm) write_all_loop.simps) simp
      moreover have "length (env t1) < length (env t)" using w Ok write_Ok_env by blast
      moreover have "\<forall>ev \<in> set (env t1). exclusive (ss_conn_id self) (ss_stream_id self) ev"
        using segment_env [OF seg] less.prems(2) by blast
      ultimately obtain bs rest where bs: "segment self t1 t' bs" "drop (offset + n) buf = bs @ rest"
        "r = Ok () \<longrightarrow> rest = []"
        using less.hyps [of t1 "offset + n"] by blast
      have "drop offset buf = (take n (drop offset buf) @ bs) @ rest"
        using bs(2) by (metis append_take_drop_id append_assoc drop_drop add.commute)
      moreover have "segment self t t' (take n (drop offset buf) @ bs)"
        using segment_trans [OF seg bs(1)] Ok by simp
      ultimately show ?thesis using bs(3) by blast
    qed
  qed
qed

section \<open>When writes return\<close>

type_synonym write_answer = "(unit, (WriteError, nat) result) result"

fun write_outcome :: "write_answer \<Rightarrow> await_result" where
  "write_outcome (Ok x) = Answered (Some (RespWrite x))"
| "write_outcome (Err _) = Answered None"

abbreviation delivers_writes ::
    "(closed_watch \<Rightarrow> ConnectionError option) \<Rightarrow> u64 \<Rightarrow> event list \<Rightarrow> write_answer list \<Rightarrow> event list \<Rightarrow> bool" where
  "delivers_writes \<equiv> delivers write_outcome (Ok (Ok 0))"

fun write_of :: "write_answer \<Rightarrow> (WriteError, nat) result" where
  "write_of (Ok x) = x"
| "write_of (Err _) = Err (WriteConnectionLost LocallyClosed)"

lemma await_write:
  assumes "env t = ev # evs" and "outcome ev = write_outcome a"
  shows "await_answer write_response (send_request c t)
    = Finished (a, (send_request c t)\<lparr>shared := others ev (shared (send_request c t)), env := evs\<rparr>)"
  using assms by (cases a) (simp_all add: await_answer_def await_def)

lemma wait_writable_wakes:
  assumes "env t = ev # evs" and "outcome ev = Notified" and "borrow (held_watch ev) = None"
    and "conn_open borrow (ss_conn_id self) (shared t)" and "keeps_open borrow (ss_conn_id self) ev"
  shows "\<exists>t'. wait_writable borrow self t = Finished (Ok (), t') \<and> env t' = evs
    \<and> conn_open borrow (ss_conn_id self) (shared t')"
proof -
  let ?h = "with_conn (ss_conn_id self) (get_or_create_writable (ss_stream_id self)) (shared t)"
  have "conn_open borrow (ss_conn_id self) ?h" using assms(4) by (simp add: conn_open_with_conn)
  with assms show ?thesis
    by (auto simp: wait_writable_def conn_open_def [of _ _ "shared t"] keeps_open_def await_notified_Notified
        split: option.splits)
qed

interpretation writing: retry_loop write_outcome "Ok (Ok 0)" borrow "ss_conn_id self" "write_loop borrow self buf"
    "\<lambda>a. True" "\<lambda>a t. (write_of a, t)"
  for borrow self buf
proof (unfold_locales, goal_cases)
  case (1 t e1 e2 evs)
  let ?s = "send_request (StreamWrite (ss_conn_id self) (ss_stream_id self) buf False) t"
  let ?t1 = "?s\<lparr>shared := others e1 (shared ?s), env := e2 # evs\<rparr>"
  have "conn_open borrow (ss_conn_id self) (shared ?t1)" using 1 by (simp add: keeps_open_def)
  then obtain t2 where t2: "wait_writable borrow self ?t1 = Finished (Ok (), t2)" "env t2 = evs"
    "conn_open borrow (ss_conn_id self) (shared t2)"
    using wait_writable_wakes [of ?t1 e2 evs borrow self] 1 by auto
  then have "write_loop borrow self buf t = write_loop borrow self buf t2"
    using write_loop_answer [OF await_write [OF 1(1,2)], of borrow] by simp
  with t2 show ?case by blast
next
  case (2 t ev evs a)
  let ?s = "send_request (StreamWrite (ss_conn_id self) (ss_stream_id self) buf False) t"
  let ?t1 = "?s\<lparr>shared := others ev (shared ?s), env := evs\<rparr>"
  have "write_loop borrow self buf t = Finished (write_of a, ?t1)"
    using write_loop_answer [OF await_write [OF 2(1,2)], of borrow self] 2(3)
    by (cases a) (auto split: result.splits)
  with 2 show ?case by (intro exI [of _ ?t1]) (simp add: keeps_open_def)
qed

lemma wait_writable_registers:
  assumes "env t = []" and "conn_open borrow (ss_conn_id self) (shared t)"
  shows "\<exists>h cn. wait_writable borrow self t = Suspended h \<and> conn_states h (ss_conn_id self) = Some cn
    \<and> ss_stream_id self \<in> dom (stream_writable cn)"
  using assms
  by (auto simp: wait_writable_def conn_open_def get_conn_notify_def await_notified_def await_def
      get_or_create_writable_def or_insert_def split: option.split option.split_asm)

lemma write_all_loop_answers:
  assumes "delivers_writes borrow (ss_conn_id self) later (map (\<lambda>n. Ok (Ok n)) ns @ zs) (env t)"
    and "conn_open borrow (ss_conn_id self) (shared t)" and "\<not> finished self" and "offset + sum_list ns < length buf"
  shows "\<exists>t'. write_all_loop borrow self offset buf t = write_all_loop borrow self (offset + sum_list ns) buf t'
    \<and> delivers_writes borrow (ss_conn_id self) later zs (env t') \<and> conn_open borrow (ss_conn_id self) (shared t')"
  using assms
proof (induction ns arbitrary: t offset)
  case Nil
  then show ?case by auto
next
  case (Cons n ns)
  obtain t' where t': "send_write borrow self (drop offset buf) t = Finished (Ok n, t')"
    and keep: "conn_open borrow (ss_conn_id self) (shared t')"
      "delivers_writes borrow (ss_conn_id self) later (map (\<lambda>n. Ok (Ok n)) ns @ zs) (env t')"
    using writing.loop_delivers [of borrow self later "Ok (Ok n)" "map (\<lambda>n. Ok (Ok n)) ns @ zs" t "drop offset buf"]
      Cons.prems by (auto simp: send_write_def)
  have "write_all_loop borrow self offset buf t = write_all_loop borrow self (offset + n) buf t'"
    using t' Cons.prems(4) by (subst write_all_loop.simps) simp
  with Cons.IH [OF keep(2,1) Cons.prems(3), of "offset + n"] Cons.prems(4)
  show ?case by (simp add: add.assoc)
qed

text \<open>With answers that take exactly the buffer, the last one included, nothing else is awaited.\<close>

lemma write_all_loop_exact:
  assumes "delivers_writes borrow (ss_conn_id self) later (map (\<lambda>n. Ok (Ok n)) ns) (env t)"
    and "conn_open borrow (ss_conn_id self) (shared t)" and "\<not> finished self"
    and "\<forall>k < length ns. offset + sum_list (take k ns) < length buf" and "length buf \<le> offset + sum_list ns"
  shows "\<exists>t'. write_all_loop borrow self offset buf t = Finished (Ok (), t') \<and> env t' = later
    \<and> conn_open borrow (ss_conn_id self) (shared t')"
  using assms
proof (induction ns arbitrary: t offset)
  case Nil
  then have "env t = later" using delivers_done by fastforce
  with Nil show ?case by (subst write_all_loop.simps) simp
next
  case (Cons n ns)
  obtain t' where t': "send_write borrow self (drop offset buf) t = Finished (Ok n, t')"
    and keep: "conn_open borrow (ss_conn_id self) (shared t')"
      "delivers_writes borrow (ss_conn_id self) later (map (\<lambda>n. Ok (Ok n)) ns) (env t')"
    using writing.loop_delivers [of borrow self later "Ok (Ok n)" "map (\<lambda>n. Ok (Ok n)) ns" t "drop offset buf"]
      Cons.prems by (auto simp: send_write_def)
  have "offset + n + sum_list (take k ns) < length buf" if "k < length ns" for k
    using Cons.prems(4) that by (fastforce dest: spec [of _ "Suc k"])
  moreover have "offset < length buf" using Cons.prems(4) by (auto dest: spec [of _ 0])
  ultimately show ?case
    using Cons.IH [OF keep(2,1) Cons.prems(3), of "offset + n"] Cons.prems(5) t'
    by (subst write_all_loop.simps) (auto simp: add.assoc)
qed

section \<open>Ending a stream\<close>

interpretation send_finish: close_once finished finish
    "\<lambda>tx self. StreamWrite (ss_conn_id self) (ss_stream_id self) [] True tx" ClosedStream
  by unfold_locales (auto simp: finish_def)

interpretation send_reset: close_once finished reset
    "\<lambda>code self. StreamShutdownWrite (ss_conn_id self) (ss_stream_id self) (varint_into_inner code)" ClosedStream
  by unfold_locales (auto simp: reset_def)

text \<open>Either way to end a stream: \<open>finish\<close> with its responder, or \<open>reset\<close> with its code.\<close>

definition end_stream ::
    "responder + VarInt \<Rightarrow> SendStream \<Rightarrow> (ClosedStream, unit) result \<times> BridgeCommand list \<times> SendStream" where
  "end_stream e self = (case e of Inl tx \<Rightarrow> finish tx self | Inr code \<Rightarrow> reset code self)"

definition end_command :: "responder + VarInt \<Rightarrow> SendStream \<Rightarrow> BridgeCommand" where
  "end_command e self =
     (case e of Inl tx \<Rightarrow> StreamWrite (ss_conn_id self) (ss_stream_id self) [] True tx
      | Inr code \<Rightarrow> StreamShutdownWrite (ss_conn_id self) (ss_stream_id self) (varint_into_inner code))"

interpretation send_end: close_once finished end_stream end_command ClosedStream
  by unfold_locales
    (auto simp: end_stream_def end_command_def send_finish.close_closed send_reset.close_closed
      send_finish.close_open send_reset.close_open split: sum.split)

section \<open>Properties\<close>

definition sample_send :: SendStream where
  "sample_send = \<lparr>ss_conn_id = 7, ss_stream_id = 4, finished = False\<rparr>"

lemma calm_exclusive [simp]: "exclusive i s (calm r)"
  by (simp add: calm_def exclusive_def)

text \<open>
  C3: \<open>write_all\<close> loses and repeats nothing. Whatever the answers, the waits and the errors, each
  request it sends is answered once, and the bytes TQUIC took from the requests, one after the
  other, are a prefix of the buffer; when it succeeds they are the whole buffer.
\<close>

theorem write_all_in_order:
  assumes "write_all borrow self buf t = Finished (r, t')"
    and "\<forall>ev \<in> set (env t). exclusive (ss_conn_id self) (ss_stream_id self) ev"
  shows "\<exists>evs ws rest. env t = evs @ env t'
    \<and> write_requests (ss_conn_id self) (ss_stream_id self) (shared t')
      = write_requests (ss_conn_id self) (ss_stream_id self) (shared t) @ ws
    \<and> length (taken_counts evs) = length ws
    \<and> taken_bytes (taken_counts evs) ws @ rest = buf \<and> (r = Ok () \<longrightarrow> rest = [])"
  using write_all_loop_segment [of borrow self 0 buf t r t'] assms
  by (fastforce simp: write_all_def segment_def)

theorem write_all_in_order_witness:
  "let t = sample_task (map calm [Answered (Some (RespWrite (Ok 2))), Answered (Some (RespWrite (Ok 1)))])
   in \<exists>t' evs ws. write_all last sample_send [1, 2, 3] t = Finished (Ok (), t')
      \<and> env t = evs @ env t' \<and> write_requests 7 4 (shared t') = write_requests 7 4 (shared t) @ ws
      \<and> taken_bytes (taken_counts evs) ws = [1, 2, 3]"
proof -
  let ?t = "sample_task (map calm [Answered (Some (RespWrite (Ok 2))), Answered (Some (RespWrite (Ok 1)))])"
  obtain t' where run: "write_all last sample_send [1, 2, 3] ?t = Finished (Ok (), t')"
    by (simp add: write_all_def write_all_loop.simps send_write_def write_loop.simps sample_send_def
        await_answer_Some)
  have "\<forall>ev \<in> set (env ?t). exclusive (ss_conn_id sample_send) (ss_stream_id sample_send) ev" by simp
  from write_all_in_order [OF run this] obtain evs ws where "env ?t = evs @ env t'"
    "write_requests (ss_conn_id sample_send) (ss_stream_id sample_send) (shared t')
     = write_requests (ss_conn_id sample_send) (ss_stream_id sample_send) (shared ?t) @ ws"
    "taken_bytes (taken_counts evs) ws = [1, 2, 3]" by auto
  moreover have "ss_conn_id sample_send = 7" "ss_stream_id sample_send = 4" by (simp_all add: sample_send_def)
  ultimately have "env ?t = evs @ env t' \<and> write_requests 7 4 (shared t') = write_requests 7 4 (shared ?t) @ ws
      \<and> taken_bytes (taken_counts evs) ws = [1, 2, 3]" by (simp only:)
  with run show ?thesis unfolding Let_def by blast
qed

text \<open>
  C16: when \<open>write_all\<close> of a non-empty buffer returns. Let the connection stay open and the answers
  \<open>ns\<close>, with any number of full-buffer waits in between, have taken less than the buffer. It succeeds
  with an answer that completes the buffer, having awaited nothing else, whatever may come later;
  it returns an error that comes before; and when nothing more is answered it waits, having offered
  exactly the bytes that are left.
\<close>

theorem write_all_returns:
  assumes "\<not> finished self" and "conn_open borrow (ss_conn_id self) (shared t)"
    and "delivers_writes borrow (ss_conn_id self) later (map (\<lambda>n. Ok (Ok n)) ns @ zs) (env t)"
    and "sum_list ns < length buf"
  shows "(\<forall>n. zs = [Ok (Ok n)] \<and> length buf \<le> sum_list ns + n \<longrightarrow>
        (\<exists>t'. write_all borrow self buf t = Finished (Ok (), t') \<and> env t' = later))
    \<and> (\<forall>z e rest. zs = z # rest \<and> write_of z = Err e \<longrightarrow> (\<exists>t'. write_all borrow self buf t = Finished (Err e, t')))
    \<and> (zs = [] \<and> later = [] \<longrightarrow>
        (\<exists>h tx. write_all borrow self buf t = Suspended h
          \<and> pending_request h = StreamWrite (ss_conn_id self) (ss_stream_id self) (drop (sum_list ns) buf) False tx))"
proof -
  obtain t' where start: "write_all borrow self buf t = write_all_loop borrow self (sum_list ns) buf t'"
    and zs: "delivers_writes borrow (ss_conn_id self) later zs (env t')" and op: "conn_open borrow (ss_conn_id self) (shared t')"
    using write_all_loop_answers [OF assms(3,2,1), of 0 buf] assms(4) by (auto simp: write_all_def)
  have "\<exists>t''. write_all borrow self buf t = Finished (Ok (), t'') \<and> env t'' = later"
    if "zs = [Ok (Ok n)]" "length buf \<le> sum_list ns + n" for n
    using write_all_loop_exact [of borrow self later "[n]" t' "sum_list ns" buf] zs op assms(1,4) that start by auto
  moreover have "\<exists>t''. write_all borrow self buf t = Finished (Err e, t'')"
    if z: "zs = z # rest" "write_of z = Err e" for z e rest
  proof -
    from writing.loop_delivers [OF zs [unfolded z(1)] op, of "drop (sum_list ns) buf"] z(2) assms(1)
    obtain t'' where "send_write borrow self (drop (sum_list ns) buf) t' = Finished (Err e, t'')"
      by (auto simp: send_write_def)
    with start assms(4) show ?thesis by (subst (asm) write_all_loop.simps) auto
  qed
  moreover have "\<exists>h tx. write_all borrow self buf t = Suspended h
      \<and> pending_request h = StreamWrite (ss_conn_id self) (ss_stream_id self) (drop (sum_list ns) buf) False tx"
    if "zs = []" "later = []"
  proof -
    have "env t' = []" using zs that delivers_done by fastforce
    with start assms(1,4) show ?thesis
      by (subst (asm) write_all_loop.simps) (auto simp: send_write_def write_loop.simps await_answer_Nil)
  qed
  ultimately show ?thesis by blast
qed

theorem write_all_returns_witness:
  "\<exists>t'. write_all last sample_send [1, 2, 3]
      (sample_task (map calm [Answered (Some (RespWrite (Ok 0))), Notified, Answered (Some (RespWrite (Ok 2))),
         Answered (Some (RespWrite (Ok 1)))]))
    = Finished (Ok (), t') \<and> env t' = []"
proof -
  let ?evs = "map calm [Answered (Some (RespWrite (Ok 0))), Notified, Answered (Some (RespWrite (Ok 2))),
    Answered (Some (RespWrite (Ok 1)))]"
  have "delivers_writes last 7 [] (map (\<lambda>n. Ok (Ok n)) [2] @ [Ok (Ok 1)]) ?evs"
    by (simp, rule delivers.stall, simp_all, rule delivers.answer, simp_all, rule delivers.answer)
      (simp_all add: delivers.nothing)
  then show ?thesis
    using write_all_returns [of sample_send last "sample_task ?evs" "[]" "[2]" "[Ok (Ok 1)]" "[1, 2, 3]"]
    by (auto simp: sample_send_def)
qed

text \<open>
  C18: a send stream is ended exactly once: whatever mix of \<open>finish\<close> and \<open>reset\<close> is called before it
  is dropped, exactly one ending command is sent, that of the first call, or a FIN by the drop if
  there was none; every later call fails with \<open>ClosedStream\<close>; and on an ended stream \<open>write\<close>,
  \<open>poll_write\<close> and \<open>set_priority\<close> fail without sending anything.
\<close>

theorem send_ended_once:
  "(let (cmds, self') = close_log end_stream es self in cmds @ send_drop tx self')
     = (if finished self then []
        else [case es of [] \<Rightarrow> end_command (Inl tx) self | e # _ \<Rightarrow> end_command e self])
   \<and> (case end_stream e self of (r, cmds, self') \<Rightarrow>
        end_stream e' self' = (Err ClosedStream, [], self')
        \<and> send_write borrow self' buf t = Finished (Err WriteClosedStream, t)
        \<and> poll_write self' buf t = (Ready (Err ''stream finished''), t)
        \<and> set_priority p self' = (Err ClosedStream, [])
        \<and> poll_shutdown tx self' = (Ready (Err ''stream already closed''), [], self'))"
proof -
  have log: "(let (cmds, self') = close_log end_stream es self in cmds @ send_drop tx self')
     = (if finished self then []
        else [case es of [] \<Rightarrow> end_command (Inl tx) self | e # _ \<Rightarrow> end_command e self])"
  proof (cases es)
    case Nil
    then show ?thesis by (simp add: send_drop_def finish_def end_command_def)
  next
    case (Cons e es')
    then show ?thesis
      using send_end.log_once [of e es' self] send_end.closed_after [of e self]
      by (cases "close_log end_stream es self") (auto simp: send_drop_def simp del: close_log.simps)
  qed
  obtain r cmds self' where e: "end_stream e self = (r, cmds, self')" by (cases "end_stream e self")
  then have "finished self'" using send_end.closed_after [of e self] by simp
  with log e send_end.close_twice [OF e] show ?thesis
    by (simp add: send_write_def poll_write_def set_priority_def poll_shutdown_def finish_def)
qed

text \<open>
  A priority reaches TQUIC clamped to 0 to 255 as a signed number: negative ones become 0,
  those above 255 become 255, the others are unchanged.
\<close>

lemma priority_clamped:
  assumes "\<not> finished self"
  shows "set_priority p self
      = (Ok (), [StreamSetPriority (ss_conn_id self) (ss_stream_id self) (clamp_urgency p)])
    \<and> int (unat (clamp_urgency p)) = max 0 (min 255 (sint p))"
proof -
  have "int (unat (ucast p :: u8)) = sint p" if "0 \<le> sint p" "sint p \<le> 255"
  proof -
    have "uint p = sint p" using that by (simp add: uint_sint take_bit_eq_mod)
    moreover have "uint (ucast p :: u8) = uint p mod 256"
      by (simp add: unsigned_ucast_eq take_bit_eq_mod)
    ultimately show ?thesis using that by simp
  qed
  with assms show ?thesis by (auto simp: set_priority_def clamp_urgency_def)
qed

text \<open>
  C39: polling through \<open>AsyncWrite\<close> never completes a write: on an open stream every poll returns
  \<open>Pending\<close> and sends the whole buffer again, so that polling as often as it is woken hands TQUIC
  the same bytes once per poll, and the number of bytes taken is never reported.
\<close>

theorem poll_write_never_ready:
  assumes "\<not> finished self"
  shows "fst (poll_write self buf t) = Pending
    \<and> write_requests (ss_conn_id self) (ss_stream_id self)
        (shared (((\<lambda>t. snd (poll_write self buf t)) ^^ k) t))
      = write_requests (ss_conn_id self) (ss_stream_id self) (shared t) @ replicate k buf"
proof -
  have "write_requests (ss_conn_id self) (ss_stream_id self)
        (shared (((\<lambda>t. snd (poll_write self buf t)) ^^ k) t))
      = write_requests (ss_conn_id self) (ss_stream_id self) (shared t) @ replicate k buf"
    by (induction k) (use assms in \<open>simp_all add: poll_write_def written_to_def replicate_append_same [symmetric]\<close>)
  with assms show ?thesis by (simp add: poll_write_def)
qed

theorem poll_write_never_ready_witness:
  "fst (poll_write sample_send [1, 2] (sample_task [])) = Pending
   \<and> write_requests 7 4 (shared (((\<lambda>t. snd (poll_write sample_send [1, 2] t)) ^^ 2) (sample_task [])))
     = [[1, 2], [1, 2]]"
proof -
  have "write_requests 7 4 (shared (sample_task [])) = []"
    by (simp add: write_requests_def sample_task_def on_conn_created_def sample_handler_def
        BridgeHandle_new_def Let_def)
  then show ?thesis
    using poll_write_never_ready [of sample_send "[1, 2]" "sample_task []" 2]
    by (simp add: sample_send_def numeral_2_eq_2)
qed

end
