(* ===== verification/Connection.thy ===== *)
theory Connection
  imports Send_Props
begin

text \<open>
  \<^verbatim>\<open>src/connection.rs\<close>: the \<open>Connecting\<close> future, \<open>Connection\<close> and its operations, and the futures
  that open and accept streams. A handle is a pair of a connection index and the shared
  \<open>BridgeHandle\<close>; the latter is passed explicitly. What polling a oneshot receiver returns at the
  moment of a poll is an argument of the poll.
\<close>

type_synonym 'a rx_poll = "(unit, 'a) result poll"

record Connection =
  c_conn_id :: u64

section \<open>Connecting\<close>

record Connecting =
  id_rx :: "responder option"
  ct_conn_id :: "u64 option"
  ct_remote_addr :: SocketAddr

definition new_client :: "responder \<Rightarrow> SocketAddr \<Rightarrow> Connecting" where
  "new_client rx remote_addr = \<lparr>id_rx = Some rx, ct_conn_id = None, ct_remote_addr = remote_addr\<rparr>"

definition new_server :: "u64 \<Rightarrow> SocketAddr \<Rightarrow> Connecting" where
  "new_server conn_id remote_addr = \<lparr>id_rx = None, ct_conn_id = Some conn_id, ct_remote_addr = remote_addr\<rparr>"

datatype ZeroRttAccepted = ZeroRttAccepted

definition into_0rtt :: "Connecting \<Rightarrow> (Connecting, Connection \<times> ZeroRttAccepted) result" where
  "into_0rtt self = Err self"

definition zero_rtt_poll :: "ZeroRttAccepted \<Rightarrow> bool poll" where
  "zero_rtt_poll self = Ready False"

definition connecting_remote_address :: "Connecting \<Rightarrow> BridgeHandle \<Rightarrow> SocketAddr" where
  "connecting_remote_address self h =
     (case ct_conn_id self of
        Some conn_id \<Rightarrow>
          (case get_conn_notify conn_id h of
             Some cn \<Rightarrow> cn_remote_addr cn
           | None \<Rightarrow> ct_remote_addr self)
      | None \<Rightarrow> ct_remote_addr self)"

text \<open>Phase 1 of \<open>poll\<close>: either the poll returns at once, or the index is known.\<close>

definition resolve_conn_id ::
    "(ConnectError, u64) result rx_poll \<Rightarrow> Connecting
     \<Rightarrow> (ConnectionError, Connection) result poll \<times> Connecting + u64 \<times> Connecting" where
  "resolve_conn_id rx self =
     (case ct_conn_id self of
        Some conn_id \<Rightarrow> Inr (conn_id, self)
      | None \<Rightarrow>
          (case id_rx self of
             None \<Rightarrow> Inl (Ready (Err LocallyClosed), self)
           | Some _ \<Rightarrow>
               (case rx of
                  Ready (Ok (Ok i)) \<Rightarrow> Inr (i, self\<lparr>ct_conn_id := Some i, id_rx := None\<rparr>)
                | Ready (Ok (Err e)) \<Rightarrow> Inl (Ready (Err (from_connect_error e)), self)
                | Ready (Err _) \<Rightarrow> Inl (Ready (Err LocallyClosed), self)
                | Pending \<Rightarrow> Inl (Pending, self))))"

text \<open>
  The two checks of the entry, in their order: established first, then closed. They are made
  once before the waker is registered and once after.
\<close>

definition check_entry ::
    "(closed_watch \<Rightarrow> ConnectionError option) \<Rightarrow> u64 \<Rightarrow> ConnNotify
     \<Rightarrow> (ConnectionError, Connection) result option" where
  "check_entry borrow conn_id cn =
     (if is_established cn then Some (Ok \<lparr>c_conn_id = conn_id\<rparr>)
      else case borrow (closed_tx cn) of Some err \<Rightarrow> Some (Err err) | None \<Rightarrow> None)"

definition register_waker :: "waker \<Rightarrow> ConnNotify \<Rightarrow> ConnNotify" where
  "register_waker w cn = cn\<lparr>establish_waker := Some w\<rparr>"

text \<open>
  \<open>meanwhile\<close> is what the TQUIC thread does between the registration of the waker and the second
  check, which reads the flag and the watch in one step here; \<open>race_step\<close> in the theory \<open>Wakeups\<close>
  has the poll with one step per access. An entry is never removed.
\<close>

definition connecting_poll ::
    "(closed_watch \<Rightarrow> ConnectionError option) \<Rightarrow> waker \<Rightarrow> (ConnectError, u64) result rx_poll
     \<Rightarrow> (BridgeHandle \<Rightarrow> BridgeHandle) \<Rightarrow> Connecting \<Rightarrow> BridgeHandle
     \<Rightarrow> (ConnectionError, Connection) result poll \<times> Connecting \<times> BridgeHandle" where
  "connecting_poll borrow w rx meanwhile self h =
     (case resolve_conn_id rx self of
        Inl (r, self) \<Rightarrow> (r, self, h)
      | Inr (conn_id, self) \<Rightarrow>
          (case get_conn_notify conn_id h of
             None \<Rightarrow> (Ready (Err LocallyClosed), self, h)
           | Some cn \<Rightarrow>
               (case check_entry borrow conn_id cn of
                  Some r \<Rightarrow> (Ready r, self, h)
                | None \<Rightarrow>
                    (let h = meanwhile (with_conn conn_id (register_waker w) h) in
                     case map_option (check_entry borrow conn_id) (get_conn_notify conn_id h) of
                       Some (Some r) \<Rightarrow> (Ready r, self, h)
                     | _ \<Rightarrow> (Pending, self, h)))))"

section \<open>Connection\<close>

definition check_closed ::
    "(closed_watch \<Rightarrow> ConnectionError option) \<Rightarrow> Connection \<Rightarrow> BridgeHandle \<Rightarrow> ConnectionError option" where
  "check_closed borrow self h =
     Option.bind (get_conn_notify (c_conn_id self) h) (\<lambda>cn. borrow (closed_tx cn))"

definition close_reason ::
    "(closed_watch \<Rightarrow> ConnectionError option) \<Rightarrow> Connection \<Rightarrow> BridgeHandle \<Rightarrow> ConnectionError option" where
  "close_reason borrow self h =
     Option.bind (get_conn_notify (c_conn_id self) h) (\<lambda>cn. borrow (closed_tx cn))"

definition conn_close_api :: "VarInt \<Rightarrow> bytes \<Rightarrow> Connection \<Rightarrow> BridgeHandle \<Rightarrow> BridgeHandle" where
  "conn_close_api error_code reason self h =
     send_cmd (CloseConnection (c_conn_id self) (varint_into_inner error_code) reason) h"

definition remote_address :: "Connection \<Rightarrow> BridgeHandle \<Rightarrow> SocketAddr" where
  "remote_address self h =
     unwrap_or (map_option cn_remote_addr (get_conn_notify (c_conn_id self) h)) addr_unspecified"

definition side :: "Connection \<Rightarrow> BridgeHandle \<Rightarrow> Side" where
  "side self h =
     unwrap_or (map_option (\<lambda>cn. if cn_is_server cn then Server else Client)
       (get_conn_notify (c_conn_id self) h)) Client"

definition stable_id :: "Connection \<Rightarrow> nat" where
  "stable_id self = unat (c_conn_id self)"

text \<open>\<open>rtt\<close> blocks for the answer; what \<open>blocking_recv\<close> returns is the argument.\<close>

definition rtt_request :: "responder \<Rightarrow> Connection \<Rightarrow> BridgeHandle \<Rightarrow> BridgeHandle" where
  "rtt_request tx self h = send_cmd (GetRtt (c_conn_id self) tx) h"

definition rtt_result :: "(unit, Duration option) result \<Rightarrow> Duration" where
  "rtt_result answer = unwrap_or (Option.bind (result_ok answer) id) (duration_from_millis 0)"

section \<open>Datagrams\<close>

definition send_datagram :: "bytes \<Rightarrow> Connection \<Rightarrow> (SendDatagramError, unit) result" where
  "send_datagram data self = Err UnsupportedByPeer"

definition send_datagram_poll :: "Connection \<Rightarrow> (SendDatagramError, unit) result poll" where
  "send_datagram_poll self = Ready (Err UnsupportedByPeer)"

definition max_datagram_size :: "Connection \<Rightarrow> nat option" where
  "max_datagram_size self = None"

text \<open>The flag tells that a background task was started that wakes the poller on the close.\<close>

definition read_datagram_poll ::
    "(closed_watch \<Rightarrow> ConnectionError option) \<Rightarrow> Connection \<Rightarrow> BridgeHandle
     \<Rightarrow> (ConnectionError, bytes) result poll \<times> bool" where
  "read_datagram_poll borrow self h =
     (case check_closed borrow self h of
        Some err \<Rightarrow> (Ready (Err err), False)
      | None \<Rightarrow>
          (case get_conn_notify (c_conn_id self) h of
             None \<Rightarrow> (Ready (Err LocallyClosed), False)
           | Some cn \<Rightarrow> (Pending, True)))"

section \<open>Opening streams\<close>

record Opening =
  op_conn :: Connection
  op_rx :: "responder option"

definition open_bi :: "Connection \<Rightarrow> Opening" where
  "open_bi self = \<lparr>op_conn = self, op_rx = None\<rparr>"

definition open_uni :: "Connection \<Rightarrow> Opening" where
  "open_uni self = \<lparr>op_conn = self, op_rx = None\<rparr>"

text \<open>The first poll sends the request, unless the connection is closed.\<close>

definition open_start ::
    "(closed_watch \<Rightarrow> ConnectionError option) \<Rightarrow> (u64 \<Rightarrow> responder \<Rightarrow> BridgeCommand) \<Rightarrow> responder
     \<Rightarrow> Opening \<Rightarrow> BridgeHandle \<Rightarrow> (ConnectionError, Opening \<times> BridgeHandle) result" where
  "open_start borrow request tx self h =
     (case op_rx self of
        Some _ \<Rightarrow> Ok (self, h)
      | None \<Rightarrow>
          (case check_closed borrow (op_conn self) h of
             Some err \<Rightarrow> Err err
           | None \<Rightarrow>
               Ok (self\<lparr>op_rx := Some tx\<rparr>, send_cmd (request (c_conn_id (op_conn self)) tx) h)))"

fun open_answer :: "(u64 \<Rightarrow> 'a) \<Rightarrow> (ConnectionError, u64) result rx_poll \<Rightarrow> (ConnectionError, 'a) result poll" where
  "open_answer mk (Ready (Ok (Ok stream_id))) = Ready (Ok (mk stream_id))"
| "open_answer mk (Ready (Ok (Err e))) = Ready (Err e)"
| "open_answer mk (Ready (Err _)) = Ready (Err LocallyClosed)"
| "open_answer mk Pending = Pending"

definition new_send_stream :: "u64 \<Rightarrow> u64 \<Rightarrow> SendStream" where
  "new_send_stream conn_id stream_id = \<lparr>ss_conn_id = conn_id, ss_stream_id = stream_id, finished = False\<rparr>"

definition new_recv_stream :: "u64 \<Rightarrow> u64 \<Rightarrow> RecvStream" where
  "new_recv_stream conn_id stream_id = \<lparr>rs_conn_id = conn_id, rs_stream_id = stream_id, all_data_read = False\<rparr>"

definition open_bi_poll ::
    "(closed_watch \<Rightarrow> ConnectionError option) \<Rightarrow> responder \<Rightarrow> (ConnectionError, u64) result rx_poll
     \<Rightarrow> Opening \<Rightarrow> BridgeHandle
     \<Rightarrow> (ConnectionError, SendStream \<times> RecvStream) result poll \<times> Opening \<times> BridgeHandle" where
  "open_bi_poll borrow tx rx self h =
     (case open_start borrow OpenBiStream tx self h of
        Err err \<Rightarrow> (Ready (Err err), self, h)
      | Ok (self, h) \<Rightarrow>
          (open_answer (\<lambda>stream_id.
              (new_send_stream (c_conn_id (op_conn self)) stream_id,
               new_recv_stream (c_conn_id (op_conn self)) stream_id)) rx, self, h))"

definition open_uni_poll ::
    "(closed_watch \<Rightarrow> ConnectionError option) \<Rightarrow> responder \<Rightarrow> (ConnectionError, u64) result rx_poll
     \<Rightarrow> Opening \<Rightarrow> BridgeHandle
     \<Rightarrow> (ConnectionError, SendStream) result poll \<times> Opening \<times> BridgeHandle" where
  "open_uni_poll borrow tx rx self h =
     (case open_start borrow OpenUniStream tx self h of
        Err err \<Rightarrow> (Ready (Err err), self, h)
      | Ok (self, h) \<Rightarrow>
          (open_answer (new_send_stream (c_conn_id (op_conn self))) rx, self, h))"

section \<open>Accepting streams and waiting for the close\<close>

definition await_lock :: "task \<Rightarrow> task run" where
  "await_lock t = and_then (await t) (\<lambda>(r, w, t). case r of Locked \<Rightarrow> Finished t | _ \<Rightarrow> Suspended (shared t))"

text \<open>The \<open>select!\<close> of a stream queue and the close watch: which branch, and the watch then.\<close>

definition await_stream_or_close :: "task \<Rightarrow> (u64 option option \<times> closed_watch \<times> task) run" where
  "await_stream_or_close t = and_then (await t) (\<lambda>(r, w, t).
     case r of
       Received stream_id \<Rightarrow> Finished (Some stream_id, w, t)
     | Changed _ \<Rightarrow> Finished (None, w, t)
     | _ \<Rightarrow> Suspended (shared t))"

definition await_changed :: "task \<Rightarrow> (bool \<times> closed_watch \<times> task) run" where
  "await_changed t = and_then (await t) (\<lambda>(r, w, t).
     case r of Changed b \<Rightarrow> Finished (b, w, t) | _ \<Rightarrow> Suspended (shared t))"

lemma await_lock_env: "await_lock t = Finished t' \<Longrightarrow> length (env t') < length (env t)"
  by (cases "env t") (auto simp: await_lock_def await_def split: await_result.split_asm)

lemma await_stream_or_close_env:
  "await_stream_or_close t = Finished (r, w, t') \<Longrightarrow> length (env t') < length (env t)"
  by (cases "env t") (auto simp: await_stream_or_close_def await_def split: await_result.split_asm)

lemma await_changed_env: "await_changed t = Finished (r, w, t') \<Longrightarrow> length (env t') < length (env t)"
  by (cases "env t") (auto simp: await_changed_def await_def split: await_result.split_asm)

text \<open>\<open>closed\<close> is what the close watch of the connection holds when the round starts.\<close>

function accept_bi_loop ::
    "(closed_watch \<Rightarrow> ConnectionError option) \<Rightarrow> u64 \<Rightarrow> closed_watch \<Rightarrow> task
     \<Rightarrow> ((ConnectionError, SendStream \<times> RecvStream) result \<times> task) run" where
  "accept_bi_loop borrow conn_id closed t =
     (case borrow closed of
        Some err \<Rightarrow> Finished (Err err, t)
      | None \<Rightarrow>
          and_then (await_lock t) (\<lambda>t.
          and_then (await_stream_or_close t) (\<lambda>(branch, closed, t).
            case branch of
              Some (Some stream_id) \<Rightarrow>
                Finished (Ok (new_send_stream conn_id stream_id, new_recv_stream conn_id stream_id), t)
            | Some None \<Rightarrow> Finished (Err LocallyClosed, t)
            | None \<Rightarrow>
                (case borrow closed of
                   Some err \<Rightarrow> Finished (Err err, t)
                 | None \<Rightarrow> accept_bi_loop borrow conn_id closed t))))"
  by pat_completeness auto

termination
  by (relation "measure (\<lambda>(_, _, _, t). length (env t))")
    (auto dest!: await_lock_env await_stream_or_close_env)

declare accept_bi_loop.simps [simp del]

definition accept_bi ::
    "(closed_watch \<Rightarrow> ConnectionError option) \<Rightarrow> Connection \<Rightarrow> task
     \<Rightarrow> ((ConnectionError, SendStream \<times> RecvStream) result \<times> task) run" where
  "accept_bi borrow self t =
     (case get_conn_notify (c_conn_id self) (shared t) of
        None \<Rightarrow> Finished (Err LocallyClosed, t)
      | Some cn \<Rightarrow> accept_bi_loop borrow (c_conn_id self) (closed_tx cn) t)"

function accept_uni_loop ::
    "(closed_watch \<Rightarrow> ConnectionError option) \<Rightarrow> u64 \<Rightarrow> closed_watch \<Rightarrow> task
     \<Rightarrow> ((ConnectionError, RecvStream) result \<times> task) run" where
  "accept_uni_loop borrow conn_id closed t =
     (case borrow closed of
        Some err \<Rightarrow> Finished (Err err, t)
      | None \<Rightarrow>
          and_then (await_lock t) (\<lambda>t.
          and_then (await_stream_or_close t) (\<lambda>(branch, closed, t).
            case branch of
              Some (Some stream_id) \<Rightarrow> Finished (Ok (new_recv_stream conn_id stream_id), t)
            | Some None \<Rightarrow> Finished (Err LocallyClosed, t)
            | None \<Rightarrow>
                (case borrow closed of
                   Some err \<Rightarrow> Finished (Err err, t)
                 | None \<Rightarrow> accept_uni_loop borrow conn_id closed t))))"
  by pat_completeness auto

termination
  by (relation "measure (\<lambda>(_, _, _, t). length (env t))")
    (auto dest!: await_lock_env await_stream_or_close_env)

declare accept_uni_loop.simps [simp del]

definition accept_uni ::
    "(closed_watch \<Rightarrow> ConnectionError option) \<Rightarrow> Connection \<Rightarrow> task
     \<Rightarrow> ((ConnectionError, RecvStream) result \<times> task) run" where
  "accept_uni borrow self t =
     (case get_conn_notify (c_conn_id self) (shared t) of
        None \<Rightarrow> Finished (Err LocallyClosed, t)
      | Some cn \<Rightarrow> accept_uni_loop borrow (c_conn_id self) (closed_tx cn) t)"

function closed_loop ::
    "(closed_watch \<Rightarrow> ConnectionError option) \<Rightarrow> closed_watch \<Rightarrow> task \<Rightarrow> (ConnectionError \<times> task) run" where
  "closed_loop borrow closed t =
     (case borrow closed of
        Some err \<Rightarrow> Finished (err, t)
      | None \<Rightarrow>
          and_then (await_changed t) (\<lambda>(alive, closed, t).
            if \<not> alive then Finished (LocallyClosed, t) else closed_loop borrow closed t))"
  by pat_completeness auto

termination
  by (relation "measure (\<lambda>(_, _, t). length (env t))") (auto dest!: await_changed_env)

declare closed_loop.simps [simp del]

definition closed ::
    "(closed_watch \<Rightarrow> ConnectionError option) \<Rightarrow> Connection \<Rightarrow> task \<Rightarrow> (ConnectionError \<times> task) run" where
  "closed borrow self t =
     (case get_conn_notify (c_conn_id self) (shared t) of
        None \<Rightarrow> Finished (LocallyClosed, t)
      | Some cn \<Rightarrow> closed_loop borrow (closed_tx cn) t)"

end
