(* ===== verification/Connection_Props.thy ===== *)
theory Connection_Props
  imports Connection
begin

text \<open>
  Properties of the connection API: the \<open>Connecting\<close> future is never forgotten by the TQUIC
  thread, a closed connection fails every operation with the recorded reason, opening a stream
  sends one request however often it is polled, accepting returns the stream that was received.
\<close>

section \<open>Entries over callbacks\<close>

lemma close_error_Some [simp]: "close_error conn \<noteq> None"
  by (simp add: close_error_def split: option.split)

lemma entry_step_quiet:
  assumes "\<not> is_created cb" and "watch_law borrow" and "\<not> is_established (entry_step cb cn)"
    and "borrow (closed_tx (entry_step cb cn)) = None"
  shows "establish_waker (entry_step cb cn) = establish_waker cn \<and> \<not> is_established cn
    \<and> borrow (closed_tx cn) = None"
  using assms
  by (cases cb) (auto simp: is_created_def stream_created_def stream_became_readable_def
      stream_became_writable_def stream_was_closed_def Let_def split: if_split_asm)

text \<open>An entry that is neither established nor closed after a run still has its waker.\<close>

lemma entry_run_waker:
  assumes "\<forall>cb \<in> set cbs. \<not> is_created cb" and "watch_law borrow"
    and "\<not> is_established (fold entry_step cbs cn)" and "borrow (closed_tx (fold entry_step cbs cn)) = None"
  shows "establish_waker (fold entry_step cbs cn) = establish_waker cn"
  using assms
proof (induction cbs rule: rev_induct)
  case (snoc cb cbs)
  with entry_step_quiet [of cb borrow "fold entry_step cbs cn"] show ?case by simp
qed simp

definition callbacks_on :: "BridgeTransportHandler \<Rightarrow> tquic_callback list \<Rightarrow> BridgeHandle \<Rightarrow> BridgeHandle" where
  "callbacks_on s cbs h = handle (run_callbacks cbs (s\<lparr>handle := h\<rparr>))"

lemma callbacks_on_entry:
  assumes "conn_states h i = Some cn" and "\<not> created_in i cbs"
  shows "conn_states (callbacks_on s cbs h) i = Some (fold entry_step (filter (\<lambda>cb. callback_id cb = i) cbs) cn)"
  using run_callbacks_entry [of "s\<lparr>handle := h\<rparr>" i cn cbs] assms by (simp add: callbacks_on_def)

lemma check_entry_cases:
  "check_entry borrow i cn = Some r \<longleftrightarrow>
     is_established cn \<and> r = Ok \<lparr>c_conn_id = i\<rparr>
     \<or> \<not> is_established cn \<and> (\<exists>e. borrow (closed_tx cn) = Some e \<and> r = Err e)"
  "check_entry borrow i cn = None \<longleftrightarrow> \<not> is_established cn \<and> borrow (closed_tx cn) = None"
  by (auto simp: check_entry_def split: option.splits)

section \<open>Opening streams\<close>

text \<open>The requests to open a stream on a connection that have been sent.\<close>

definition opens :: "u64 \<Rightarrow> BridgeCommand \<Rightarrow> bool" where
  "opens i cmd \<longleftrightarrow> (case cmd of OpenBiStream j _ \<Rightarrow> j = i | OpenUniStream j _ \<Rightarrow> j = i | _ \<Rightarrow> False)"

definition open_requests :: "u64 \<Rightarrow> BridgeHandle \<Rightarrow> BridgeCommand list" where
  "open_requests i h = filter (opens i) (cmd_tx h)"

text \<open>
  A future that is polled again and again: each poll has its own receiver state and is followed
  by what the others do, who do not open streams on this connection.
\<close>

fun poll_again ::
    "(responder \<Rightarrow> 'a rx_poll \<Rightarrow> Opening \<Rightarrow> BridgeHandle \<Rightarrow> 'r poll \<times> Opening \<times> BridgeHandle)
     \<Rightarrow> (responder \<times> 'a rx_poll \<times> (BridgeHandle \<Rightarrow> BridgeHandle)) list \<Rightarrow> Opening \<Rightarrow> BridgeHandle
     \<Rightarrow> Opening \<times> BridgeHandle" where
  "poll_again p [] self h = (self, h)"
| "poll_again p ((tx, rx, f) # ps) self h =
     (case p tx rx self h of (r, self', h') \<Rightarrow> poll_again p ps self' (f h'))"

text \<open>What the two futures have in common: a request is sent at most by the first poll.\<close>

locale one_request =
  fixes p :: "responder \<Rightarrow> 'a rx_poll \<Rightarrow> Opening \<Rightarrow> BridgeHandle \<Rightarrow> 'r poll \<times> Opening \<times> BridgeHandle"
    and request :: "u64 \<Rightarrow> responder \<Rightarrow> BridgeCommand"
    and borrow :: "closed_watch \<Rightarrow> ConnectionError option"
  assumes started: "op_rx self = Some x \<Longrightarrow> snd (p tx rx self h) = (self, h)"
    and start_closed: "op_rx self = None \<Longrightarrow> check_closed borrow (op_conn self) h = Some e
      \<Longrightarrow> snd (p tx rx self h) = (self, h)"
    and start_open: "op_rx self = None \<Longrightarrow> check_closed borrow (op_conn self) h = None
      \<Longrightarrow> snd (p tx rx self h)
        = (self\<lparr>op_rx := Some tx\<rparr>, send_cmd (request (c_conn_id (op_conn self)) tx) h)"
    and request_opens: "opens i (request i tx)"
begin

lemma no_more_requests:
  assumes "op_rx self = Some x" and "\<forall>q \<in> set ps. \<forall>h. open_requests i (snd (snd q) h) = open_requests i h"
  shows "open_requests i (snd (poll_again p ps self h)) = open_requests i h"
  using assms
proof (induction ps arbitrary: h)
  case (Cons q ps)
  obtain tx rx f where q: "q = (tx, rx, f)" by (cases q)
  have "snd (p tx rx self h) = (self, h)" by (rule started [OF Cons.prems(1)])
  with Cons q show ?case by (cases "p tx rx self h") simp
qed simp

lemma at_most_one_request:
  assumes "op_rx self = None" and "c_conn_id (op_conn self) = i"
    and "\<forall>q \<in> set ps. \<forall>h. open_requests i (snd (snd q) h) = open_requests i h"
  shows "open_requests i (snd (poll_again p ps self h)) = open_requests i h
    \<or> (\<exists>tx. open_requests i (snd (poll_again p ps self h)) = open_requests i h @ [request i tx])"
  using assms
proof (induction ps arbitrary: h)
  case (Cons q ps)
  obtain tx rx f where q: "q = (tx, rx, f)" by (cases q)
  show ?case
  proof (cases "check_closed borrow (op_conn self) h")
    case None
    have step: "snd (p tx rx self h)
        = (self\<lparr>op_rx := Some tx\<rparr>, send_cmd (request (c_conn_id (op_conn self)) tx) h)"
      by (rule start_open [OF Cons.prems(1) None])
    have "open_requests i (send_cmd (request i tx) h) = open_requests i h @ [request i tx]"
      by (simp add: open_requests_def request_opens)
    with step q no_more_requests [of "self\<lparr>op_rx := Some tx\<rparr>" tx ps i "f (send_cmd (request i tx) h)"]
      Cons.prems show ?thesis by (cases "p tx rx self h") auto
  next
    case (Some e)
    with start_closed [OF Cons.prems(1) Some, of tx rx] Cons.IH [of "f h"] Cons.prems q show ?thesis
      by (cases "p tx rx self h") simp
  qed
qed simp

end

lemma open_start_cases:
  "op_rx self = Some x \<Longrightarrow> open_start borrow request tx self h = Ok (self, h)"
  "op_rx self = None \<Longrightarrow> check_closed borrow (op_conn self) h = Some e
    \<Longrightarrow> open_start borrow request tx self h = Err e"
  "op_rx self = None \<Longrightarrow> check_closed borrow (op_conn self) h = None
    \<Longrightarrow> open_start borrow request tx self h
      = Ok (self\<lparr>op_rx := Some tx\<rparr>, send_cmd (request (c_conn_id (op_conn self)) tx) h)"
  by (simp_all add: open_start_def)

interpretation bi: one_request "open_bi_poll borrow" OpenBiStream borrow for borrow
  by unfold_locales (simp_all add: open_bi_poll_def open_start_cases opens_def)

interpretation uni: one_request "open_uni_poll borrow" OpenUniStream borrow for borrow
  by unfold_locales (simp_all add: open_uni_poll_def open_start_cases opens_def)

section \<open>Accepting streams\<close>

text \<open>Rounds of an accept loop that find neither a stream nor a close.\<close>

fun idle_rounds :: "(closed_watch \<Rightarrow> ConnectionError option) \<Rightarrow> event list \<Rightarrow> bool" where
  "idle_rounds borrow [] = True"
| "idle_rounds borrow (lk # e # rest) =
     (outcome lk = Locked \<and> (\<exists>b. outcome e = Changed b) \<and> borrow (held_watch e) = None \<and> idle_rounds borrow rest)"
| "idle_rounds borrow [_] = False"

text \<open>
  What the two loops have in common: each round checks the close watch, takes the lock and waits
  for a stream or the close.
\<close>

locale accept_loop =
  fixes loop :: "closed_watch \<Rightarrow> task \<Rightarrow> ((ConnectionError, 'a) result \<times> task) run"
    and mk :: "u64 \<Rightarrow> 'a"
    and borrow :: "closed_watch \<Rightarrow> ConnectionError option"
  assumes unfold: "loop w t =
    (case borrow w of
       Some err \<Rightarrow> Finished (Err err, t)
     | None \<Rightarrow>
         and_then (await_lock t) (\<lambda>t.
         and_then (await_stream_or_close t) (\<lambda>(branch, w, t).
           case branch of
             Some (Some x) \<Rightarrow> Finished (Ok (mk x), t)
           | Some None \<Rightarrow> Finished (Err LocallyClosed, t)
           | None \<Rightarrow> (case borrow w of Some err \<Rightarrow> Finished (Err err, t) | None \<Rightarrow> loop w t))))"
begin

lemma loop_idle:
  "idle_rounds borrow rounds \<Longrightarrow> borrow w = None \<Longrightarrow> env t = rounds @ evs
   \<Longrightarrow> \<exists>w' t'. loop w t = loop w' t' \<and> borrow w' = None \<and> env t' = evs"
proof (induction rounds arbitrary: w t rule: induct_list012)
  case (3 lk e rest)
  let ?t = "t\<lparr>shared := others e (others lk (shared t)), env := rest @ evs\<rparr>"
  from 3 have "loop w t = loop (held_watch e) ?t"
    by (auto simp: unfold [of w t] await_lock_def await_stream_or_close_def await_def)
  with 3 show ?case by fastforce
qed auto

lemma loop_decides:
  assumes "borrow w = None" and "env t = lk # e # later" and "outcome lk = Locked"
  shows "outcome e = Received (Some x) \<Longrightarrow> \<exists>t'. loop w t = Finished (Ok (mk x), t') \<and> env t' = later"
    and "outcome e = Received None \<Longrightarrow> \<exists>t'. loop w t = Finished (Err LocallyClosed, t') \<and> env t' = later"
    and "outcome e = Changed b \<Longrightarrow> borrow (held_watch e) = Some err
      \<Longrightarrow> \<exists>t'. loop w t = Finished (Err err, t') \<and> env t' = later"
  using assms by (simp_all add: unfold [of w t] await_lock_def await_stream_or_close_def await_def)

lemma loop_suspends: "borrow w = None \<Longrightarrow> env t = [] \<Longrightarrow> \<exists>h. loop w t = Suspended h"
  by (simp add: unfold [of w t] await_lock_def await_def)

end

interpretation accepting_bi: accept_loop "accept_bi_loop borrow i" "\<lambda>x. (new_send_stream i x, new_recv_stream i x)" borrow
  for borrow i
  by unfold_locales (rule accept_bi_loop.simps)

interpretation accepting_uni: accept_loop "accept_uni_loop borrow i" "new_recv_stream i" borrow
  for borrow i
  by unfold_locales (rule accept_uni_loop.simps)

lemma closed_loop_result:
  "\<forall>ev \<in> set (env t). outcome ev = Changed True \<Longrightarrow>
   case find (\<lambda>w. borrow w \<noteq> None) (w # map held_watch (env t)) of
     None \<Rightarrow> \<exists>h. closed_loop borrow w t = Suspended h
   | Some w' \<Rightarrow> \<exists>reason t'. borrow w' = Some reason \<and> closed_loop borrow w t = Finished (reason, t')"
proof (induction "env t" arbitrary: t w)
  case Nil
  then have "env t = []" by simp
  then show ?case
    by (cases "borrow w") (simp_all add: closed_loop.simps [of borrow w t] await_changed_def await_def)
next
  case (Cons ev evs)
  let ?t = "t\<lparr>shared := others ev (shared t), env := evs\<rparr>"
  have env: "env t = ev # evs" using Cons.hyps(2) by simp
  have step: "borrow w = None \<Longrightarrow> closed_loop borrow w t = closed_loop borrow (held_watch ev) ?t"
    using Cons.prems env by (simp add: closed_loop.simps [of borrow w t] await_changed_def await_def)
  have "evs = env ?t" "\<forall>ev \<in> set (env ?t). outcome ev = Changed True" using Cons.prems env by simp_all
  note IH = Cons.hyps(1) [OF this, of "held_watch ev"]
  show ?case
  proof (cases "borrow w")
    case None
    then have "find (\<lambda>w. borrow w \<noteq> None) (w # map held_watch (env t))
        = find (\<lambda>w. borrow w \<noteq> None) (held_watch ev # map held_watch (env ?t))"
      using env by simp
    with IH step [OF None] show ?thesis by (simp only:)
  next
    case (Some e)
    then show ?thesis by (simp add: closed_loop.simps [of borrow w t])
  qed
qed

text \<open>The reason stays recorded until the index is created or closed again.\<close>

lemma closed_entry_stays:
  assumes "watch_law borrow" and "conn_states (handle s) i = Some cn" and "i = callback_conn_id conn"
    and "\<forall>cb \<in> set cbs. callback_id cb = i \<longrightarrow> \<not> is_created cb \<and> \<not> is_closed cb" and "close_error conn = Some reason"
  shows "\<exists>cn'. conn_states (handle (run_callbacks cbs (on_conn_closed conn s))) i = Some cn' \<and> borrow (closed_tx cn') = Some reason"
proof -
  let ?cn = "entry_step (OnConnClosed conn) cn"
  have "conn_states (handle (on_conn_closed conn s)) i = Some ?cn"
    using assms(2,3) by (simp add: on_conn_closed_def Let_def)
  moreover have "\<not> created_in i cbs" using assms(4) by (auto simp: created_in_def)
  ultimately have entry: "conn_states (handle (run_callbacks cbs (on_conn_closed conn s))) i
      = Some (fold entry_step (filter (\<lambda>cb. callback_id cb = i) cbs) ?cn)"
    by (intro run_callbacks_entry)
  have "closed_tx (fold entry_step (filter (\<lambda>cb. callback_id cb = i) cbs) ?cn) = closed_tx cn @ [Some reason]"
    using assms(4,5) by (subst entry_run_closed_tx) auto
  with entry assms(1) show ?thesis by simp
qed

section \<open>Properties\<close>

text \<open>
  C9: a \<open>Connecting\<close> future is never forgotten. Whatever callbacks run on the TQUIC thread between
  the moment it registers its waker and its second check, a poll returns the connection exactly
  when the entry is established, the recorded reason when it is closed without that, and \<open>Pending\<close>
  only while neither is the case; and then its waker is still registered, so that the callback
  that decides will wake it.
\<close>

theorem connecting_not_forgotten:
  assumes "watch_law borrow" and "resolve_conn_id rx self = Inr (i, self')"
    and "conn_states h i = Some cn" and "\<not> created_in i cbs"
  shows "case connecting_poll borrow w rx (callbacks_on s cbs) self h of (r, self2, h') \<Rightarrow>
    self2 = self' \<and> (\<exists>cn'. conn_states h' i = Some cn' \<and>
      (case r of
         Ready (Ok c) \<Rightarrow> is_established cn' \<and> c_conn_id c = i
       | Ready (Err e) \<Rightarrow> \<not> is_established cn' \<and> borrow (closed_tx cn') = Some e
       | Pending \<Rightarrow> \<not> is_established cn' \<and> borrow (closed_tx cn') = None \<and> establish_waker cn' = Some w))"
proof -
  let ?cbs = "filter (\<lambda>cb. callback_id cb = i) cbs"
  let ?h = "callbacks_on s cbs (with_conn i (register_waker w) h)"
  let ?cn = "fold entry_step ?cbs (register_waker w cn)"
  have entry: "conn_states ?h i = Some ?cn"
    using callbacks_on_entry [of "with_conn i (register_waker w) h" i "register_waker w cn" cbs s] assms(3,4)
    by simp
  have none: "\<forall>cb \<in> set ?cbs. \<not> is_created cb" using assms(4) by (auto simp: created_in_def)
  have waker: "establish_waker ?cn = Some w" if "check_entry borrow i ?cn = None"
    using entry_run_waker [OF none assms(1), of "register_waker w cn"] that
    by (simp add: check_entry_cases register_waker_def)
  show ?thesis
  proof (cases "check_entry borrow i cn")
    case (Some r)
    then have "connecting_poll borrow w rx (callbacks_on s cbs) self h = (Ready r, self', h)"
      using assms(2,3) by (simp add: connecting_poll_def get_conn_notify_def)
    with Some assms(3) show ?thesis by (auto simp: check_entry_cases split: result.split)
  next
    case None
    have "connecting_poll borrow w rx (callbacks_on s cbs) self h
        = (case check_entry borrow i ?cn of Some r \<Rightarrow> (Ready r, self', ?h) | None \<Rightarrow> (Pending, self', ?h))"
      using assms(2,3) None entry by (simp add: connecting_poll_def get_conn_notify_def Let_def split: option.split)
    with entry waker show ?thesis
      by (cases "check_entry borrow i ?cn") (auto simp: check_entry_cases split: result.split)
  qed
qed

theorem connecting_not_forgotten_witness:
  "\<exists>cn' self2 h'. connecting_poll last 5 Pending
       (callbacks_on sample_handler [OnConnEstablished (sample_conn 7)])
       (new_server 7 addr_unspecified) (shared (sample_task [])) = (Ready (Ok \<lparr>c_conn_id = 7\<rparr>), self2, h')
     \<and> conn_states h' 7 = Some cn' \<and> is_established cn'"
proof -
  have "resolve_conn_id Pending (new_server 7 addr_unspecified) = Inr (7, new_server 7 addr_unspecified)"
    by (simp add: resolve_conn_id_def new_server_def)
  moreover have entry: "conn_states (shared (sample_task [])) 7 = Some (ConnNotify_new (V4 167772161 4433))"
    by (simp add: sample_task_def handler_simps sample_simps callback_conn_id_def)
  moreover have "\<not> created_in 7 [OnConnEstablished (sample_conn 7)]"
    by (simp add: created_in_def is_created_def)
  ultimately have all: "case connecting_poll last 5 Pending
       (callbacks_on sample_handler [OnConnEstablished (sample_conn 7)])
       (new_server 7 addr_unspecified) (shared (sample_task [])) of (r, self2, h') \<Rightarrow>
      self2 = new_server 7 addr_unspecified \<and> (\<exists>cn'. conn_states h' 7 = Some cn' \<and>
        (case r of
           Ready (Ok c) \<Rightarrow> is_established cn' \<and> c_conn_id c = 7
         | Ready (Err e) \<Rightarrow> \<not> is_established cn' \<and> last (closed_tx cn') = Some e
         | Pending \<Rightarrow> \<not> is_established cn' \<and> last (closed_tx cn') = None \<and> establish_waker cn' = Some 5))"
    by (rule connecting_not_forgotten [OF watch_law_last])
  moreover have "fst (connecting_poll last 5 Pending
       (callbacks_on sample_handler [OnConnEstablished (sample_conn 7)])
       (new_server 7 addr_unspecified) (shared (sample_task []))) = Ready (Ok \<lparr>c_conn_id = 7\<rparr>)"
    using entry by (simp add: connecting_poll_def resolve_conn_id_def new_server_def get_conn_notify_def
        check_entry_def ConnNotify_new_def Let_def callbacks_on_def on_conn_established_def register_waker_def)
  ultimately show ?thesis
    by (cases "connecting_poll last 5 Pending
       (callbacks_on sample_handler [OnConnEstablished (sample_conn 7)])
       (new_server 7 addr_unspecified) (shared (sample_task []))") auto
qed

text \<open>
  C10: what the API sees of a closed connection. From the close on, through any callbacks that
  neither create nor close it again, the reason recorded at the close is what \<open>close_reason\<close> and
  \<open>closed\<close> report and what \<open>accept_bi\<close>, \<open>accept_uni\<close>, a new \<open>open_bi\<close> or \<open>open_uni\<close>, \<open>read_datagram\<close> and
  a handshake that did not complete return, at once and without a command to TQUIC; and a \<open>read\<close> or
  \<open>write\<close> whose request is answered with nothing returns it instead of waiting.
\<close>

theorem closed_reason_seen:
  assumes "watch_law borrow" and "conn_states (handle s) i = Some cn" and "i = callback_conn_id conn"
    and "\<forall>cb \<in> set cbs. callback_id cb = i \<longrightarrow> \<not> is_created cb \<and> \<not> is_closed cb"
    and "conn_states (shared t) = conn_states (handle (run_callbacks cbs (on_conn_closed conn s)))"
    and "c = \<lparr>c_conn_id = i\<rparr>"
  shows "\<exists>reason. close_error conn = Some reason
    \<and> close_reason borrow c (shared t) = Some reason
    \<and> closed borrow c t = Finished (reason, t)
    \<and> accept_bi borrow c t = Finished (Err reason, t)
    \<and> accept_uni borrow c t = Finished (Err reason, t)
    \<and> open_bi_poll borrow tx rx (open_bi c) (shared t) = (Ready (Err reason), open_bi c, shared t)
    \<and> open_uni_poll borrow tx rx (open_uni c) (shared t) = (Ready (Err reason), open_uni c, shared t)
    \<and> read_datagram_poll borrow c (shared t) = (Ready (Err reason), False)
    \<and> (\<forall>cn'. conn_states (shared t) i = Some cn' \<and> \<not> is_established cn' \<longrightarrow>
        connecting_poll borrow w idrx f (new_server i a) (shared t) = (Ready (Err reason), new_server i a, shared t))
    \<and> (\<forall>ev evs. env t = ev # evs \<and> (\<forall>h. conn_states (others ev h) i = conn_states h i) \<longrightarrow>
        (outcome ev = Answered (Some (RespRead (Ok ([], False)))) \<longrightarrow>
          (\<exists>t'. read borrow (new_recv_stream i x) buf t
             = Finished (Err (ReadConnectionLost reason), new_recv_stream i x, buf, t') \<and> env t' = evs))
      \<and> (outcome ev = Answered (Some (RespWrite (Ok 0))) \<longrightarrow>
          (\<exists>t'. send_write borrow (new_send_stream i x) data t = Finished (Err (WriteConnectionLost reason), t') \<and> env t' = evs)))"
proof -
  obtain reason where reason: "close_error conn = Some reason" by (cases "close_error conn") simp_all
  obtain cn' where entry: "conn_states (shared t) i = Some cn'" and borrowed: "borrow (closed_tx cn') = Some reason"
    using closed_entry_stays [OF assms(1-4) reason] unfolding assms(5) by blast
  have seen: "get_conn_notify i (shared t) = Some cn'" using entry by (simp add: get_conn_notify_def)
  note defs = close_reason_def closed_def accept_bi_def accept_uni_def open_bi_poll_def open_uni_poll_def
    read_datagram_poll_def connecting_poll_def
  have stream: "(outcome ev = Answered (Some (RespRead (Ok ([], False)))) \<longrightarrow>
      (\<exists>t'. read borrow (new_recv_stream i x) buf t
         = Finished (Err (ReadConnectionLost reason), new_recv_stream i x, buf, t') \<and> env t' = evs))
    \<and> (outcome ev = Answered (Some (RespWrite (Ok 0))) \<longrightarrow>
      (\<exists>t'. send_write borrow (new_send_stream i x) data t = Finished (Err (WriteConnectionLost reason), t') \<and> env t' = evs))"
    if "env t = ev # evs" "\<forall>h. conn_states (others ev h) i = conn_states h i" for ev evs
  proof -
    have after: "get_conn_notify i (others ev (send_cmd cmd (shared t))) = Some cn'" for cmd
      using that(2) entry by (simp add: get_conn_notify_def)
    show ?thesis
      using that(1) borrowed after
      by (auto simp: read_def read_loop.simps send_write_def write_loop.simps new_recv_stream_def new_send_stream_def
          wait_readable_def wait_writable_def await_answer_Some)
  qed
  show ?thesis
    using reason entry seen borrowed assms(6) stream
    by (auto simp: defs closed_loop.simps accept_bi_loop.simps accept_uni_loop.simps open_start_def
        open_bi_def open_uni_def check_closed_def resolve_conn_id_def new_server_def check_entry_def)
qed

theorem closed_reason_seen_witness:
  "let t = (sample_task [])\<lparr>shared := handle (run_callbacks [OnStreamReadable (sample_conn 7) 4]
         (on_conn_closed (sample_conn 7) (on_conn_created (sample_conn 7) sample_handler)))\<rparr>
   in accept_bi last \<lparr>c_conn_id = 7\<rparr> t = Finished (Err LocallyClosed, t)"
proof -
  let ?s = "on_conn_created (sample_conn 7) sample_handler" and ?cbs = "[OnStreamReadable (sample_conn 7) 4]"
  let ?t = "(sample_task [])\<lparr>shared := handle (run_callbacks ?cbs (on_conn_closed (sample_conn 7) ?s))\<rparr>"
  have entry: "conn_states (handle ?s) 7 = Some (ConnNotify_new (V4 167772161 4433))"
    by (simp add: handler_simps sample_simps callback_conn_id_def)
  have i: "7 = callback_conn_id (sample_conn 7)" by (simp add: sample_simps callback_conn_id_def)
  have quiet: "\<forall>cb \<in> set ?cbs. callback_id cb = 7 \<longrightarrow> \<not> is_created cb \<and> \<not> is_closed cb"
    by (simp add: is_created_def is_closed_def)
  have states: "conn_states (shared ?t) = conn_states (handle (run_callbacks ?cbs (on_conn_closed (sample_conn 7) ?s)))"
    by simp
  have "close_error (sample_conn 7) = Some LocallyClosed" by (simp add: close_error_def sample_conn_def)
  with closed_reason_seen [OF watch_law_last entry i quiet states refl] show ?thesis unfolding Let_def by auto
qed

text \<open>
  C29: opening a stream asks TQUIC at most once: however often the future is polled, whatever its
  receiver returns and whatever others do, at most one request is sent for it, so a future that
  is polled by many wake-ups never opens a second stream.
\<close>

theorem open_asks_once:
  assumes "\<forall>q \<in> set ps. \<forall>h. open_requests (c_conn_id c) (snd (snd q) h) = open_requests (c_conn_id c) h"
  shows "(let sent = open_requests (c_conn_id c) (snd (poll_again (open_bi_poll borrow) ps (open_bi c) h))
          in sent = open_requests (c_conn_id c) h
             \<or> (\<exists>tx. sent = open_requests (c_conn_id c) h @ [OpenBiStream (c_conn_id c) tx]))
    \<and> (let sent = open_requests (c_conn_id c) (snd (poll_again (open_uni_poll borrow) ps (open_uni c) h))
         in sent = open_requests (c_conn_id c) h
            \<or> (\<exists>tx. sent = open_requests (c_conn_id c) h @ [OpenUniStream (c_conn_id c) tx]))"
  using bi.at_most_one_request [of "open_bi c" "c_conn_id c" ps borrow h]
    uni.at_most_one_request [of "open_uni c" "c_conn_id c" ps borrow h] assms
  by (simp add: open_bi_def open_uni_def)

theorem open_asks_once_witness:
  "let sent = open_requests 7 (snd (poll_again (open_bi_poll last)
      [(3, Pending, id), (4, Pending, id), (5, Ready (Ok (Ok 4)), id)] (open_bi \<lparr>c_conn_id = 7\<rparr>)
      (BridgeHandle_new addr_unspecified)))
   in sent = [] \<or> (\<exists>tx. sent = [OpenBiStream 7 tx])"
proof -
  have "open_requests 7 (BridgeHandle_new addr_unspecified) = []"
    by (simp add: open_requests_def BridgeHandle_new_def)
  then show ?thesis
    using open_asks_once [of "[(3, Pending, id), (4, Pending, id), (5, Ready (Ok (Ok 4)), id)]"
        "\<lparr>c_conn_id = 7\<rparr>" last "BridgeHandle_new addr_unspecified"]
    by (simp add: Let_def del: poll_again.simps)
qed

text \<open>
  C30: accepting a stream returns the first stream that comes out of the queue. On a connection
  without an entry \<open>accept_bi\<close> and \<open>accept_uni\<close> return \<open>LocallyClosed\<close>, on a closed one the recorded
  reason, at once. On an open one, after any number of rounds that find nothing, the next round
  decides: a received index gives open handles with that index and the connection's; a close gives
  its reason; only a queue that is gone gives \<open>LocallyClosed\<close>; and exactly the events of these
  rounds are awaited. Without such a round they stay suspended.
\<close>

theorem accept_returns_received:
  assumes "idle_rounds borrow rounds"
  shows "(conn_states (shared t) (c_conn_id c) = None \<longrightarrow>
        accept_bi borrow c t = Finished (Err LocallyClosed, t) \<and> accept_uni borrow c t = Finished (Err LocallyClosed, t))
    \<and> (\<forall>e. close_reason borrow c (shared t) = Some e \<longrightarrow>
        accept_bi borrow c t = Finished (Err e, t) \<and> accept_uni borrow c t = Finished (Err e, t))
    \<and> (conn_open borrow (c_conn_id c) (shared t) \<longrightarrow>
        (\<forall>lk ev later x. env t = rounds @ lk # ev # later \<and> outcome lk = Locked \<and> outcome ev = Received (Some x) \<longrightarrow>
          (\<exists>t' t''. accept_bi borrow c t = Finished (Ok (\<lparr>ss_conn_id = c_conn_id c, ss_stream_id = x, finished = False\<rparr>,
              \<lparr>rs_conn_id = c_conn_id c, rs_stream_id = x, all_data_read = False\<rparr>), t') \<and> env t' = later
            \<and> accept_uni borrow c t = Finished (Ok \<lparr>rs_conn_id = c_conn_id c, rs_stream_id = x, all_data_read = False\<rparr>, t'')
            \<and> env t'' = later))
      \<and> (\<forall>lk ev later b r. env t = rounds @ lk # ev # later \<and> outcome lk = Locked
            \<and> (outcome ev = Received None \<and> r = LocallyClosed \<or> outcome ev = Changed b \<and> borrow (held_watch ev) = Some r) \<longrightarrow>
          (\<exists>t' t''. accept_bi borrow c t = Finished (Err r, t') \<and> env t' = later
            \<and> accept_uni borrow c t = Finished (Err r, t'') \<and> env t'' = later))
      \<and> (env t = rounds \<longrightarrow> (\<exists>h h'. accept_bi borrow c t = Suspended h \<and> accept_uni borrow c t = Suspended h')))"
proof (cases "conn_states (shared t) (c_conn_id c)")
  case None
  then show ?thesis
    by (simp add: accept_bi_def accept_uni_def get_conn_notify_def close_reason_def conn_open_def)
next
  case (Some cn)
  let ?w = "closed_tx cn" and ?i = "c_conn_id c"
  have run: "accept_bi borrow c t = accept_bi_loop borrow ?i ?w t" "accept_uni borrow c t = accept_uni_loop borrow ?i ?w t"
    using Some by (simp_all add: accept_bi_def accept_uni_def get_conn_notify_def)
  have reason: "accept_bi borrow c t = Finished (Err e, t) \<and> accept_uni borrow c t = Finished (Err e, t)"
    if "close_reason borrow c (shared t) = Some e" for e
    using that Some by (simp add: run close_reason_def get_conn_notify_def accept_bi_loop.simps accept_uni_loop.simps)
  have opened: "borrow ?w = None" if "conn_open borrow ?i (shared t)"
    using that Some by (simp add: conn_open_def get_conn_notify_def)
  note bi = accepting_bi.loop_idle [OF assms, of ?w t _ ?i] accepting_bi.loop_decides [where borrow = borrow and i = ?i]
    accepting_bi.loop_suspends [of borrow _ _ ?i]
  note uni = accepting_uni.loop_idle [OF assms, of ?w t _ ?i] accepting_uni.loop_decides [where borrow = borrow and i = ?i]
    accepting_uni.loop_suspends [of borrow _ _ ?i]
  have stream: "\<exists>t' t''. accept_bi borrow c t = Finished (Ok (new_send_stream ?i x, new_recv_stream ?i x), t') \<and> env t' = later
      \<and> accept_uni borrow c t = Finished (Ok (new_recv_stream ?i x), t'') \<and> env t'' = later"
    if "borrow ?w = None" "env t = rounds @ lk # ev # later" "outcome lk = Locked" "outcome ev = Received (Some x)"
    for lk ev later x
    using bi(1) [OF that(1,2)] uni(1) [OF that(1,2)] bi(2) [OF _ _ that(3,4)] uni(2) [OF _ _ that(3,4)]
    unfolding run by metis
  have failed: "\<exists>t' t''. accept_bi borrow c t = Finished (Err r, t') \<and> env t' = later
      \<and> accept_uni borrow c t = Finished (Err r, t'') \<and> env t'' = later"
    if "borrow ?w = None" "env t = rounds @ lk # ev # later" "outcome lk = Locked"
      "outcome ev = Received None \<and> r = LocallyClosed \<or> outcome ev = Changed b \<and> borrow (held_watch ev) = Some r"
    for lk ev later r b
    using bi(1) [OF that(1,2)] uni(1) [OF that(1,2)] bi(3,4) [OF _ _ that(3)] uni(3,4) [OF _ _ that(3)] that(4)
    unfolding run by metis
  have waits: "\<exists>h h'. accept_bi borrow c t = Suspended h \<and> accept_uni borrow c t = Suspended h'"
    if "borrow ?w = None" "env t = rounds"
    using bi(1) [of "[]"] uni(1) [of "[]"] bi(5) uni(5) that unfolding run by (metis append_Nil2)
  show ?thesis
    using Some reason stream [OF opened] failed [OF opened] waits [OF opened]
    unfolding new_send_stream_def new_recv_stream_def
    by (intro conjI impI allI) (simp | blast)+
qed

theorem accept_returns_received_witness:
  "\<exists>t'. accept_bi last \<lparr>c_conn_id = 7\<rparr> (sample_task (map calm [Locked, Changed True, Locked, Received (Some 5), Locked]))
     = Finished (Ok (\<lparr>ss_conn_id = 7, ss_stream_id = 5, finished = False\<rparr>,
         \<lparr>rs_conn_id = 7, rs_stream_id = 5, all_data_read = False\<rparr>), t') \<and> env t' = [calm Locked]"
proof -
  let ?t = "sample_task (map calm [Locked, Changed True, Locked, Received (Some 5), Locked])"
  have "idle_rounds last (map calm [Locked, Changed True])" by auto
  from accept_returns_received [OF this, of ?t "\<lparr>c_conn_id = 7\<rparr>"] show ?thesis by auto
qed

text \<open>
  C31: \<open>closed\<close> waits for the reason: it returns the first reason its close watch shows, at the start
  or after one of the changes, and stays suspended exactly as long as there is none.
\<close>

theorem closed_waits_for_reason:
  assumes "conn_states (shared t) (c_conn_id c) = Some cn"
    and "\<forall>ev \<in> set (env t). outcome ev = Changed True"
  shows "case find (\<lambda>w. borrow w \<noteq> None) (closed_tx cn # map held_watch (env t)) of
      None \<Rightarrow> \<exists>h. closed borrow c t = Suspended h
    | Some w \<Rightarrow> \<exists>reason t'. borrow w = Some reason \<and> closed borrow c t = Finished (reason, t')"
proof -
  have "closed borrow c t = closed_loop borrow (closed_tx cn) t"
    using assms(1) by (simp add: closed_def get_conn_notify_def)
  with closed_loop_result [OF assms(2), of borrow "closed_tx cn"] show ?thesis by (simp only:)
qed

theorem closed_waits_for_reason_witness:
  "\<exists>t'. closed last \<lparr>c_conn_id = 7\<rparr>
     (sample_task [calm (Changed True), (calm (Changed True))\<lparr>held_watch := [None, Some TimedOut]\<rparr>])
   = Finished (TimedOut, t')"
proof -
  let ?t = "sample_task [calm (Changed True), (calm (Changed True))\<lparr>held_watch := [None, Some TimedOut]\<rparr>]"
  have "conn_states (shared ?t) (c_conn_id \<lparr>c_conn_id = 7\<rparr>) = Some (ConnNotify_new (V4 167772161 4433))"
    by (simp add: sample_task_def handler_simps sample_simps callback_conn_id_def)
  from closed_waits_for_reason [OF this, of last] show ?thesis by (simp add: ConnNotify_new_def)
qed

end
