(* ===== verification/Incoming.thy ===== *)
theory Incoming
  imports Connection_Props
begin

text \<open>
  \<^verbatim>\<open>src/incoming.rs\<close>: an incoming connection on which the server has not yet decided, the
  operations that decide, and the future that accepts it.
\<close>

record Incoming =
  incoming_id :: u64
  inc_remote_addr :: SocketAddr

definition accept_incoming ::
    "Incoming \<Rightarrow> BridgeHandle \<Rightarrow> (ConnectionError, Connecting) result \<times> BridgeHandle" where
  "accept_incoming self h =
     (Ok (new_server (incoming_id self) (inc_remote_addr self)), send_cmd AcceptIncoming h)"

text \<open>The configuration is ignored.\<close>

definition accept_with ::
    "ServerConfig \<Rightarrow> Incoming \<Rightarrow> BridgeHandle \<Rightarrow> (ConnectionError, Connecting) result \<times> BridgeHandle" where
  "accept_with server_config self h = accept_incoming self h"

definition refuse :: "Incoming \<Rightarrow> BridgeHandle \<Rightarrow> BridgeHandle" where
  "refuse self h = send_cmd (RefuseIncoming (incoming_id self)) h"

record RetryError =
  re_incoming :: Incoming

definition retry :: "Incoming \<Rightarrow> (RetryError, unit) result" where
  "retry self = Err \<lparr>re_incoming = self\<rparr>"

definition into_incoming :: "RetryError \<Rightarrow> Incoming" where
  "into_incoming self = re_incoming self"

definition show_RetryError :: "RetryError \<Rightarrow> string" where
  "show_RetryError self = ''retry() is not supported; use Config::enable_retry instead''"

definition ignore :: "Incoming \<Rightarrow> BridgeHandle \<Rightarrow> BridgeHandle" where
  "ignore self h = send_cmd (RefuseIncoming (incoming_id self)) h"

definition incoming_remote_address :: "Incoming \<Rightarrow> SocketAddr" where
  "incoming_remote_address self = inc_remote_addr self"

definition remote_address_validated :: "Incoming \<Rightarrow> bool" where
  "remote_address_validated self = False"

definition may_retry :: "Incoming \<Rightarrow> bool" where
  "may_retry self = False"

section \<open>The future\<close>

record IncomingFuture =
  connecting :: "Connecting option"
  accept_error :: "ConnectionError option"

definition into_future :: "Incoming \<Rightarrow> BridgeHandle \<Rightarrow> IncomingFuture \<times> BridgeHandle" where
  "into_future self h =
     (case accept_incoming self h of
        (Ok c, h) \<Rightarrow> (\<lparr>connecting = Some c, accept_error = None\<rparr>, h)
      | (Err e, h) \<Rightarrow> (\<lparr>connecting = None, accept_error = Some e\<rparr>, h))"

definition incoming_poll ::
    "(closed_watch \<Rightarrow> ConnectionError option) \<Rightarrow> waker \<Rightarrow> (ConnectError, u64) result rx_poll
     \<Rightarrow> (BridgeHandle \<Rightarrow> BridgeHandle) \<Rightarrow> IncomingFuture \<Rightarrow> BridgeHandle
     \<Rightarrow> (ConnectionError, Connection) result poll \<times> IncomingFuture \<times> BridgeHandle" where
  "incoming_poll borrow w rx meanwhile self h =
     (case accept_error self of
        Some err \<Rightarrow> (Ready (Err err), self\<lparr>accept_error := None\<rparr>, h)
      | None \<Rightarrow>
          (case connecting self of
             Some c \<Rightarrow>
               (case connecting_poll borrow w rx meanwhile c h of
                  (Ready r, c, h) \<Rightarrow> (Ready r, self\<lparr>connecting := None\<rparr>, h)
                | (Pending, c, h) \<Rightarrow> (Pending, self\<lparr>connecting := Some c\<rparr>, h))
           | None \<Rightarrow> (Ready (Err LocallyClosed), self, h)))"

end
