(* ===== verification/Bridge_Loop.thy ===== *)
theory Bridge_Loop
  imports Commands_Props
begin

text \<open>
  The TQUIC thread of \<^verbatim>\<open>src/bridge.rs\<close>: \<open>Bridge::spawn\<close>, the start of \<open>run_bridge\<close> (choice of the
  transport and TLS configurations, creation of the endpoint) and its event loop. What the
  operating system and Tokio answer at start-up, and which branch of \<open>select!\<close> fires in each
  iteration, are inputs. A second, small model follows the ownership of the shared handle.
\<close>

section \<open>Start of run\_bridge\<close>

definition bridge_transport :: "ServerConfig option \<Rightarrow> ClientConfig option \<Rightarrow> TransportConfig" where
  "bridge_transport server_config default_client_config =
     unwrap_or
       (or_else (map_option sc_transport server_config)
          (map_option cc_transport default_client_config))
       TransportConfig_default"

definition bridge_tls_config ::
    "('tls, 'cfg, 'q) tquic_api \<Rightarrow> ServerConfig option \<Rightarrow> ClientConfig option \<Rightarrow> (string, 'tls) result" where
  "bridge_tls_config api server_config default_client_config =
     (case server_config of
        Some sc \<Rightarrow> map_err show_ConnectError (build_server_tls_config (config_api api) sc)
      | None \<Rightarrow>
          (case default_client_config of
             Some cc \<Rightarrow> map_err show_ConnectError (build_client_tls_config (config_api api) cc)
           | None \<Rightarrow> map_err (show_error (config_api api)) (tls_new_client (config_api api) [] False)))"

text \<open>From the conversion of the socket to the signal that the bridge is ready.\<close>

definition start_bridge ::
    "('tls, 'cfg, 'q) tquic_api \<Rightarrow> (string, unit) result \<Rightarrow> EndpointConfig \<Rightarrow> ServerConfig option
     \<Rightarrow> ClientConfig option \<Rightarrow> bool \<Rightarrow> BridgeHandle \<Rightarrow> (string, 'q Bridge) result" where
  "start_bridge api from_std endpoint_config server_config default_client_config server h =
     bind_result from_std (\<lambda>_.
     bind_result (bridge_tls_config api server_config default_client_config) (\<lambda>tls_config.
     bind_result
       (map_err show_ConnectError
          (build_tquic_config (config_api api) endpoint_config
             (bridge_transport server_config default_client_config) tls_config server_config))
       (\<lambda>tquic_config.
          Ok \<lparr>endpoint = ep_new api tquic_config server,
              handler = \<lparr>handle = h, is_server = server, incoming_tx = []\<rparr>,
              current_client_config = default_client_config,
              responses = []\<rparr>)))"

section \<open>Bridge::spawn\<close>

text \<open>
  The answers of the operating system and of the runtime while the bridge starts: \<open>bind\<close>,
  \<open>set_nonblocking\<close>, \<open>local_addr\<close>, creating the thread, building its runtime, and converting the
  socket on it. Errors are their texts.
\<close>

record startup =
  su_bind :: "(string, unit) result"
  su_nonblocking :: "(string, unit) result"
  su_local_addr :: "(string, SocketAddr) result"
  su_thread :: "(string, unit) result"
  su_runtime :: "(string, unit) result"
  su_from_std :: "(string, unit) result"

text \<open>
  What arrives on the \<open>ready\<close> channel: a message, or nothing at all when the sender is dropped
  because \<open>run_bridge\<close> returned early (its error is only logged).
\<close>

definition ready_signal ::
    "('tls, 'cfg, 'q) tquic_api \<Rightarrow> startup \<Rightarrow> EndpointConfig \<Rightarrow> ServerConfig option
     \<Rightarrow> ClientConfig option \<Rightarrow> BridgeHandle \<Rightarrow> (string, 'q Bridge) result option" where
  "ready_signal api su endpoint_config server_config default_client_config h =
     (case su_runtime su of
        Err e \<Rightarrow> Some (Err e)
      | Ok _ \<Rightarrow>
          (case start_bridge api (su_from_std su) endpoint_config server_config default_client_config
                  (server_config \<noteq> None) h of
             Ok b \<Rightarrow> Some (Ok b)
           | Err e \<Rightarrow> None))"

definition bridge_died :: string where
  "bridge_died = ''bridge thread died during startup''"

text \<open>The result is the handle; the state the new thread starts its loop in comes with it.\<close>

definition spawn ::
    "('tls, 'cfg, 'q) tquic_api \<Rightarrow> startup \<Rightarrow> EndpointConfig \<Rightarrow> ServerConfig option
     \<Rightarrow> ClientConfig option \<Rightarrow> (string, BridgeHandle \<times> 'q Bridge) result" where
  "spawn api su endpoint_config server_config default_client_config =
     bind_result (su_bind su) (\<lambda>_.
     bind_result (su_nonblocking su) (\<lambda>_.
     bind_result (su_local_addr su) (\<lambda>laddr.
     let h = BridgeHandle_new laddr in
     bind_result (su_thread su) (\<lambda>_.
     case ready_signal api su endpoint_config server_config default_client_config h of
       Some (Ok b) \<Rightarrow> Ok (h, b)
     | Some (Err e) \<Rightarrow> Err e
     | None \<Rightarrow> Err bridge_died))))"

section \<open>The event loop\<close>

text \<open>
  One value per branch of the \<open>select!\<close>. The socket is present in every iteration: it is stored
  at the start and nothing takes it out again.
\<close>

datatype bridge_event =
    PacketReceived "(string, bytes \<times> SocketAddr) result"
  | CommandReceived "BridgeCommand option"
  | TimerFired

definition loop_timeout :: "('tls, 'cfg, 'q) tquic_api \<Rightarrow> 'q \<Rightarrow> Duration" where
  "loop_timeout api q = unwrap_or (ep_timeout api q) (duration_from_millis 100)"

definition process_connections :: "('tls, 'cfg, 'q) tquic_api \<Rightarrow> 'q Bridge \<Rightarrow> 'q Bridge" where
  "process_connections api b = after_call (snd (ep_process_connections api (endpoint b))) b"

text \<open>\<open>None\<close> is the \<open>break\<close>.\<close>

fun bridge_iteration ::
    "('tls, 'cfg, 'q) tquic_api \<Rightarrow> ((u64 \<rightharpoonup> ConnNotify) \<Rightarrow> u64 list) \<Rightarrow> EndpointConfig \<Rightarrow> SocketAddr
     \<Rightarrow> bridge_event \<Rightarrow> 'q Bridge \<Rightarrow> 'q Bridge option" where
  "bridge_iteration api iter ec laddr (PacketReceived (Ok (data, peer))) b =
     Some (process_connections api
       (after_call (snd (ep_recv api data \<lparr>pi_src = peer, pi_dst = laddr\<rparr> (endpoint b))) b))"
| "bridge_iteration api iter ec laddr (PacketReceived (Err e)) b = Some (process_connections api b)"
| "bridge_iteration api iter ec laddr (CommandReceived (Some cmd)) b =
     Some (process_connections api (process_command api iter ec laddr cmd b))"
| "bridge_iteration api iter ec laddr (CommandReceived None) b = None"
| "bridge_iteration api iter ec laddr TimerFired b =
     Some (process_connections api (after_call (ep_on_timeout api (endpoint b)) b))"

definition bridge_cleanup :: "('tls, 'cfg, 'q) tquic_api \<Rightarrow> 'q Bridge \<Rightarrow> 'q Bridge" where
  "bridge_cleanup api b = process_connections api (after_call (ep_close api True (endpoint b)) b)"

text \<open>The loop over the events that have arrived; the flag tells whether it still runs.\<close>

fun bridge_loop ::
    "('tls, 'cfg, 'q) tquic_api \<Rightarrow> ((u64 \<rightharpoonup> ConnNotify) \<Rightarrow> u64 list) \<Rightarrow> EndpointConfig \<Rightarrow> SocketAddr
     \<Rightarrow> bridge_event list \<Rightarrow> 'q Bridge \<Rightarrow> 'q Bridge \<times> bool" where
  "bridge_loop api iter ec laddr [] b = (b, True)"
| "bridge_loop api iter ec laddr (ev # evs) b =
     (case bridge_iteration api iter ec laddr ev b of
        Some b' \<Rightarrow> bridge_loop api iter ec laddr evs b'
      | None \<Rightarrow> (bridge_cleanup api b, False))"

section \<open>Ownership of the handle\<close>

text \<open>
  The command channel is closed when the last \<open>Arc<BridgeHandle>\<close> is dropped, because the handle
  holds the only sender. The API holds one reference per clone; the thread holds two while its
  loop runs: its own argument and the one inside the transport handler.
\<close>

record handle_refs =
  api_refs :: nat
  loop_runs :: bool

definition strong_count :: "handle_refs \<Rightarrow> nat" where
  "strong_count r = api_refs r + (if loop_runs r then 2 else 0)"

definition cmd_channel_closed :: "handle_refs \<Rightarrow> bool" where
  "cmd_channel_closed r \<longleftrightarrow> strong_count r = 0"

definition spawned :: "handle_refs \<Rightarrow> bool" where
  "spawned r \<longleftrightarrow> r = \<lparr>api_refs = 1, loop_runs = True\<rparr>"

inductive refs_step :: "handle_refs \<Rightarrow> handle_refs \<Rightarrow> bool" where
  clone: "0 < api_refs r \<Longrightarrow> refs_step r (r\<lparr>api_refs := Suc (api_refs r)\<rparr>)"
| drop: "0 < api_refs r \<Longrightarrow> refs_step r (r\<lparr>api_refs := api_refs r - 1\<rparr>)"
| leave: "loop_runs r \<Longrightarrow> cmd_channel_closed r \<Longrightarrow> refs_step r (r\<lparr>loop_runs := False\<rparr>)"

inductive_cases refs_stepE: "refs_step r t"

interpretation refs: invariant_system spawned refs_step loop_runs
  by unfold_locales
    (auto simp: spawned_def cmd_channel_closed_def strong_count_def elim!: refs_stepE)

end
