(* ===== verification/Bridge_Props.thy ===== *)
theory Bridge_Props
  imports Bridge_Loop
begin

text \<open>
  Properties of the TQUIC thread: when \<open>spawn\<close> succeeds, which configuration the endpoint gets,
  that the commands of a run are answered in the order they arrive, that a closed endpoint stays
  closed, and that the loop is never left.
\<close>

section \<open>Commands of a run\<close>

text \<open>The commands the loop processes: those that arrive before the channel is closed.\<close>

fun commands_of :: "bridge_event list \<Rightarrow> BridgeCommand list" where
  "commands_of [] = []"
| "commands_of (CommandReceived None # evs) = []"
| "commands_of (CommandReceived (Some cmd) # evs) = cmd # commands_of evs"
| "commands_of (PacketReceived r # evs) = commands_of evs"
| "commands_of (TimerFired # evs) = commands_of evs"

lemma process_connections_frame [simp]:
  "responses (process_connections api b) = responses b"
  "current_client_config (process_connections api b) = current_client_config b"
  by (simp_all add: process_connections_def)

definition answered :: "BridgeCommand list \<Rightarrow> (responder \<times> response) list \<Rightarrow> bool" where
  "answered cmds as \<longleftrightarrow>
     list_all2 (\<lambda>cmd (r, x). responder_of cmd = Some r \<and> answers cmd x)
       (filter (\<lambda>cmd. responder_of cmd \<noteq> None) cmds) as"

lemma process_command_answered:
  "\<exists>as. responses (process_command api iter ec l cmd b) = responses b @ as
     \<and> (\<forall>cmds bs. answered cmds bs \<longrightarrow> answered (cmd # cmds) (as @ bs))"
  using process_command_answers [where cmd = cmd and api = api and iter = iter and ec = ec and l = l and b = b]
  by (auto simp: answered_def split: option.splits)

lemma bridge_loop_answered:
  "\<exists>as. responses (fst (bridge_loop api iter ec l evs b)) = responses b @ as
     \<and> answered (commands_of evs) as"
proof (induction evs arbitrary: b rule: commands_of.induct)
  case 1
  then show ?case by (simp add: answered_def)
next
  case (2 evs)
  then show ?case by (simp add: answered_def bridge_cleanup_def)
next
  case (3 cmd evs)
  obtain as where as: "responses (process_command api iter ec l cmd b) = responses b @ as"
    and cons: "\<And>cmds bs. answered cmds bs \<Longrightarrow> answered (cmd # cmds) (as @ bs)"
    using process_command_answered [of api iter ec l cmd b] by blast
  obtain bs where "responses (fst (bridge_loop api iter ec l (CommandReceived (Some cmd) # evs) b))
      = responses b @ as @ bs" "answered (commands_of evs) bs"
    using 3 [of "process_connections api (process_command api iter ec l cmd b)"] as by auto
  with cons show ?case by auto
next
  case (4 r evs)
  show ?case
  proof (cases r)
    case (Err e)
    with 4 [of "process_connections api b"] show ?thesis by simp
  next
    case (Ok p)
    obtain data peer where "p = (data, peer)" by (cases p)
    with Ok 4 [of "process_connections api
        (after_call (snd (ep_recv api data \<lparr>pi_src = peer, pi_dst = l\<rparr> (endpoint b))) b)"]
    show ?thesis by simp
  qed
next
  case (5 evs)
  from 5 [of "process_connections api (after_call (ep_on_timeout api (endpoint b)) b)"]
  show ?case by simp
qed

section \<open>A closed endpoint stays closed\<close>

lemma run_callbacks_endpoint_closed [simp]:
  "endpoint_closed (handle (run_callbacks cbs s)) = endpoint_closed (handle s)"
  by (induction cbs arbitrary: s) simp_all

lemma process_connections_closed [simp]:
  "endpoint_closed (handle (handler (process_connections api b))) = endpoint_closed (handle (handler b))"
  by (simp add: process_connections_def)

definition closes_endpoint :: "BridgeCommand \<Rightarrow> bool" where
  "closes_endpoint cmd \<longleftrightarrow> (case cmd of CloseEndpoint _ _ \<Rightarrow> True | _ \<Rightarrow> False)"

lemma process_command_closed:
  "endpoint_closed (handle (handler (process_command api iter ec l cmd b)))
   \<longleftrightarrow> endpoint_closed (handle (handler b)) \<or> closes_endpoint cmd"
  by (cases cmd)
    (simp_all add: closes_endpoint_def process_close_endpoint_def process_connect_def call_connect_def
      Let_def split: option.split result.split prod.split)

section \<open>Properties\<close>

text \<open>
  The thread answers the requests it receives in the order they arrive, each exactly once
  and with a value of its type, whatever packets and timers come in between and whatever TQUIC
  does; commands that arrive after the channel is closed are not processed.
\<close>

lemma requests_answered_in_order:
  "\<exists>as. responses (fst (bridge_loop api iter ec l evs b)) = responses b @ as
     \<and> list_all2 (\<lambda>cmd (r, x). responder_of cmd = Some r \<and> answers cmd x)
         (filter (\<lambda>cmd. responder_of cmd \<noteq> None) (commands_of evs)) as"
  using bridge_loop_answered unfolding answered_def .

text \<open>
  The steps of the start whose own error reaches the caller, in order, and the configuration the
  bridge is built with, if its parts can be built.
\<close>

definition startup_steps :: "startup \<Rightarrow> (string, unit) result list" where
  "startup_steps su =
     [su_bind su, su_nonblocking su, map_ok (\<lambda>_. ()) (su_local_addr su), su_thread su, su_runtime su]"

definition startup_config ::
    "('tls, 'cfg, 'q) tquic_api \<Rightarrow> startup \<Rightarrow> EndpointConfig \<Rightarrow> ServerConfig option \<Rightarrow> ClientConfig option \<Rightarrow> 'cfg option" where
  "startup_config api su ec sc cc =
     (if is_ok (su_from_std su)
      then case bridge_tls_config api sc cc of
             Err e \<Rightarrow> None
           | Ok tls \<Rightarrow>
               (case build_tquic_config (config_api api) ec
                       (case (sc, cc) of (Some s, _) \<Rightarrow> sc_transport s
                        | (None, Some c) \<Rightarrow> cc_transport c | (None, None) \<Rightarrow> TransportConfig_default) tls sc of
                  Err e \<Rightarrow> None
                | Ok cfg \<Rightarrow> Some cfg)
      else None)"

lemma bridge_transport_cases: "bridge_transport sc cc = (case (sc, cc) of (Some s, _) \<Rightarrow> sc_transport s
    | (None, Some c) \<Rightarrow> cc_transport c | (None, None) \<Rightarrow> TransportConfig_default)"
  by (cases sc; cases cc) (simp_all add: bridge_transport_def)

lemma start_bridge_config:
  "startup_config api su ec sc cc = Some cfg \<Longrightarrow> start_bridge api (su_from_std su) ec sc cc server h
    = Ok \<lparr>endpoint = ep_new api cfg server,
        handler = \<lparr>handle = h, is_server = server, incoming_tx = []\<rparr>, current_client_config = cc, responses = []\<rparr>"
  "startup_config api su ec sc cc = None \<Longrightarrow> \<exists>e. start_bridge api (su_from_std su) ec sc cc server h = Err e"
  unfolding startup_config_def bridge_transport_cases [symmetric]
  by (cases "su_from_std su"; cases "bridge_tls_config api sc cc"; auto simp: start_bridge_def split: result.splits)+

text \<open>
  C34: \<open>spawn\<close> returns a handle exactly when the socket could be bound, made non-blocking and
  named, the thread and its runtime started, the socket converted and the TLS and TQUIC
  configurations built. Then the handle is empty and names the bound address, and the loop starts
  with an endpoint of that configuration, whose transport settings are the server's, else the
  default client's, else the defaults. Otherwise the error is that of the first step that failed,
  but a failure on the thread itself is reported as its death: its own text does not reach the
  caller.
\<close>

theorem spawn_result:
  "(is_ok (spawn api su ec sc cc) \<longleftrightarrow> list_all is_ok (startup_steps su) \<and> startup_config api su ec sc cc \<noteq> None)
   \<and> (\<forall>h b. spawn api su ec sc cc = Ok (h, b) \<longrightarrow>
        (\<exists>laddr cfg. su_local_addr su = Ok laddr \<and> startup_config api su ec sc cc = Some cfg \<and> h = BridgeHandle_new laddr
          \<and> b = \<lparr>endpoint = ep_new api cfg (sc \<noteq> None),
                 handler = \<lparr>handle = BridgeHandle_new laddr, is_server = (sc \<noteq> None), incoming_tx = []\<rparr>,
                 current_client_config = cc, responses = []\<rparr>))
   \<and> (\<forall>e. spawn api su ec sc cc = Err e \<longrightarrow>
        e = (case find (\<lambda>r. \<not> is_ok r) (startup_steps su) of Some (Err e') \<Rightarrow> e' | _ \<Rightarrow> bridge_died))"
proof -
  have "ready_signal api su ec sc cc h = (case su_runtime su of Err e \<Rightarrow> Some (Err e)
      | Ok _ \<Rightarrow> map_option (\<lambda>cfg. Ok \<lparr>endpoint = ep_new api cfg (sc \<noteq> None),
          handler = \<lparr>handle = h, is_server = (sc \<noteq> None), incoming_tx = []\<rparr>, current_client_config = cc, responses = []\<rparr>)
          (startup_config api su ec sc cc))" for h
    using start_bridge_config(1) [of api su ec sc cc _ "sc \<noteq> None" h] start_bridge_config(2) [of api su ec sc cc "sc \<noteq> None" h]
    by (cases "startup_config api su ec sc cc") (auto simp: ready_signal_def split: result.split)
  then show ?thesis
    by (cases "su_bind su"; cases "su_nonblocking su"; cases "su_local_addr su"; cases "su_thread su"; cases "su_runtime su";
        cases "startup_config api su ec sc cc")
      (simp_all add: spawn_def startup_steps_def Let_def)
qed

definition sample_startup :: startup where
  "sample_startup = \<lparr>su_bind = Ok (), su_nonblocking = Ok (), su_local_addr = Ok (V4 0 4433),
     su_thread = Ok (), su_runtime = Ok (), su_from_std = Ok ()\<rparr>"

theorem spawn_result_witness:
  "is_ok (spawn sample_api sample_startup EndpointConfig_default None None)
   \<and> spawn sample_api (sample_startup\<lparr>su_nonblocking := Err ''busy''\<rparr>) EndpointConfig_default None None = Err ''busy''
   \<and> spawn sample_api (sample_startup\<lparr>su_from_std := Err ''no reactor''\<rparr>) EndpointConfig_default None None
     = Err bridge_died"
proof -
  let ?spawn = "\<lambda>su. spawn sample_api su EndpointConfig_default None None"
  note result = spawn_result [of sample_api _ EndpointConfig_default None None]
  have "list_all is_ok (startup_steps sample_startup)" "startup_config sample_api sample_startup EndpointConfig_default None None \<noteq> None"
    by (simp_all add: startup_steps_def startup_config_def sample_startup_def sample_api_def recording_api_def
        bridge_tls_config_def build_tquic_config_def)
  with result [of sample_startup] have "is_ok (?spawn sample_startup)" by blast
  moreover have "\<not> is_ok (?spawn (sample_startup\<lparr>su_nonblocking := Err ''busy''\<rparr>))"
    "\<not> is_ok (?spawn (sample_startup\<lparr>su_from_std := Err ''no reactor''\<rparr>))"
    using result by (simp_all add: startup_steps_def startup_config_def)
  then obtain e e' where e: "?spawn (sample_startup\<lparr>su_nonblocking := Err ''busy''\<rparr>) = Err e"
    "?spawn (sample_startup\<lparr>su_from_std := Err ''no reactor''\<rparr>) = Err e'"
    by (metis result.collapse(1) result.exhaust_disc)
  with result [of "sample_startup\<lparr>su_nonblocking := Err ''busy''\<rparr>", THEN conjunct2, THEN conjunct2]
    result [of "sample_startup\<lparr>su_from_std := Err ''no reactor''\<rparr>", THEN conjunct2, THEN conjunct2]
  have "e = ''busy''" "e' = bridge_died"
    by (simp_all add: startup_steps_def sample_startup_def)
  ultimately show ?thesis using e by simp
qed

text \<open>
  Once spawned, the thread never leaves its loop: whatever the API clones and drops, even
  when it has dropped its last handle, the thread's own references keep the command channel open,
  so the branch that shuts the bridge down is never taken.
\<close>

lemma bridge_never_stops:
  assumes "reachable_from spawned refs_step r"
  shows "loop_runs r \<and> \<not> cmd_channel_closed r"
  using refs.reachable_inv [OF assms] by (simp add: cmd_channel_closed_def strong_count_def)

end
