(* ===== verification/Endpoint.thy ===== *)
theory Endpoint
  imports Incoming Bridge_Props
begin

text \<open>
  \<^verbatim>\<open>src/endpoint.rs\<close>: \<open>Endpoint\<close>, the \<open>Accept\<close> future and \<open>wait_idle\<close>. An \<open>Endpoint\<close> is a reference
  to the shared handle.
\<close>

section \<open>Creation\<close>

definition endpoint_new ::
    "('tls, 'cfg, 'q) tquic_api \<Rightarrow> startup \<Rightarrow> EndpointConfig \<Rightarrow> ServerConfig option
     \<Rightarrow> (string, BridgeHandle \<times> 'q Bridge) result" where
  "endpoint_new api su config server_config = spawn api su config server_config None"

definition endpoint_client ::
    "('tls, 'cfg, 'q) tquic_api \<Rightarrow> startup \<Rightarrow> (string, BridgeHandle \<times> 'q Bridge) result" where
  "endpoint_client api su = endpoint_new api su EndpointConfig_default None"

definition endpoint_server ::
    "('tls, 'cfg, 'q) tquic_api \<Rightarrow> startup \<Rightarrow> ServerConfig \<Rightarrow> (string, BridgeHandle \<times> 'q Bridge) result" where
  "endpoint_server api su config = endpoint_new api su EndpointConfig_default (Some config)"

section \<open>Operations\<close>

definition endpoint_connect ::
    "responder \<Rightarrow> SocketAddr \<Rightarrow> string \<Rightarrow> BridgeHandle \<Rightarrow> (ConnectError, Connecting) result \<times> BridgeHandle" where
  "endpoint_connect tx addr server_name h =
     (if endpoint_closed h then (Err EndpointStopping, h)
      else (Ok (new_client tx addr), send_cmd (Connect addr server_name None tx) h))"

definition connect_with ::
    "ClientConfig \<Rightarrow> responder \<Rightarrow> SocketAddr \<Rightarrow> string \<Rightarrow> BridgeHandle
     \<Rightarrow> (ConnectError, Connecting) result \<times> BridgeHandle" where
  "connect_with config tx addr server_name h =
     (if endpoint_closed h then (Err EndpointStopping, h)
      else (Ok (new_client tx addr), send_cmd (Connect addr server_name (Some config) tx) h))"

definition set_default_client_config :: "ClientConfig \<Rightarrow> BridgeHandle \<Rightarrow> BridgeHandle" where
  "set_default_client_config config h = send_cmd (SetDefaultClientConfig config) h"

definition set_server_config :: "ServerConfig option \<Rightarrow> BridgeHandle \<Rightarrow> BridgeHandle" where
  "set_server_config server_config h = send_cmd (SetServerConfig server_config) h"

definition endpoint_local_addr :: "BridgeHandle \<Rightarrow> (string, SocketAddr) result" where
  "endpoint_local_addr h = Ok (local_addr h)"

text \<open>\<open>as usize\<close> on a 64-bit target\<close>

definition endpoint_open_connections :: "BridgeHandle \<Rightarrow> nat" where
  "endpoint_open_connections h = unat (open_connections h)"

definition endpoint_close :: "VarInt \<Rightarrow> bytes \<Rightarrow> BridgeHandle \<Rightarrow> BridgeHandle" where
  "endpoint_close error_code reason h = send_cmd (CloseEndpoint (varint_into_inner error_code) reason) h"

record EndpointStats =
  accepted_handshakes :: u64
  outgoing_handshakes :: u64
  refused_handshakes :: u64
  ignored_handshakes :: u64

definition stats :: "BridgeHandle \<Rightarrow> EndpointStats" where
  "stats h = \<lparr>accepted_handshakes = 0, outgoing_handshakes = 0, refused_handshakes = 0, ignored_handshakes = 0\<rparr>"

section \<open>Waiting\<close>

function wait_idle :: "task \<Rightarrow> task run" where
  "wait_idle t =
     (if open_connections (shared t) = 0 then Finished t
      else and_then (await_notified t) (\<lambda>(w, t).
             if open_connections (shared t) = 0 then Finished t else wait_idle t))"
  by pat_completeness auto

termination
  by (relation "measure (\<lambda>t. length (env t))") (auto dest!: await_notified_env)

declare wait_idle.simps [simp del]

text \<open>
  \<open>Accept\<close>: whether the lock of the receiver is free and what polling it returns are arguments;
  the flag of the result tells that the poller woke itself.
\<close>

definition accept_poll ::
    "bool \<Rightarrow> IncomingData option poll \<Rightarrow> BridgeHandle \<Rightarrow> Incoming option poll \<times> bool" where
  "accept_poll lock_free recv h =
     (if endpoint_closed h then (Ready None, False)
      else if \<not> lock_free then (Pending, True)
      else (case recv of
              Ready (Some data) \<Rightarrow>
                (Ready (Some \<lparr>incoming_id = in_conn_id data, inc_remote_addr = in_remote_addr data\<rparr>), False)
            | Ready None \<Rightarrow> (Ready None, False)
            | Pending \<Rightarrow> (Pending, False)))"

end
