(* ===== verification/Ext_Connection.thy ===== *)
theory Ext_Connection
  imports Connection_Props
begin

text \<open>
  \<^verbatim>\<open>src/ext/connection.rs\<close>: the multipath operations of \<open>ConnectionExt\<close>. Each sends one request and
  awaits its answer; a lost sender counts as \<open>LocallyClosed\<close>.
\<close>

fun path_response :: "response \<Rightarrow> (ConnectionError, unit) result option" where
  "path_response (RespPath x) = Some x"
| "path_response _ = None"

fun stats_response :: "response \<Rightarrow> (ConnectionError, PathStats) result option" where
  "stats_response (RespStats x) = Some x"
| "stats_response _ = None"

fun paths_response :: "response \<Rightarrow> (ConnectionError, FourTuple list) result option" where
  "paths_response (RespPaths x) = Some x"
| "paths_response _ = None"

text \<open>\<open>rx.await.unwrap_or(Err(ConnectionError::LocallyClosed))\<close>\<close>

fun answer_or_closed :: "(unit, (ConnectionError, 'a) result) result \<Rightarrow> (ConnectionError, 'a) result" where
  "answer_or_closed (Ok r) = r"
| "answer_or_closed (Err _) = Err LocallyClosed"

definition ext_add_path ::
    "SocketAddr \<Rightarrow> SocketAddr \<Rightarrow> Connection \<Rightarrow> task \<Rightarrow> ((ConnectionError, unit) result \<times> task) run" where
  "ext_add_path laddr remote self t =
     and_then (await_answer path_response (send_request (AddPath (c_conn_id self) laddr remote) t))
       (\<lambda>(a, t). Finished (answer_or_closed a, t))"

definition ext_abandon_path ::
    "SocketAddr \<Rightarrow> SocketAddr \<Rightarrow> Connection \<Rightarrow> task \<Rightarrow> ((ConnectionError, unit) result \<times> task) run" where
  "ext_abandon_path laddr remote self t =
     and_then (await_answer path_response (send_request (AbandonPath (c_conn_id self) laddr remote) t))
       (\<lambda>(a, t). Finished (answer_or_closed a, t))"

definition ext_migrate_path ::
    "SocketAddr \<Rightarrow> SocketAddr \<Rightarrow> Connection \<Rightarrow> task \<Rightarrow> ((ConnectionError, unit) result \<times> task) run" where
  "ext_migrate_path laddr remote self t =
     and_then (await_answer path_response (send_request (MigratePath (c_conn_id self) laddr remote) t))
       (\<lambda>(a, t). Finished (answer_or_closed a, t))"

definition ext_path_stats ::
    "SocketAddr \<Rightarrow> SocketAddr \<Rightarrow> Connection \<Rightarrow> task \<Rightarrow> ((ConnectionError, PathStats) result \<times> task) run" where
  "ext_path_stats laddr remote self t =
     and_then (await_answer stats_response (send_request (GetPathStats (c_conn_id self) laddr remote) t))
       (\<lambda>(a, t). Finished (answer_or_closed a, t))"

definition ext_paths :: "Connection \<Rightarrow> task \<Rightarrow> ((ConnectionError, FourTuple list) result \<times> task) run" where
  "ext_paths self t =
     and_then (await_answer paths_response (send_request (GetPaths (c_conn_id self)) t))
       (\<lambda>(a, t). Finished (answer_or_closed a, t))"

end
