(* ===== verification/System.thy ===== *)
theory System
  imports Endpoint Ext_Connection
begin

text \<open>
  The whole program as a transition system: API tasks that send commands and touch the entries of
  the shared table, interleaved with the iterations of the TQUIC thread, which takes the commands
  from the channel in the order they were sent. The invariant of the shared state and the
  correspondence between the commands taken and the answers sent hold in every reachable state.
\<close>

section \<open>A well-formed table of connections\<close>

text \<open>
  The accept queues hold only streams the peer opened, each in the queue of its direction and
  registered for wake-ups; the close watch starts open and then only holds reasons.
\<close>

definition entry_ok :: "ConnNotify \<Rightarrow> bool" where
  "entry_ok cn \<longleftrightarrow>
     (\<forall>s \<in> set (accept_bi_tx cn). peer_initiated (cn_is_server cn) s \<and> is_bidi s)
   \<and> (\<forall>s \<in> set (accept_uni_tx cn). peer_initiated (cn_is_server cn) s \<and> \<not> is_bidi s)
   \<and> set (accept_bi_tx cn) \<union> set (accept_uni_tx cn) \<subseteq> dom (stream_readable cn) \<inter> dom (stream_writable cn)
   \<and> hd (closed_tx cn) = None \<and> closed_tx cn \<noteq> [] \<and> None \<notin> set (tl (closed_tx cn))"

definition table_ok :: "BridgeHandle \<Rightarrow> bool" where
  "table_ok h \<longleftrightarrow> (\<forall>i cn. conn_states h i = Some cn \<longrightarrow> entry_ok cn)"

lemma entry_ok_new: "entry_ok ((ConnNotify_new addr)\<lparr>cn_is_server := b\<rparr>)"
  by (simp add: entry_ok_def ConnNotify_new_def)

lemma dom_or_insert [simp]: "dom (or_insert k m) = insert k (dom m)"
  by (auto simp: or_insert_def split: option.splits)

lemma dom_notify_entry [simp]: "dom (notify_entry k m) = dom m"
  by (auto simp: notify_entry_def split: option.splits)

lemma entry_ok_get_or_create [simp]:
  "entry_ok cn \<Longrightarrow> entry_ok (get_or_create_readable s cn)"
  "entry_ok cn \<Longrightarrow> entry_ok (get_or_create_writable s cn)"
  by (auto simp: entry_ok_def get_or_create_readable_def get_or_create_writable_def)

lemma entry_ok_waker [simp]:
  "entry_ok (cn\<lparr>establish_waker := w\<rparr>) = entry_ok cn" "entry_ok (cn\<lparr>is_established := b\<rparr>) = entry_ok cn"
  "entry_ok (cn\<lparr>is_established := b, establish_waker := w\<rparr>) = entry_ok cn"
  by (simp_all add: entry_ok_def)

lemma entry_ok_stream_created: "entry_ok cn \<Longrightarrow> entry_ok (stream_created s cn)"
  by (auto simp: stream_created_def entry_ok_def get_or_create_readable_def get_or_create_writable_def Let_def)

lemma entry_ok_closed:
  "entry_ok cn \<Longrightarrow> entry_ok (cn\<lparr>closed_tx := closed_tx cn @ [close_error conn]\<rparr>)"
  using close_error_Some [of conn] by (auto simp: entry_ok_def simp del: close_error_Some)

lemma entry_step_ok:
  assumes "entry_ok cn"
  shows "entry_ok (entry_step cb cn)"
proof (cases cb)
  case (OnStreamReadable conn s)
  with assms show ?thesis
    by (auto simp: stream_became_readable_def entry_ok_def get_or_create_readable_def Let_def)
next
  case (OnStreamWritable conn s)
  with assms show ?thesis
    by (auto simp: stream_became_writable_def entry_ok_def get_or_create_writable_def Let_def)
next
  case (OnStreamClosed conn s)
  with assms show ?thesis by (auto simp: stream_was_closed_def entry_ok_def)
qed (use assms in \<open>simp_all add: entry_ok_new entry_ok_stream_created entry_ok_closed\<close>)

lemma handle_callback_table:
  assumes "table_ok (handle self)"
  shows "table_ok (handle (handle_callback cb self))"
  unfolding table_ok_def
proof (intro allI impI)
  fix i cn
  assume "conn_states (handle (handle_callback cb self)) i = Some cn"
  moreover have "entry_ok (ConnNotify_new addr_unspecified)" by (simp add: entry_ok_def ConnNotify_new_def)
  ultimately show "entry_ok cn"
    using assms entry_step_ok by (auto simp: table_ok_def handle_callback_entry split: if_split_asm)
qed

interpretation table: preserved handle_callback "\<lambda>self. table_ok (handle self)"
  by unfold_locales (rule handle_callback_table)

lemma run_callbacks_table [simp]: "table_ok (handle self) \<Longrightarrow> table_ok (handle (run_callbacks cbs self))"
  unfolding run_callbacks_def by (rule table.run_inv)

lemma run_callbacks_cmd_tx [simp]: "cmd_tx (handle (run_callbacks cbs self)) = cmd_tx (handle self)"
  by (induction cbs arbitrary: self) simp_all

section \<open>One iteration of the thread\<close>

lemma table_ok_with_conn: "table_ok h \<Longrightarrow> (\<And>cn. entry_ok cn \<Longrightarrow> entry_ok (f cn)) \<Longrightarrow> table_ok (with_conn i f h)"
  by (auto simp: table_ok_def split: if_split_asm)

lemma table_ok_frame [simp]:
  "table_ok (send_cmd c h) = table_ok h" "table_ok (h\<lparr>endpoint_closed := b\<rparr>) = table_ok h"
  by (simp_all add: table_ok_def)

lemma process_command_shared:
  assumes "table_ok (handle (handler b))"
  shows "table_ok (handle (handler (process_command api iter ec l cmd b)))
    \<and> cmd_tx (handle (handler (process_command api iter ec l cmd b))) = cmd_tx (handle (handler b))"
  using assms
  by (cases cmd)
    (simp_all add: process_close_endpoint_def process_connect_def call_connect_def Let_def
      split: option.split result.split prod.split)

lemma process_connections_shared [simp]:
  "table_ok (handle (handler b)) \<Longrightarrow> table_ok (handle (handler (process_connections api b)))"
  "cmd_tx (handle (handler (process_connections api b))) = cmd_tx (handle (handler b))"
  by (simp_all add: process_connections_def)

section \<open>The system\<close>

record 'q system =
  thread :: "'q Bridge"
  received :: nat

abbreviation shared_handle :: "'q system \<Rightarrow> BridgeHandle" where
  "shared_handle s \<equiv> handle (handler (thread s))"

definition update_handle :: "(BridgeHandle \<Rightarrow> BridgeHandle) \<Rightarrow> 'q system \<Rightarrow> 'q system" where
  "update_handle f s =
     s\<lparr>thread := (thread s)\<lparr>handler := (handler (thread s))\<lparr>handle := f (shared_handle s)\<rparr>\<rparr>\<rparr>"

text \<open>What the API does to an entry: register a waker, or create a notification.\<close>

inductive api_touch :: "(ConnNotify \<Rightarrow> ConnNotify) \<Rightarrow> bool" where
  waker: "api_touch (register_waker w)"
| readable: "api_touch (get_or_create_readable s)"
| writable: "api_touch (get_or_create_writable s)"

inductive_cases api_touchE: "api_touch f"

definition started :: "'q system \<Rightarrow> bool" where
  "started s \<longleftrightarrow> (\<exists>addr. shared_handle s = BridgeHandle_new addr) \<and> responses (thread s) = [] \<and> received s = 0"

text \<open>
  An iteration of the thread is one step. What API tasks do to the shared state meanwhile are appends
  to the channel and the touches of single entries above.
\<close>

inductive system_step ::
    "('tls, 'cfg, 'q) tquic_api \<Rightarrow> ((u64 \<rightharpoonup> ConnNotify) \<Rightarrow> u64 list) \<Rightarrow> EndpointConfig \<Rightarrow> SocketAddr
     \<Rightarrow> 'q system \<Rightarrow> 'q system \<Rightarrow> bool"
  for api :: "('tls, 'cfg, 'q) tquic_api" and iter :: "(u64 \<rightharpoonup> ConnNotify) \<Rightarrow> u64 list"
    and ec :: EndpointConfig and l :: SocketAddr where
  send: "system_step api iter ec l s (update_handle (send_cmd cmd) s)"
| touch: "api_touch f \<Longrightarrow> system_step api iter ec l s (update_handle (with_conn i f) s)"
| packet: "bridge_iteration api iter ec l (PacketReceived r) (thread s) = Some b
    \<Longrightarrow> system_step api iter ec l s (s\<lparr>thread := b\<rparr>)"
| timer: "bridge_iteration api iter ec l TimerFired (thread s) = Some b
    \<Longrightarrow> system_step api iter ec l s (s\<lparr>thread := b\<rparr>)"
| command: "received s < length (cmd_tx (shared_handle s))
    \<Longrightarrow> bridge_iteration api iter ec l (CommandReceived (Some (cmd_tx (shared_handle s) ! received s))) (thread s)
        = Some b
    \<Longrightarrow> system_step api iter ec l s (s\<lparr>thread := b, received := Suc (received s)\<rparr>)"

text \<open>The commands the thread has taken so far.\<close>

definition taken_commands :: "'q system \<Rightarrow> BridgeCommand list" where
  "taken_commands s = take (received s) (cmd_tx (shared_handle s))"

definition system_ok :: "'q system \<Rightarrow> bool" where
  "system_ok s \<longleftrightarrow> table_ok (shared_handle s) \<and> received s \<le> length (cmd_tx (shared_handle s))
     \<and> answered (taken_commands s) (responses (thread s))
     \<and> (endpoint_closed (shared_handle s) \<longleftrightarrow> (\<exists>cmd \<in> set (taken_commands s). closes_endpoint cmd))"

section \<open>The invariant\<close>

lemma update_handle_simps [simp]:
  "shared_handle (update_handle f s) = f (shared_handle s)" "received (update_handle f s) = received s"
  "responses (thread (update_handle f s)) = responses (thread s)"
  by (simp_all add: update_handle_def)

lemma answered_snoc:
  assumes "answered cmds as" and "case responder_of cmd of
      Some r \<Rightarrow> \<exists>x. bs = [(r, x)] \<and> answers cmd x | None \<Rightarrow> bs = []"
  shows "answered (cmds @ [cmd]) (as @ bs)"
  using assms by (auto simp: answered_def list_all2_appendI split: option.split_asm)

lemma bridge_iteration_frame:
  assumes "bridge_iteration api iter ec l ev b = Some b'" and "\<forall>c. ev \<noteq> CommandReceived c"
    and "table_ok (handle (handler b))"
  shows "table_ok (handle (handler b')) \<and> cmd_tx (handle (handler b')) = cmd_tx (handle (handler b))
    \<and> responses b' = responses b
    \<and> endpoint_closed (handle (handler b')) = endpoint_closed (handle (handler b))"
proof (cases ev)
  case (PacketReceived r)
  with assms show ?thesis by (cases r) auto
qed (use assms in auto)

lemma system_ok_send: "system_ok s \<Longrightarrow> system_ok (update_handle (send_cmd cmd) s)"
  by (simp add: system_ok_def taken_commands_def)

lemma system_ok_touch: "api_touch f \<Longrightarrow> system_ok s \<Longrightarrow> system_ok (update_handle (with_conn i f) s)"
  by (auto simp: system_ok_def taken_commands_def register_waker_def elim!: api_touchE
      intro!: table_ok_with_conn)

lemma system_ok_iteration:
  assumes "bridge_iteration api iter ec l ev (thread s) = Some b" and "\<forall>c. ev \<noteq> CommandReceived c"
    and "system_ok s"
  shows "system_ok (s\<lparr>thread := b\<rparr>)"
  using bridge_iteration_frame [OF assms(1,2)] assms(3) by (simp add: system_ok_def taken_commands_def)

lemma system_ok_command:
  assumes "received s < length (cmd_tx (shared_handle s))"
    and "bridge_iteration api iter ec l (CommandReceived (Some (cmd_tx (shared_handle s) ! received s))) (thread s)
      = Some b"
    and "system_ok s"
  shows "system_ok (s\<lparr>thread := b, received := Suc (received s)\<rparr>)"
proof -
  let ?cmd = "cmd_tx (shared_handle s) ! received s"
  let ?b = "process_command api iter ec l ?cmd (thread s)"
  have b: "b = process_connections api ?b" using assms(2) by simp
  have shared: "table_ok (handle (handler ?b))" "cmd_tx (handle (handler ?b)) = cmd_tx (shared_handle s)"
    using process_command_shared [of "thread s" api iter ec l ?cmd] assms(3) by (auto simp: system_ok_def)
  have taken: "take (Suc (received s)) (cmd_tx (shared_handle s)) = taken_commands s @ [?cmd]"
    using assms(1) by (simp add: taken_commands_def take_Suc_conv_app_nth)
  obtain bs where bs: "responses ?b = responses (thread s) @ bs"
    "case responder_of ?cmd of Some r \<Rightarrow> \<exists>x. bs = [(r, x)] \<and> answers ?cmd x | None \<Rightarrow> bs = []"
    using process_command_answers [where cmd = ?cmd and api = api and iter = iter and ec = ec and l = l
        and b = "thread s"]
    by (cases "responder_of ?cmd") auto
  have "answered (taken_commands s @ [?cmd]) (responses ?b)"
    using answered_snoc [OF _ bs(2), of "taken_commands s"] bs(1) assms(3) by (simp add: system_ok_def)
  moreover have "endpoint_closed (handle (handler ?b))
      \<longleftrightarrow> (\<exists>cmd \<in> set (taken_commands s @ [?cmd]). closes_endpoint cmd)"
    using assms(3) by (auto simp: process_command_closed system_ok_def)
  ultimately show ?thesis
    using b shared taken assms(1) by (simp add: system_ok_def taken_commands_def)
qed

interpretation sys: invariant_system started "system_step api iter ec l" system_ok
  for api :: "('tls, 'cfg, 'q) tquic_api" and iter ec l
proof (unfold_locales, goal_cases)
  case (1 s)
  then show ?case
    by (auto simp: started_def system_ok_def taken_commands_def BridgeHandle_new_def table_ok_def answered_def)
next
  case (2 s t)
  from 2(2) show ?case
  proof cases
    case (send cmd)
    with 2(1) show ?thesis by (simp add: system_ok_send)
  next
    case (touch f i)
    with 2(1) show ?thesis by (simp add: system_ok_touch)
  next
    case (packet r b)
    with 2(1) show ?thesis using system_ok_iteration [of api iter ec l "PacketReceived r" s b] by blast
  next
    case (timer b)
    with 2(1) show ?thesis using system_ok_iteration [of api iter ec l TimerFired s b] by blast
  next
    case (command b)
    with 2(1) show ?thesis using system_ok_command [of s api iter ec l b] by blast
  qed
qed

end
