(* ===== verification/Wakeups.thy ===== *)
theory Wakeups
  imports System
begin

text \<open>
  Two races between an API task and the TQUIC thread at the granularity of their single accesses
  to the shared state: \<open>Connecting::poll\<close> against \<open>on_conn_established\<close> and \<open>on_conn_closed\<close>
  (\<^verbatim>\<open>src/connection.rs\<close>, \<^verbatim>\<open>src/bridge.rs\<close>), where no wake-up is lost, and \<open>Endpoint::wait_idle\<close>
  against \<open>on_conn_closed\<close> (\<^verbatim>\<open>src/endpoint.rs\<close>), where one can be.
\<close>

section \<open>Connecting against the transport handler\<close>

text \<open>
  The next access of the poll: the two loads, the registration, the two loads again. \<open>Returned\<close> is
  the poll's result; a pending poll is repeated when its waker has been woken.
\<close>

datatype poll_pc =
    CheckEstablished | CheckClosed | Register | RecheckEstablished | RecheckClosed
  | Returned "(ConnectionError, Connection) result poll"

text \<open>
  The thread stores the flag or sends the reason first, and takes and wakes the waker in a second
  step.
\<close>

datatype thread_pc = Quiet | EstablishedStored | ClosedSent

record race =
  rc_handle :: BridgeHandle
  rc_poll :: poll_pc
  rc_thread :: thread_pc
  rc_mark :: nat

definition mark_established :: "u64 \<Rightarrow> BridgeHandle \<Rightarrow> BridgeHandle" where
  "mark_established i h = with_conn i (\<lambda>notify. notify\<lparr>is_established := True\<rparr>) h"

definition send_close_reason :: "tquic_Connection \<Rightarrow> u64 \<Rightarrow> BridgeHandle \<Rightarrow> BridgeHandle" where
  "send_close_reason conn i h =
     with_conn i (\<lambda>notify. notify\<lparr>closed_tx := closed_tx notify @ [close_error conn]\<rparr>) h"

text \<open>The two steps of each callback, one after the other, are the callback.\<close>

lemma on_conn_established_steps:
  "handle (on_conn_established conn s)
   = take_and_wake (callback_conn_id conn) (mark_established (callback_conn_id conn) (handle s))"
  by (simp add: on_conn_established_def mark_established_def Let_def)

lemma on_conn_closed_steps:
  "conn_states (handle (on_conn_closed conn s))
     = conn_states (take_and_wake (callback_conn_id conn)
         (send_close_reason conn (callback_conn_id conn) (handle s)))
   \<and> woken (handle (on_conn_closed conn s))
     = woken (take_and_wake (callback_conn_id conn)
         (send_close_reason conn (callback_conn_id conn) (handle s)))"
  by (simp add: on_conn_closed_def send_close_reason_def Let_def)

inductive race_step ::
    "(closed_watch \<Rightarrow> ConnectionError option) \<Rightarrow> u64 \<Rightarrow> waker \<Rightarrow> race \<Rightarrow> race \<Rightarrow> bool"
  for borrow :: "closed_watch \<Rightarrow> ConnectionError option" and i :: u64 and w :: waker where
  check_established: "rc_poll r = CheckEstablished \<Longrightarrow> conn_states (rc_handle r) i = Some cn
    \<Longrightarrow> race_step borrow i w r (r\<lparr>rc_poll :=
          if is_established cn then Returned (Ready (Ok \<lparr>c_conn_id = i\<rparr>)) else CheckClosed\<rparr>)"
| check_closed: "rc_poll r = CheckClosed \<Longrightarrow> conn_states (rc_handle r) i = Some cn
    \<Longrightarrow> race_step borrow i w r (r\<lparr>rc_poll :=
          case borrow (closed_tx cn) of Some e \<Rightarrow> Returned (Ready (Err e)) | None \<Rightarrow> Register\<rparr>)"
| register: "rc_poll r = Register
    \<Longrightarrow> race_step borrow i w r (r\<lparr>rc_poll := RecheckEstablished,
          rc_handle := with_conn i (register_waker w) (rc_handle r),
          rc_mark := length (woken (rc_handle r))\<rparr>)"
| recheck_established: "rc_poll r = RecheckEstablished \<Longrightarrow> conn_states (rc_handle r) i = Some cn
    \<Longrightarrow> race_step borrow i w r (r\<lparr>rc_poll :=
          if is_established cn then Returned (Ready (Ok \<lparr>c_conn_id = i\<rparr>)) else RecheckClosed\<rparr>)"
| recheck_closed: "rc_poll r = RecheckClosed \<Longrightarrow> conn_states (rc_handle r) i = Some cn
    \<Longrightarrow> race_step borrow i w r (r\<lparr>rc_poll :=
          case borrow (closed_tx cn) of Some e \<Rightarrow> Returned (Ready (Err e)) | None \<Rightarrow> Returned Pending\<rparr>)"
| poll_again: "rc_poll r = Returned Pending \<Longrightarrow> w \<in> set (drop (rc_mark r) (woken (rc_handle r)))
    \<Longrightarrow> race_step borrow i w r (r\<lparr>rc_poll := CheckEstablished\<rparr>)"
| thread_established: "rc_thread r = Quiet
    \<Longrightarrow> race_step borrow i w r (r\<lparr>rc_thread := EstablishedStored,
          rc_handle := mark_established i (rc_handle r)\<rparr>)"
| thread_closed: "rc_thread r = Quiet
    \<Longrightarrow> race_step borrow i w r (r\<lparr>rc_thread := ClosedSent,
          rc_handle := send_close_reason conn i (rc_handle r)\<rparr>)"
| thread_wake: "rc_thread r \<noteq> Quiet
    \<Longrightarrow> race_step borrow i w r (r\<lparr>rc_thread := Quiet, rc_handle := take_and_wake i (rc_handle r)\<rparr>)"

definition race_start :: "u64 \<Rightarrow> race \<Rightarrow> bool" where
  "race_start i r \<longleftrightarrow> rc_poll r = CheckEstablished \<and> rc_thread r = Quiet \<and> rc_mark r = 0
     \<and> conn_states (rc_handle r) i \<noteq> None"

definition woken_since :: "waker \<Rightarrow> race \<Rightarrow> bool" where
  "woken_since w r \<longleftrightarrow> w \<in> set (drop (rc_mark r) (woken (rc_handle r)))"

text \<open>
  Once registered, the waker stays or has been woken; and when a decision came after the load
  that would have seen it, the thread has woken the waker or is about to.
\<close>

definition race_ok :: "(closed_watch \<Rightarrow> ConnectionError option) \<Rightarrow> u64 \<Rightarrow> waker \<Rightarrow> race \<Rightarrow> bool" where
  "race_ok borrow i w r \<longleftrightarrow> (\<exists>cn. conn_states (rc_handle r) i = Some cn
     \<and> rc_mark r \<le> length (woken (rc_handle r))
     \<and> (rc_poll r \<in> {RecheckEstablished, RecheckClosed, Returned Pending}
        \<longrightarrow> woken_since w r \<or> establish_waker cn = Some w)
     \<and> (rc_poll r = RecheckClosed \<and> is_established cn \<longrightarrow> woken_since w r \<or> rc_thread r \<noteq> Quiet)
     \<and> (rc_poll r = Returned Pending \<and> (is_established cn \<or> borrow (closed_tx cn) \<noteq> None)
        \<longrightarrow> woken_since w r \<or> rc_thread r \<noteq> Quiet))"

lemma take_and_wake_woken:
  "woken (take_and_wake i h) = woken h @
     (case conn_states h i of
        Some cn \<Rightarrow> (case establish_waker cn of Some w \<Rightarrow> [w] | None \<Rightarrow> []) | None \<Rightarrow> [])"
  by (auto simp: take_and_wake_def split: option.split)

interpretation race: invariant_system "race_start i" "race_step borrow i w" "race_ok borrow i w"
  for borrow i w
proof (unfold_locales, goal_cases)
  case (1 r)
  then show ?case by (auto simp: race_start_def race_ok_def)
next
  case (2 r r')
  from 2(1) obtain cn where cn: "conn_states (rc_handle r) i = Some cn" by (auto simp: race_ok_def)
  from 2(2) 2(1) cn show ?case
  proof cases
    case thread_wake
    with 2(1) cn show ?thesis
      by (auto simp: race_ok_def woken_since_def take_and_wake_woken split: option.split)
  qed (auto simp: race_ok_def woken_since_def mark_established_def send_close_reason_def register_waker_def
      split: option.split)
qed

section \<open>Waiting for the endpoint to become idle\<close>

text \<open>
  \<open>notify_waiters\<close> reaches the \<open>Notified\<close> futures that exist when it is called. \<open>CreateNotified\<close> lies
  between the load of the counter and the creation of the future; \<open>Waiting m\<close> is a future that was
  created when \<open>m\<close> calls had been made.
\<close>

datatype idle_pc = CheckIdle | CreateNotified | Waiting nat | RecheckIdle | Idle

record idle_race =
  ir_handler :: BridgeTransportHandler
  ir_waiter :: idle_pc

inductive idle_step :: "idle_race \<Rightarrow> idle_race \<Rightarrow> bool" where
  check: "ir_waiter r = CheckIdle
    \<Longrightarrow> idle_step r (r\<lparr>ir_waiter :=
          if open_connections (handle (ir_handler r)) = 0 then Idle else CreateNotified\<rparr>)"
| create: "ir_waiter r = CreateNotified
    \<Longrightarrow> idle_step r (r\<lparr>ir_waiter := Waiting (length (idle_notify (handle (ir_handler r))))\<rparr>)"
| wake: "ir_waiter r = Waiting m \<Longrightarrow> drop m (idle_notify (handle (ir_handler r))) \<noteq> []
    \<Longrightarrow> idle_step r (r\<lparr>ir_waiter := RecheckIdle\<rparr>)"
| recheck: "ir_waiter r = RecheckIdle
    \<Longrightarrow> idle_step r (r\<lparr>ir_waiter :=
          if open_connections (handle (ir_handler r)) = 0 then Idle else CheckIdle\<rparr>)"
| thread: "idle_step r (r\<lparr>ir_handler := handle_callback cb (ir_handler r)\<rparr>)"

definition idle_start :: "idle_race \<Rightarrow> bool" where
  "idle_start r \<longleftrightarrow> ir_waiter r = CheckIdle \<and> (\<exists>addr. handle (ir_handler r) = BridgeHandle_new addr)"

text \<open>The waiter can take no step of its own, and no connection is open.\<close>

definition stuck_idle :: "idle_race \<Rightarrow> bool" where
  "stuck_idle r \<longleftrightarrow> (\<exists>m. ir_waiter r = Waiting m \<and> drop m (idle_notify (handle (ir_handler r))) = [])
     \<and> open_connections (handle (ir_handler r)) = 0"

section \<open>Properties\<close>

text \<open>
  C4: no wake-up of a \<open>Connecting\<close> future is lost, at the granularity of single loads, stores and
  locked updates: in every reachable state in which its poll has returned \<open>Pending\<close> although the
  connection is by now established or closed, its waker has been woken since it was registered,
  or the TQUIC thread is in the middle of the callback and its next step wakes it.
\<close>

theorem connecting_wakeup_not_lost:
  assumes "reachable_from (race_start i) (race_step borrow i w) r" and "rc_poll r = Returned Pending"
    and "conn_states (rc_handle r) i = Some cn" and "is_established cn \<or> borrow (closed_tx cn) \<noteq> None"
  shows "woken_since w r
    \<or> rc_thread r \<noteq> Quiet
      \<and> race_step borrow i w r (r\<lparr>rc_thread := Quiet, rc_handle := take_and_wake i (rc_handle r)\<rparr>)
      \<and> woken_since w (r\<lparr>rc_thread := Quiet, rc_handle := take_and_wake i (rc_handle r)\<rparr>)"
proof (cases "woken_since w r")
  case False
  with race.reachable_inv [OF assms(1)] assms(2-4)
  have "rc_thread r \<noteq> Quiet" "establish_waker cn = Some w" "rc_mark r \<le> length (woken (rc_handle r))"
    by (auto simp: race_ok_def)
  with assms(3) race_step.thread_wake [of r borrow i w] show ?thesis
    by (simp add: woken_since_def take_and_wake_woken)
qed simp

theorem connecting_wakeup_not_lost_witness:
  "let r = \<lparr>rc_handle = mark_established 7 (with_conn 7 (register_waker 5) (shared (sample_task []))),
            rc_poll = Returned Pending, rc_thread = EstablishedStored, rc_mark = 0\<rparr>
   in woken_since 5 r \<or> woken_since 5 (r\<lparr>rc_thread := Quiet, rc_handle := take_and_wake 7 (rc_handle r)\<rparr>)"
proof -
  let ?h = "shared (sample_task [])"
  let ?cn = "ConnNotify_new (V4 167772161 4433)"
  let ?g = "with_conn 7 (register_waker 5) ?h"
  let ?r = "\<lambda>h pc th. \<lparr>rc_handle = h, rc_poll = pc, rc_thread = th, rc_mark = 0\<rparr>"
  let ?R = "reachable_from (race_start 7) (race_step last 7 5)"
  have entry: "conn_states ?h 7 = Some ?cn" and wk: "woken ?h = []"
    by (simp_all add: sample_task_def handler_simps sample_simps callback_conn_id_def)
  have "?R (?r ?h CheckEstablished Quiet)"
    by (rule reachable_from.start) (simp add: race_start_def entry)
  from reachable_from.step [OF this race_step.check_established [of _ 7 ?cn]]
  have "?R (?r ?h CheckClosed Quiet)" by (simp add: entry ConnNotify_new_def)
  from reachable_from.step [OF this race_step.check_closed [of _ 7 ?cn]]
  have "?R (?r ?h Register Quiet)" by (simp add: entry ConnNotify_new_def)
  from reachable_from.step [OF this race_step.register]
  have "?R (?r ?g RecheckEstablished Quiet)" by (simp add: wk)
  from reachable_from.step [OF this race_step.recheck_established [of _ 7 "register_waker 5 ?cn"]]
  have "?R (?r ?g RecheckClosed Quiet)" by (simp add: entry ConnNotify_new_def register_waker_def)
  from reachable_from.step [OF this race_step.recheck_closed [of _ 7 "register_waker 5 ?cn"]]
  have "?R (?r ?g (Returned Pending) Quiet)" by (simp add: entry ConnNotify_new_def register_waker_def)
  from reachable_from.step [OF this race_step.thread_established]
  have "?R (?r (mark_established 7 ?g) (Returned Pending) EstablishedStored)" by simp
  from connecting_wakeup_not_lost [OF this, of "(register_waker 5 ?cn)\<lparr>is_established := True\<rparr>"]
  show ?thesis by (auto simp: entry mark_established_def Let_def)
qed

text \<open>
  C36: \<open>wait_idle\<close> can miss the moment the endpoint becomes idle. There is a run in which the last
  connection closes between the load of the counter and the creation of the \<open>Notified\<close> future: no
  connection is open any more, yet the waiter waits for a notification that has already been
  given, and only a later connection that opens and closes could wake it.
\<close>

theorem wait_idle_can_hang:
  "\<exists>r. reachable_from idle_start idle_step r \<and> stuck_idle r
     \<and> (\<forall>r'. \<not> (idle_step r r' \<and> ir_waiter r' \<noteq> ir_waiter r))"
proof -
  let ?s0 = sample_handler
  let ?s1 = "handle_callback (OnConnCreated (sample_conn 7)) ?s0"
  let ?s2 = "handle_callback (OnConnClosed (sample_conn 7)) ?s1"
  let ?r = "\<lambda>s w. \<lparr>ir_handler = s, ir_waiter = w\<rparr>"
  let ?R = "reachable_from idle_start idle_step"
  have open1: "open_connections (handle ?s1) = 1"
    by (simp add: handle_callback_open is_created_def sample_handler_def BridgeHandle_new_def del: handle_callback.simps)
  have open2: "open_connections (handle ?s2) = 0"
    by (simp add: handle_callback_open is_created_def is_closed_def sample_handler_def BridgeHandle_new_def
        del: handle_callback.simps)
  have "?R (?r ?s0 CheckIdle)"
    by (rule reachable_from.start) (auto simp: idle_start_def sample_handler_def)
  from reachable_from.step [OF this idle_step.thread [of _ "OnConnCreated (sample_conn 7)"]]
  have "?R (?r ?s1 CheckIdle)" by (simp del: handle_callback.simps)
  from reachable_from.step [OF this idle_step.check]
  have "?R (?r ?s1 CreateNotified)" by (simp add: open1 del: handle_callback.simps)
  from reachable_from.step [OF this idle_step.thread [of _ "OnConnClosed (sample_conn 7)"]]
  have "?R (?r ?s2 CreateNotified)" by (simp del: handle_callback.simps)
  from reachable_from.step [OF this idle_step.create]
  have "?R (?r ?s2 (Waiting (length (idle_notify (handle ?s2)))))" by (simp del: handle_callback.simps)
  moreover have "stuck_idle (?r ?s2 (Waiting (length (idle_notify (handle ?s2)))))"
    by (simp add: stuck_idle_def open2 del: handle_callback.simps)
  moreover have "\<not> (idle_step (?r ?s2 (Waiting (length (idle_notify (handle ?s2))))) r'
      \<and> ir_waiter r' \<noteq> Waiting (length (idle_notify (handle ?s2))))" for r'
    by (auto elim!: idle_step.cases simp del: handle_callback.simps)
  ultimately show ?thesis by (intro exI [of _ "?r ?s2 (Waiting (length (idle_notify (handle ?s2))))"]) simp
qed

end
