(* ===== verification/Api_Props.thy ===== *)
theory Api_Props
  imports Wakeups
begin

text \<open>
  Properties of the endpoint API: what happens to incoming connections, when \<open>wait_idle\<close> returns,
  and what the API makes of the answers of the TQUIC thread.
\<close>

section \<open>Incoming connections\<close>

lemma created_in_entry:
  assumes "created_in i cbs"
  shows "conn_states (handle (run_callbacks cbs s)) i \<noteq> None"
  using assms
proof (induction cbs arbitrary: s)
  case (Cons cb cbs)
  show ?case
  proof (cases "is_created cb \<and> callback_id cb = i")
    case True
    then have "conn_states (handle (handle_callback cb s)) i \<noteq> None" by (simp add: handle_callback_entry)
    from run_callbacks_dom [OF this] show ?thesis by simp
  next
    case False
    with Cons show ?thesis by (auto simp: created_in_def)
  qed
qed (simp add: created_in_def)

definition announced_known :: "BridgeTransportHandler \<Rightarrow> bool" where
  "announced_known s \<longleftrightarrow> (\<forall>d \<in> set (incoming_tx s). conn_states (handle s) (in_conn_id d) \<noteq> None)"

interpretation announced: preserved handle_callback announced_known
proof (unfold_locales, goal_cases)
  case (1 s cb)
  have keep: "conn_states (handle s) i \<noteq> None \<Longrightarrow> conn_states (handle (handle_callback cb s)) i \<noteq> None" for i
    by (auto simp: handle_callback_entry)
  have "conn_states (handle (handle_callback cb s)) (callback_id cb) \<noteq> None" if "is_created cb"
    using that by (simp add: handle_callback_entry)
  with 1 keep show ?case by (auto simp: announced_known_def handle_callback_incoming)
qed

text \<open>
  C32: every incoming connection that is announced can be accepted: from the start of the thread
  on, whatever callbacks run, each value on the incoming channel names a connection with an entry
  in the table, so the \<open>Connecting\<close> of an accepted \<open>Incoming\<close> never fails for lack of one; and an
  \<open>Accept\<close> that receives it hands out its index and address unchanged.
\<close>

theorem announced_can_be_accepted:
  assumes "incoming_tx s = []" and "data \<in> set (incoming_tx (run_callbacks cbs s))"
    and "\<not> endpoint_closed h"
  shows "conn_states (handle (run_callbacks cbs s)) (in_conn_id data) \<noteq> None
    \<and> accept_poll True (Ready (Some data)) h
      = (Ready (Some \<lparr>incoming_id = in_conn_id data, inc_remote_addr = in_remote_addr data\<rparr>), False)"
proof -
  have "announced_known s" using assms(1) by (simp add: announced_known_def)
  then have "announced_known (run_callbacks cbs s)" unfolding run_callbacks_def by (rule announced.run_inv)
  with assms(2,3) show ?thesis by (simp add: announced_known_def accept_poll_def)
qed

theorem announced_can_be_accepted_witness:
  "conn_states (handle (run_callbacks [OnConnCreated (sample_conn 7)] (sample_handler\<lparr>is_server := True\<rparr>))) 7 \<noteq> None"
proof -
  let ?s = "sample_handler\<lparr>is_server := True\<rparr>"
  have "incoming_tx ?s = []" by (simp add: sample_handler_def)
  moreover have "\<lparr>in_conn_id = 7, in_remote_addr = V4 167772161 4433\<rparr>
      \<in> set (incoming_tx (run_callbacks [OnConnCreated (sample_conn 7)] ?s))"
    by (simp add: on_conn_created_def sample_handler_def sample_conn_def callback_conn_id_def Let_def)
  moreover have "\<not> endpoint_closed (BridgeHandle_new addr_unspecified)" by (simp add: BridgeHandle_new_def)
  ultimately have "conn_states (handle (run_callbacks [OnConnCreated (sample_conn 7)] ?s))
      (in_conn_id \<lparr>in_conn_id = 7, in_remote_addr = V4 167772161 4433\<rparr>) \<noteq> None"
    by (rule announced_can_be_accepted [THEN conjunct1])
  then show ?thesis by simp
qed

text \<open>
  Awaiting an \<open>Incoming\<close> is accepting it and awaiting its \<open>Connecting\<close>: each poll gives the result
  of the handshake, and once it has given one, every further poll fails with \<open>LocallyClosed\<close>.
\<close>

lemma incoming_future_outcome:
  "case into_future inc h of (f, h') \<Rightarrow>
     h' = send_cmd AcceptIncoming h
   \<and> (case (incoming_poll borrow w rx m f g,
            connecting_poll borrow w rx m (new_server (incoming_id inc) (inc_remote_addr inc)) g) of
        ((r, f', g'), (r2, c', g2)) \<Rightarrow>
          r = r2 \<and> g' = g2
          \<and> (case r of
               Pending \<Rightarrow> f' = \<lparr>connecting = Some c', accept_error = None\<rparr>
             | Ready _ \<Rightarrow> incoming_poll borrow w rx m f' k = (Ready (Err LocallyClosed), f', k)))"
  by (auto simp: into_future_def accept_incoming_def incoming_poll_def split: prod.split poll.split)

text \<open>
  \<open>ignore\<close> is \<open>refuse\<close>. Both send the same command, and when the connection is known the TQUIC
  thread closes it with transport error 2 and the reason "refused": the peer is answered, also by
  \<open>ignore\<close>. \<open>retry\<close> never sends a retry and gives the \<open>Incoming\<close> back unchanged.
\<close>

lemma ignore_is_refuse:
  assumes "conn_get api (incoming_id inc) (endpoint b)"
  shows "ignore inc h = refuse inc h
    \<and> cmd_tx (ignore inc h) = cmd_tx h @ [RefuseIncoming (incoming_id inc)]
    \<and> endpoint (process_command api iter ec l (last (cmd_tx (ignore inc h))) b)
      = snd (conn_close api (incoming_id inc) False 2 [114, 101, 102, 117, 115, 101, 100] (endpoint b))
    \<and> (case retry inc of Ok _ \<Rightarrow> False | Err e \<Rightarrow> into_incoming e = inc)"
  using assms
  by (simp add: ignore_def refuse_def on_conn_def refused_bytes_def retry_def into_incoming_def)

text \<open>
  Closing the endpoint does not wake a task that waits in \<open>accept\<close>: the next poll would end with
  \<open>None\<close>, but nothing is sent on the channel of incoming connections, whose sender the thread keeps;
  only a connection that TQUIC creates during the close would be announced there.
\<close>

lemma run_callbacks_silent:
  "list_all (\<lambda>cb. \<not> is_created cb) cbs \<Longrightarrow> incoming_tx (run_callbacks cbs self) = incoming_tx self
    \<and> endpoint_closed (handle (run_callbacks cbs self)) = endpoint_closed (handle self)"
  by (induction cbs arbitrary: self) (simp_all add: handle_callback_incoming del: handle_callback.simps)

lemma close_endpoint_wakes_no_accept:
  assumes "\<And>q. list_all (\<lambda>cb. \<not> is_created cb) (fst (ep_close api False q))"
  shows "let b' = process_command api iter ec l (CloseEndpoint code reason) b
    in incoming_tx (handler b') = incoming_tx (handler b)
     \<and> accept_poll free rx (handle (handler b')) = (Ready None, False)"
  using assms by (simp add: process_close_endpoint_def accept_poll_def Let_def run_callbacks_silent)

section \<open>Waiting until the endpoint is idle\<close>

lemma wait_idle_Finished: "wait_idle t = Finished t' \<Longrightarrow> open_connections (shared t') = 0"
proof (induction "length (env t)" arbitrary: t rule: less_induct)
  case less
  show ?case
  proof (cases "open_connections (shared t) = 0")
    case True
    with less.prems show ?thesis by (simp add: wait_idle.simps [of t])
  next
    case False
    with less.prems obtain w t1 where "await_notified t = Finished (w, t1)"
      by (auto simp: wait_idle.simps [of t] and_then_Finished)
    with False less.prems less.hyps [of t1] await_notified_env show ?thesis
      by (simp add: wait_idle.simps [of t] split: if_split_asm)
  qed
qed

text \<open>
  \<open>wait_idle\<close> returns only when no connection is open, at once if none is, and it does return
  after a wake-up that finds the counter at zero, however many wake-ups came too early.
\<close>

lemma wait_idle_outcome:
  assumes "\<forall>ev \<in> set early. outcome ev = Notified" and "outcome ev = Notified"
    and "env t = early @ ev # late" and "\<forall>h. open_connections (others ev h) = 0"
  shows "(\<exists>t'. wait_idle t = Finished t')
    \<and> (\<forall>t'. wait_idle t = Finished t' \<longrightarrow> open_connections (shared t') = 0)
    \<and> (open_connections (shared t) = 0 \<longrightarrow> wait_idle t = Finished t)"
proof -
  have "\<exists>t'. wait_idle t = Finished t'"
    using assms(1,3)
  proof (induction early arbitrary: t)
    case Nil
    with assms(2,4) show ?case
      by (simp add: wait_idle.simps [of t] await_notified_Notified)
  next
    case (Cons e early)
    let ?t = "t\<lparr>shared := others e (shared t), env := early @ ev # late\<rparr>"
    from Cons.prems have "await_notified t = Finished (held_watch e, ?t)"
      by (simp add: await_notified_Notified)
    with Cons.IH [of ?t] Cons.prems show ?case by (auto simp: wait_idle.simps [of t])
  qed
  moreover have "open_connections (shared t) = 0 \<Longrightarrow> wait_idle t = Finished t"
    by (simp add: wait_idle.simps [of t])
  ultimately show ?thesis using wait_idle_Finished by blast
qed

section \<open>Error codes\<close>

text \<open>
  The field of \<open>VarInt\<close> is private: outside its module a value comes from \<open>MAX\<close>, a successful
  \<open>from_u64\<close> or one of the conversions.
\<close>

inductive made_varint :: "VarInt \<Rightarrow> bool" where
  max: "made_varint VarInt_MAX"
| from_u64: "varint_from_u64 v = Some x \<Longrightarrow> made_varint x"
| from_u32: "made_varint (varint_from_u32 a)"
| from_u16: "made_varint (varint_from_u16 b)"
| from_u8: "made_varint (varint_from_u8 c)"

lemma varint_ok_conversions [simp]:
  "varint_ok (varint_from_u32 a)" "varint_ok (varint_from_u16 b)" "varint_ok (varint_from_u8 c)"
  using varint_constructors by blast+

lemma truncated_code_bound [simp]: "unat (varint_into_inner (varint_from_u32 a)) < 2 ^ 32"
  using varint_constructors [of _ a] unsigned_less [of a] by auto

lemma made_varint_iff: "made_varint x \<longleftrightarrow> varint_ok x"
proof
  show "made_varint x \<Longrightarrow> varint_ok x"
  proof (induction rule: made_varint.induct)
    case (from_u64 v x)
    with varint_constructors [of v] show ?case by simp
  qed (simp_all, simp add: varint_ok_def)
  show "made_varint x" if "varint_ok x"
    using that made_varint.from_u64 [of "varint_into_inner x" x]
    by (simp add: varint_from_u64_def varint_ok_def less_eq_VarInt_def)
qed

text \<open>The codes a command carries to TQUIC fit the encoding of QUIC.\<close>

fun command_encodable :: "BridgeCommand \<Rightarrow> bool" where
  "command_encodable (CloseEndpoint code _) = (unat code < 2 ^ 62)"
| "command_encodable (CloseConnection _ code _) = (unat code < 2 ^ 62)"
| "command_encodable (StreamShutdownRead _ _ code) = (unat code < 2 ^ 62)"
| "command_encodable (StreamShutdownWrite _ _ code) = (unat code < 2 ^ 62)"
| "command_encodable _ = True"

text \<open>The codes an answer reports.\<close>

fun answer_encodable :: "response \<Rightarrow> bool" where
  "answer_encodable (RespWrite (Err (Stopped x))) = (varint_ok x \<and> unat (varint_into_inner x) < 2 ^ 32)"
| "answer_encodable (RespRead (Err (ReadReset x))) = (varint_ok x \<and> unat (varint_into_inner x) < 2 ^ 32)"
| "answer_encodable _ = True"

lemma answer_encodable_write: "answer_encodable (RespWrite (write_result r))"
  using truncated_code_bound by (auto simp: write_result_def split: result.split tquic_Error.split)

lemma answer_encodable_read: "answer_encodable (RespRead (read_result n x))"
  using truncated_code_bound by (auto simp: read_result_def Let_def split: result.split tquic_Error.split)

lemma query_conn_encodable:
  "(\<And>x. answer_encodable (ok x)) \<Longrightarrow> answer_encodable u \<Longrightarrow> list_all answer_encodable (map snd (responses b))
   \<Longrightarrow> list_all answer_encodable (map snd (responses (query_conn api i r f ok u b)))"
  using query_conn_answer [where P = answer_encodable and ok = ok and u = u and api = api and i = i and r = r and f = f and b = b]
  by auto

lemma process_command_encodable:
  assumes "list_all answer_encodable (map snd (responses b))"
  shows "list_all answer_encodable (map snd (responses (process_command api iter ec l cmd b)))"
  using assms
proof (cases cmd)
  case (Connect addr name cc r)
  with assms show ?thesis using process_connect_answer [of api ec l addr name cc r b] by auto
qed (auto simp: open_result_def on_conn_def process_close_endpoint_def answer_encodable_write answer_encodable_read Let_def
    intro!: query_conn_encodable split: prod.split)

text \<open>
  C24: the type of error codes. The values the constructors of \<open>VarInt\<close> make are exactly the ones
  QUIC can encode; every code that a \<open>stop\<close>, \<open>reset\<close>, drop or close hands to the TQUIC thread is one
  of them, and so is every code in an answer of the thread to whatever command, where the code of
  a stopped or reset stream is moreover below 2^32.
\<close>

theorem codes_stay_encodable:
  "(made_varint code \<longleftrightarrow> unat (varint_into_inner code) < 2 ^ 62)
   \<and> (made_varint code \<longrightarrow>
        list_all command_encodable (fst (snd (stop code v)) @ recv_drop v @ fst (snd (reset code s)) @ send_drop tx s)
      \<and> (list_all command_encodable (cmd_tx h) \<longrightarrow>
            list_all command_encodable (cmd_tx (conn_close_api code reason c h))
          \<and> list_all command_encodable (cmd_tx (endpoint_close code reason h))))
   \<and> (list_all answer_encodable (map snd (responses b))
      \<longrightarrow> list_all answer_encodable (map snd (responses (process_command api iter ec l cmd b))))"
  using process_command_encodable [of b api iter ec l cmd]
  by (auto simp: made_varint_iff varint_ok_unat stop_def recv_drop_def reset_def send_drop_def finish_def
      conn_close_api_def endpoint_close_def send_cmd_def varint_from_u32_def)

theorem codes_stay_encodable_witness:
  "made_varint (VarInt 7)
   \<and> list_all command_encodable (cmd_tx (endpoint_close (VarInt 7) [] (BridgeHandle_new addr_unspecified)))
   \<and> list_all answer_encodable (map snd (responses (process_command sample_api (\<lambda>m. []) EndpointConfig_default
        addr_unspecified (StreamRead 9 4 3 0) sample_bridge)))"
proof -
  have code: "made_varint (VarInt 7)" by (simp add: made_varint_iff varint_ok_unat)
  moreover have "list_all command_encodable (cmd_tx (BridgeHandle_new addr_unspecified))"
    "list_all answer_encodable (map snd (responses sample_bridge))"
    by (simp_all add: BridgeHandle_new_def sample_bridge_def)
  ultimately show ?thesis
    using codes_stay_encodable [of "VarInt 7" _ _ 0 "BridgeHandle_new addr_unspecified" "[]" _ sample_bridge sample_api
        "\<lambda>m. []" EndpointConfig_default addr_unspecified "StreamRead 9 4 3 0"]
    by blast
qed

end
