(* ===== verification/Refinement.thy ===== *)
theory Refinement
  imports System
begin

text \<open>
  The specification of a connection as the API sees it, and that the program implements it. A
  connection has a life: it handshakes, is established, is closed for a reason; what the operations
  return depends on nothing else.
\<close>

section \<open>The life of a connection\<close>

text \<open>Whether the handshake was completed, and why the connection was closed.\<close>

record life =
  handshaken :: bool
  ended :: "ConnectionError option"

definition life_of :: "(closed_watch \<Rightarrow> ConnectionError option) \<Rightarrow> ConnNotify \<Rightarrow> life" where
  "life_of borrow cn = \<lparr>handshaken = is_established cn, ended = borrow (closed_tx cn)\<rparr>"

definition lives_of :: "(closed_watch \<Rightarrow> ConnectionError option) \<Rightarrow> BridgeTransportHandler \<Rightarrow> u64 \<rightharpoonup> life" where
  "lives_of borrow self i = map_option (life_of borrow) (conn_states (handle self) i)"

text \<open>What a callback means for the lives of the connections; only three of the callbacks matter.\<close>

fun life_step :: "tquic_callback \<Rightarrow> (u64 \<rightharpoonup> life) \<Rightarrow> (u64 \<rightharpoonup> life)" where
  "life_step (OnConnCreated conn) lives = lives(callback_conn_id conn \<mapsto> \<lparr>handshaken = False, ended = None\<rparr>)"
| "life_step (OnConnEstablished conn) lives =
     lives(callback_conn_id conn := map_option (\<lambda>a. a\<lparr>handshaken := True\<rparr>) (lives (callback_conn_id conn)))"
| "life_step (OnConnClosed conn) lives =
     lives(callback_conn_id conn := map_option (\<lambda>a. a\<lparr>ended := close_error conn\<rparr>) (lives (callback_conn_id conn)))"
| "life_step _ lives = lives"

text \<open>What the operations return, as functions of a life; \<open>None\<close> is a connection without an entry.\<close>

fun life_poll :: "u64 \<Rightarrow> life option \<Rightarrow> (ConnectionError, Connection) result poll" where
  "life_poll i None = Ready (Err LocallyClosed)"
| "life_poll i (Some a) =
     (if handshaken a then Ready (Ok \<lparr>c_conn_id = i\<rparr>)
      else case ended a of Some e \<Rightarrow> Ready (Err e) | None \<Rightarrow> Pending)"

fun life_stream_error :: "life option \<Rightarrow> ConnectionError option" where
  "life_stream_error None = Some LocallyClosed"
| "life_stream_error (Some a) = ended a"

lemma life_of_new: "watch_law borrow \<Longrightarrow> borrow [None] = None"
  using watch_lawD [of borrow "[]" None] by simp

lemma life_of_entry_step:
  assumes "watch_law borrow"
  shows "life_of borrow (entry_step cb cn) =
    (case cb of
       OnConnCreated _ \<Rightarrow> \<lparr>handshaken = False, ended = None\<rparr>
     | OnConnEstablished _ \<Rightarrow> (life_of borrow cn)\<lparr>handshaken := True\<rparr>
     | OnConnClosed conn \<Rightarrow> (life_of borrow cn)\<lparr>ended := close_error conn\<rparr>
     | _ \<Rightarrow> life_of borrow cn)"
  using assms
  by (cases cb)
    (simp_all add: life_of_def life_of_new ConnNotify_new_def stream_created_def stream_became_readable_def
      stream_became_writable_def stream_was_closed_def Let_def)

lemma lives_of_callback:
  assumes "watch_law borrow"
  shows "lives_of borrow (handle_callback cb self) = life_step cb (lives_of borrow self)"
proof
  fix i
  have entry: "lives_of borrow (handle_callback cb self) i =
      (if i \<noteq> callback_id cb then lives_of borrow self i
       else if is_created cb then Some (life_of borrow (entry_step cb (ConnNotify_new addr_unspecified)))
       else map_option (\<lambda>cn. life_of borrow (entry_step cb cn)) (conn_states (handle self) i))"
    by (simp add: lives_of_def handle_callback_entry option.map_comp comp_def)
  show "lives_of borrow (handle_callback cb self) i = life_step cb (lives_of borrow self) i"
    unfolding entry life_of_entry_step [OF assms]
    by (cases cb) (auto simp: lives_of_def is_created_def option.map_comp comp_def)
qed

interpretation life_cycle: commutes handle_callback life_step "lives_of (last :: closed_watch \<Rightarrow> ConnectionError option)"
  by unfold_locales (rule lives_of_callback [OF watch_law_last])

section \<open>Properties\<close>

text \<open>
  C6: a connection has the life the specification gives it. Any run of callbacks moves the lives of
  all connections as the specification says, whatever else it does to the entries; and what a
  handshake future, \<open>close_reason\<close>, an open and the waits of the streams find is a function of the
  life alone.
\<close>

theorem life_cycle_refined:
  assumes "watch_law borrow" and "op_rx op = None" and "shared t = handle self"
  shows "lives_of borrow (run_callbacks cbs self) = fold life_step cbs (lives_of borrow self)
    \<and> fst (connecting_poll borrow w rx id (new_server i addr) (handle self)) = life_poll i (lives_of borrow self i)
    \<and> close_reason borrow c (handle self) = Option.bind (lives_of borrow self (c_conn_id c)) ended
    \<and> fst (open_bi_poll borrow tx Pending op (handle self))
      = (case Option.bind (lives_of borrow self (c_conn_id (op_conn op))) ended of Some e \<Rightarrow> Ready (Err e) | None \<Rightarrow> Pending)
    \<and> (\<forall>e. life_stream_error (lives_of borrow self (rs_conn_id v)) = Some e
        \<longrightarrow> wait_readable borrow v t = Finished (Err (ReadConnectionLost e), t))"
proof -
  have "commutes handle_callback life_step (lives_of borrow)"
    by (rule commutes.intro) (rule lives_of_callback [OF assms(1)])
  then have "lives_of borrow (run_callbacks cbs self) = fold life_step cbs (lives_of borrow self)"
    unfolding run_callbacks_def by (rule commutes.abs_run)
  moreover have "fst (connecting_poll borrow w rx id (new_server i addr) (handle self)) = life_poll i (lives_of borrow self i)"
    by (auto simp: lives_of_def life_of_def connecting_poll_def resolve_conn_id_def new_server_def check_entry_def
        get_conn_notify_def register_waker_def split: option.split)
  moreover have reason: "check_closed borrow c (handle self) = Option.bind (lives_of borrow self (c_conn_id c)) ended" for c
    by (cases "conn_states (handle self) (c_conn_id c)")
      (simp_all add: lives_of_def life_of_def check_closed_def get_conn_notify_def)
  moreover have "wait_readable borrow v t = Finished (Err (ReadConnectionLost e), t)"
    if "life_stream_error (lives_of borrow self (rs_conn_id v)) = Some e" for e
    using that assms(3)
    by (auto simp: lives_of_def life_of_def wait_readable_def get_conn_notify_def split: option.split)
  moreover have "close_reason borrow c (handle self) = check_closed borrow c (handle self)"
    by (simp add: close_reason_def check_closed_def)
  moreover have "fst (open_bi_poll borrow tx Pending op (handle self))
      = (case check_closed borrow (op_conn op) (handle self) of Some e \<Rightarrow> Ready (Err e) | None \<Rightarrow> Pending)"
    using assms(2) by (auto simp: open_bi_poll_def open_start_def split: option.split)
  ultimately show ?thesis by simp
qed

theorem life_cycle_refined_witness:
  "lives_of last (run_callbacks [OnConnCreated (sample_conn 7), OnConnEstablished (sample_conn 7)] sample_handler) 7
     = Some \<lparr>handshaken = True, ended = None\<rparr>
   \<and> fst (connecting_poll last 5 Pending id (new_server 9 addr_unspecified) (handle sample_handler)) = Ready (Err LocallyClosed)"
proof -
  let ?t = "\<lparr>shared = handle sample_handler, next_tx = 0, env = []\<rparr>"
  have "op_rx (open_bi \<lparr>c_conn_id = 7\<rparr>) = None" "shared ?t = handle sample_handler" by (simp_all add: open_bi_def)
  note life = life_cycle_refined [OF watch_law_last this]
  have "lives_of last sample_handler = Map.empty"
    by (simp add: lives_of_def fun_eq_iff sample_handler_def BridgeHandle_new_def)
  with life [of "[OnConnCreated (sample_conn 7), OnConnEstablished (sample_conn 7)]" 5 Pending 9 addr_unspecified]
  show ?thesis by simp
qed

end
