(* ===== verification/Stream_Race.thy ===== *)
theory Stream_Race
  imports Wakeups
begin

text \<open>
  The race between a task that reads from or writes to a stream and the TQUIC thread, at the
  granularity of single accesses to the shared state (\<open>read\<close> with \<open>wait_readable\<close> in
  \<^verbatim>\<open>src/recv_stream.rs\<close>, \<open>write\<close> with \<open>wait_writable\<close> in \<^verbatim>\<open>src/send_stream.rs\<close>, the callbacks in
  \<^verbatim>\<open>src/bridge.rs\<close>). The two ends have the same shape and are treated together.

  Between the thread's answer "nothing there" and the call of \<open>notified\<close> the thread may run any
  number of callbacks. Tokio's \<open>Notify\<close> keeps one permit for a \<open>notify_one\<close> that finds no waiter,
  so that a wait can complete when \<open>notify_one\<close> was called since the last wait completed;
  \<open>sr_mark\<close> is the length of the log of calls that earlier waits have used up. Of TQUIC the code
  relies on being told, by \<open>on_stream_readable\<close> or \<open>on_stream_writable\<close>, after bytes have come in or
  capacity has become free: \<open>sr_owed\<close> says that such a callback is still to come.
\<close>

section \<open>The two ends of a stream\<close>

datatype stream_end = Reading | Writing

fun end_log :: "stream_end \<Rightarrow> u64 \<Rightarrow> ConnNotify \<Rightarrow> Notify" where
  "end_log Reading = readable_log"
| "end_log Writing = writable_log"

fun end_create :: "stream_end \<Rightarrow> u64 \<Rightarrow> ConnNotify \<Rightarrow> ConnNotify" where
  "end_create Reading = get_or_create_readable"
| "end_create Writing = get_or_create_writable"

fun end_signal :: "stream_end \<Rightarrow> tquic_Connection \<Rightarrow> u64 \<Rightarrow> tquic_callback" where
  "end_signal Reading = OnStreamReadable"
| "end_signal Writing = OnStreamWritable"

text \<open>The callbacks that notify an end of stream \<open>s\<close>: its own signal and the end of the stream.\<close>

definition concerns :: "stream_end \<Rightarrow> u64 \<Rightarrow> tquic_callback \<Rightarrow> bool" where
  "concerns e s cb \<longleftrightarrow> (\<exists>conn. cb = end_signal e conn s \<or> cb = OnStreamClosed conn s)"

lemma end_log_create [simp]: "end_log e s (end_create e s cn) = end_log e s cn"
  by (cases e) simp_all

lemma end_log_grows:
  "\<not> is_created cb \<Longrightarrow> log_grows (\<exists>conn. cb = end_signal e conn s) (end_log e s cn) (end_log e s (entry_step cb cn))"
  by (cases e) (simp_all add: entry_step_log)

lemma end_log_quiet:
  "\<not> is_created cb \<Longrightarrow> \<not> concerns e s cb \<Longrightarrow> end_log e s (entry_step cb cn) = end_log e s cn"
  by (cases e; cases cb)
    (auto simp: concerns_def is_created_def readable_log_def writable_log_def stream_created_def
      stream_became_readable_def stream_became_writable_def stream_was_closed_def get_or_create_readable_def
      get_or_create_writable_def or_insert_apply notify_entry_apply Let_def split: option.split)

lemma end_log_run_quiet:
  "list_all (\<lambda>cb. \<not> is_created cb \<and> \<not> concerns e s cb) cbs \<Longrightarrow> end_log e s (fold entry_step cbs cn) = end_log e s cn"
  by (induction cbs arbitrary: cn) (simp_all add: end_log_quiet)

section \<open>Steps\<close>

text \<open>
  The next access of the task: send the request, receive its answer, look at the close watch, get
  or create the notification, wait, look at the close watch again. \<open>Transferred\<close> is a call that returned
  with bytes read or written, \<open>Lost\<close> one that found the connection closed, \<open>Failed\<close> one whose answer
  was an error.
\<close>

datatype stream_pc =
    Requesting | Answering | CheckingOpen | Creating | Notified | CheckingAgain
  | Transferred | Lost ConnectionError | Failed

record stream_race =
  sr_entry :: ConnNotify
  sr_task :: stream_pc
  sr_ready :: bool
  sr_owed :: bool
  sr_mark :: nat

text \<open>A wait that consumes the calls before \<open>m\<close> can complete: one of them is a \<open>notify_one\<close>.\<close>

definition permit :: "stream_end \<Rightarrow> u64 \<Rightarrow> stream_race \<Rightarrow> nat \<Rightarrow> bool" where
  "permit e s r m \<longleftrightarrow> m \<le> length (end_log e s (sr_entry r))
     \<and> NotifyOne \<in> set (drop (sr_mark r) (take m (end_log e s (sr_entry r))))"

text \<open>
  One task waits: the reads and writes borrow the stream mutably, so that no two of them wait on the
  same direction. The background tasks that \<open>poll_read\<close> and \<open>poll_write\<close> spawn are not part of the race.
\<close>

inductive stream_step ::
    "(closed_watch \<Rightarrow> ConnectionError option) \<Rightarrow> stream_end \<Rightarrow> u64 \<Rightarrow> stream_race \<Rightarrow> stream_race \<Rightarrow> bool"
  for borrow :: "closed_watch \<Rightarrow> ConnectionError option" and e :: stream_end and s :: u64 where
  request: "sr_task r = Requesting \<Longrightarrow> stream_step borrow e s r (r\<lparr>sr_task := Answering\<rparr>)"
| answered: "sr_task r = Answering \<Longrightarrow> sr_ready r
    \<Longrightarrow> stream_step borrow e s r (r\<lparr>sr_task := Transferred, sr_ready := rest\<rparr>)"
| empty: "sr_task r = Answering \<Longrightarrow> \<not> sr_ready r \<Longrightarrow> stream_step borrow e s r (r\<lparr>sr_task := CheckingOpen\<rparr>)"
| failed: "sr_task r = Answering \<Longrightarrow> stream_step borrow e s r (r\<lparr>sr_task := Failed\<rparr>)"
| check: "sr_task r = CheckingOpen
    \<Longrightarrow> stream_step borrow e s r (r\<lparr>sr_task :=
          case borrow (closed_tx (sr_entry r)) of Some err \<Rightarrow> Lost err | None \<Rightarrow> Creating\<rparr>)"
| create: "sr_task r = Creating
    \<Longrightarrow> stream_step borrow e s r (r\<lparr>sr_task := Notified, sr_entry := end_create e s (sr_entry r)\<rparr>)"
| wake: "sr_task r = Notified \<Longrightarrow> permit e s r m
    \<Longrightarrow> stream_step borrow e s r (r\<lparr>sr_task := CheckingAgain, sr_mark := m\<rparr>)"
| recheck: "sr_task r = CheckingAgain
    \<Longrightarrow> stream_step borrow e s r (r\<lparr>sr_task :=
          case borrow (closed_tx (sr_entry r)) of Some err \<Rightarrow> Lost err | None \<Rightarrow> Requesting\<rparr>)"
| call_again: "sr_task r = Transferred \<Longrightarrow> stream_step borrow e s r (r\<lparr>sr_task := Requesting\<rparr>)"
| arrive: "stream_step borrow e s r (r\<lparr>sr_ready := True, sr_owed := True\<rparr>)"
| callback: "\<not> is_created cb
    \<Longrightarrow> stream_step borrow e s r (r\<lparr>sr_entry := entry_step cb (sr_entry r),
          sr_owed := sr_owed r \<and> (\<forall>conn. cb \<noteq> end_signal e conn s)\<rparr>)"

definition stream_start :: "stream_race \<Rightarrow> bool" where
  "stream_start r \<longleftrightarrow> sr_task r = Requesting \<and> sr_mark r = 0"

text \<open>The waiting task cannot go on by itself.\<close>

definition blocked :: "(closed_watch \<Rightarrow> ConnectionError option) \<Rightarrow> stream_end \<Rightarrow> u64 \<Rightarrow> stream_race \<Rightarrow> bool" where
  "blocked borrow e s r \<longleftrightarrow> sr_task r = Notified \<and> (\<forall>m. \<not> permit e s r m)"

lemma blocked_no_step: "blocked borrow e s r \<Longrightarrow> stream_step borrow e s r r' \<Longrightarrow> sr_task r' = Notified"
  by (erule stream_step.cases) (auto simp: blocked_def)

lemma log_new [simp]: "readable_log s (ConnNotify_new addr) = []" "writable_log s (ConnNotify_new addr) = []"
  by (simp_all add: readable_log_def writable_log_def ConnNotify_new_def)

section \<open>The invariant\<close>

text \<open>
  From the moment a request was answered with "nothing there" until the wait is over: if there is
  something by now, a permit is there or the callback is still to come.
\<close>

definition stream_race_ok :: "stream_end \<Rightarrow> u64 \<Rightarrow> stream_race \<Rightarrow> bool" where
  "stream_race_ok e s r \<longleftrightarrow> sr_mark r \<le> length (end_log e s (sr_entry r))
     \<and> (sr_task r \<in> {CheckingOpen, Creating, Notified} \<and> sr_ready r
        \<longrightarrow> sr_owed r \<or> NotifyOne \<in> set (drop (sr_mark r) (end_log e s (sr_entry r))))"

lemma stream_race_ok_callback:
  assumes "stream_race_ok e s r" and "\<not> is_created cb"
  shows "stream_race_ok e s (r\<lparr>sr_entry := entry_step cb (sr_entry r),
    sr_owed := sr_owed r \<and> (\<forall>conn. cb \<noteq> end_signal e conn s)\<rparr>)"
proof -
  from end_log_grows [OF assms(2), of e s "sr_entry r"]
  obtain calls where "end_log e s (entry_step cb (sr_entry r)) = end_log e s (sr_entry r) @ calls"
    "(\<exists>conn. cb = end_signal e conn s) \<longrightarrow> NotifyOne \<in> set calls"
    by (auto simp: log_grows_def)
  with assms(1) show ?thesis by (auto simp: stream_race_ok_def)
qed

interpretation stream_race: invariant_system stream_start "stream_step borrow e s" "stream_race_ok e s"
  for borrow e s
proof (unfold_locales, goal_cases)
  case (1 r)
  then show ?case by (simp add: stream_start_def stream_race_ok_def)
next
  case (2 r r')
  from 2(2) 2(1) show ?case
  proof cases
    case (callback cb)
    with 2(1) stream_race_ok_callback show ?thesis by blast
  qed (auto simp: stream_race_ok_def permit_def split: option.split)
qed

lemma permit_all:
  "NotifyOne \<in> set (drop (sr_mark r) (end_log e s (sr_entry r))) \<Longrightarrow> permit e s r (length (end_log e s (sr_entry r)))"
  by (simp add: permit_def)

section \<open>Properties\<close>

text \<open>
  C7: no wake-up of a stream is lost. In every reachable state in which a reader or writer waits
  for its notification although the stream has become ready since its request was answered, the
  wait can complete at once, or TQUIC's callback is still to come and the wait can complete as
  soon as the thread has run it: the permit is kept also when the callback ran before the wait
  began.
\<close>

theorem stream_wakeup_not_lost:
  assumes "reachable_from stream_start (stream_step borrow e s) r" and "sr_task r = Notified" and "sr_ready r"
  shows "(\<exists>m. stream_step borrow e s r (r\<lparr>sr_task := CheckingAgain, sr_mark := m\<rparr>))
    \<or> sr_owed r \<and> (\<forall>conn. \<exists>r' m. stream_step borrow e s r r' \<and> sr_entry r' = entry_step (end_signal e conn s) (sr_entry r)
        \<and> stream_step borrow e s r' (r'\<lparr>sr_task := CheckingAgain, sr_mark := m\<rparr>))"
proof (cases "NotifyOne \<in> set (drop (sr_mark r) (end_log e s (sr_entry r)))")
  case True
  from stream_step.wake [OF assms(2) permit_all [OF this]] show ?thesis by blast
next
  case False
  have ok: "stream_race_ok e s r" by (rule stream_race.reachable_inv [OF assms(1)])
  with False assms(2,3) have "sr_owed r" by (simp add: stream_race_ok_def)
  moreover have "\<exists>r' m. stream_step borrow e s r r' \<and> sr_entry r' = entry_step (end_signal e conn s) (sr_entry r)
      \<and> stream_step borrow e s r' (r'\<lparr>sr_task := CheckingAgain, sr_mark := m\<rparr>)" for conn
  proof -
    have new: "\<not> is_created (end_signal e conn s)" by (cases e) (simp_all add: is_created_def)
    let ?r = "r\<lparr>sr_entry := entry_step (end_signal e conn s) (sr_entry r),
      sr_owed := sr_owed r \<and> (\<forall>conn'. end_signal e conn s \<noteq> end_signal e conn' s)\<rparr>"
    have "stream_step borrow e s r ?r" by (rule stream_step.callback [OF new])
    moreover have "NotifyOne \<in> set (drop (sr_mark ?r) (end_log e s (sr_entry ?r)))"
      using stream_race_ok_callback [OF ok new] assms(2,3) by (auto simp: stream_race_ok_def)
    ultimately show ?thesis
      using stream_step.wake [OF _ permit_all, of ?r e s borrow] assms(2) by auto
  qed
  ultimately show ?thesis by blast
qed

text \<open>The steps that take a new task to its wait on an entry that is open and has no data.\<close>

definition waiting_race :: "ConnNotify \<Rightarrow> stream_race" where
  "waiting_race cn = \<lparr>sr_entry = cn, sr_task = Notified, sr_ready = False, sr_owed = False, sr_mark = 0\<rparr>"

lemma waiting_race_reachable:
  assumes "borrow (closed_tx cn) = None"
  shows "reachable_from stream_start (stream_step borrow e s) (waiting_race (end_create e s cn))"
proof -
  let ?r = "\<lambda>pc. \<lparr>sr_entry = cn, sr_task = pc, sr_ready = False, sr_owed = False, sr_mark = 0\<rparr>"
  let ?R = "reachable_from stream_start (stream_step borrow e s)"
  have "?R (?r Requesting)" by (rule reachable_from.start) (simp add: stream_start_def)
  from reachable_from.step [OF this stream_step.request] have "?R (?r Answering)" by simp
  from reachable_from.step [OF this stream_step.empty] have "?R (?r CheckingOpen)" by simp
  from reachable_from.step [OF this stream_step.check] have "?R (?r Creating)" by (simp add: assms)
  from reachable_from.step [OF this stream_step.create] show ?thesis by (simp add: waiting_race_def)
qed

theorem stream_wakeup_not_lost_witness:
  "let r = (waiting_race (end_create Reading 4 (ConnNotify_new addr_unspecified)))\<lparr>sr_ready := True, sr_owed := True\<rparr>
   in \<exists>r' m. stream_step last Reading 4 r r' \<and> sr_entry r' = entry_step (OnStreamReadable (sample_conn 7) 4) (sr_entry r)
     \<and> stream_step last Reading 4 r' (r'\<lparr>sr_task := CheckingAgain, sr_mark := m\<rparr>)"
proof -
  let ?w = "waiting_race (end_create Reading 4 (ConnNotify_new addr_unspecified))"
  let ?r = "?w\<lparr>sr_ready := True, sr_owed := True\<rparr>"
  have "reachable_from stream_start (stream_step last Reading 4) ?w"
    by (rule waiting_race_reachable) (simp add: ConnNotify_new_def)
  from reachable_from.step [OF this stream_step.arrive]
  have "reachable_from stream_start (stream_step last Reading 4) ?r" .
  from stream_wakeup_not_lost [OF this]
  have either: "(\<exists>m. stream_step last Reading 4 ?r (?r\<lparr>sr_task := CheckingAgain, sr_mark := m\<rparr>))
    \<or> (\<forall>conn. \<exists>r' m. stream_step last Reading 4 ?r r' \<and> sr_entry r' = entry_step (OnStreamReadable conn 4) (sr_entry ?r)
        \<and> stream_step last Reading 4 r' (r'\<lparr>sr_task := CheckingAgain, sr_mark := m\<rparr>))"
    by (simp add: waiting_race_def)
  have "blocked last Reading 4 ?r"
    using end_log_create [of Reading 4 "ConnNotify_new addr_unspecified"]
    by (simp add: blocked_def waiting_race_def permit_def)
  with blocked_no_step [OF this] have "\<not> stream_step last Reading 4 ?r (?r\<lparr>sr_task := CheckingAgain, sr_mark := m\<rparr>)" for m
    by fastforce
  with either show ?thesis unfolding Let_def by blast
qed

text \<open>
  C37: the close of a connection does not wake the tasks that wait on its streams. There is, for
  either end, a reachable state in which the connection is closed, its reason is recorded and the
  task still waits; no callback except those about this very stream lets it go on, so that unless
  TQUIC also reports the stream, the task waits for ever although the next look at the close watch
  would end it.
\<close>

theorem stream_waits_after_close:
  "\<exists>r err. reachable_from stream_start (stream_step last e s) r \<and> sr_task r = Notified
     \<and> last (closed_tx (sr_entry r)) = Some err
     \<and> (\<forall>cbs r'. \<not> (list_all (\<lambda>cb. \<not> is_created cb \<and> \<not> concerns e s cb) cbs
         \<and> stream_step last e s (r\<lparr>sr_entry := fold entry_step cbs (sr_entry r)\<rparr>) r' \<and> sr_task r' \<noteq> Notified))"
proof -
  let ?w = "waiting_race (end_create e s (ConnNotify_new addr_unspecified))"
  let ?close = "OnConnClosed (sample_conn 7)"
  let ?r = "?w\<lparr>sr_entry := entry_step ?close (sr_entry ?w)\<rparr>"
  have "reachable_from stream_start (stream_step last e s) ?w"
    by (rule waiting_race_reachable) (simp add: ConnNotify_new_def)
  from reachable_from.step [OF this stream_step.callback [of ?close]]
  have "reachable_from stream_start (stream_step last e s) ?r" by (simp add: is_created_def waiting_race_def)
  moreover have "\<exists>err. close_error (sample_conn 7) = Some err" by (simp add: close_error_def split: option.split)
  then obtain err where "last (closed_tx (sr_entry ?r)) = Some err" by auto
  moreover have log: "end_log e s (sr_entry ?r) = []"
    using end_log_quiet [of ?close e s "end_create e s (ConnNotify_new addr_unspecified)"]
    by (cases e) (auto simp: waiting_race_def is_created_def concerns_def)
  have "sr_task r' = Notified"
    if "list_all (\<lambda>cb. \<not> is_created cb \<and> \<not> concerns e s cb) cbs"
      "stream_step last e s (?r\<lparr>sr_entry := fold entry_step cbs (sr_entry ?r)\<rparr>) r'" for cbs r'
  proof (rule blocked_no_step [OF _ that(2)])
    from end_log_run_quiet [OF that(1), of "sr_entry ?r"] log
    show "blocked last e s (?r\<lparr>sr_entry := fold entry_step cbs (sr_entry ?r)\<rparr>)"
      by (simp add: blocked_def permit_def waiting_race_def)
  qed
  ultimately show ?thesis
    by (intro exI [of _ ?r] exI [of _ err]) (auto simp: waiting_race_def)
qed

end
