(* ===== verification/Futures.thy ===== *)
theory Futures
  imports Endpoint
begin

text \<open>
  What \<open>.await\<close> does with the futures of the API that are written by hand (\<open>OpenBi\<close>, \<open>Connecting\<close>,
  \<open>Accept\<close>): it polls, and polls again when the task is woken. The operations of the stream handles
  that send at once (\<open>finish\<close>, \<open>Drop\<close>) are lifted to tasks. The example programs are written over
  these.
\<close>

section \<open>Opening a stream\<close>

fun open_response :: "response \<Rightarrow> (ConnectionError, u64) result option" where
  "open_response (RespOpen x) = Some x"
| "open_response _ = None"

text \<open>What a wake-up of the receiver means for its next poll; \<open>None\<close> when it cannot be its cause.\<close>

fun rx_ready :: "(response \<Rightarrow> 'a option) \<Rightarrow> await_result \<Rightarrow> 'a rx_poll option" where
  "rx_ready prj (Answered (Some x)) = map_option (\<lambda>a. Ready (Ok a)) (prj x)"
| "rx_ready prj (Answered None) = Some (Ready (Err ()))"
| "rx_ready prj Notified = Some Pending"
| "rx_ready prj _ = None"

lemma await_env: "await t = Finished (r, w, t') \<Longrightarrow> length (env t') < length (env t)"
  by (cases "env t") (auto simp: await_def)

text \<open>
  \<open>conn.open_bi().await\<close>: \<open>rx\<close> is what polling the receiver returns in this round. A round that is
  woken without an answer polls again.
\<close>

function await_open_bi ::
    "(closed_watch \<Rightarrow> ConnectionError option) \<Rightarrow> (ConnectionError, u64) result rx_poll \<Rightarrow> Opening \<Rightarrow> task
     \<Rightarrow> ((ConnectionError, SendStream \<times> RecvStream) result \<times> task) run" where
  "await_open_bi borrow rx self t =
     (case open_bi_poll borrow (next_tx t) rx self (shared t) of
        (Ready r, self', h) \<Rightarrow> Finished (r, t\<lparr>shared := h\<rparr>)
      | (Pending, self', h) \<Rightarrow>
          and_then (await (t\<lparr>shared := h, next_tx := next_tx t + (if op_rx self = None then 1 else 0)\<rparr>)) (\<lambda>(r, w, t).
            case rx_ready open_response r of
              Some rx \<Rightarrow> await_open_bi borrow rx self' t
            | None \<Rightarrow> Suspended (shared t)))"
  by pat_completeness auto

termination
  by (relation "measure (\<lambda>(_, _, _, t). length (env t))") (auto dest!: await_env)

declare await_open_bi.simps [simp del]

definition open_bi_await ::
    "(closed_watch \<Rightarrow> ConnectionError option) \<Rightarrow> Connection \<Rightarrow> task
     \<Rightarrow> ((ConnectionError, SendStream \<times> RecvStream) result \<times> task) run" where
  "open_bi_await borrow self t = await_open_bi borrow Pending (open_bi self) t"

section \<open>Waiting for a handshake\<close>

fun connect_response :: "response \<Rightarrow> (ConnectError, u64) result option" where
  "connect_response (RespConnect x) = Some x"
| "connect_response _ = None"

text \<open>\<open>connecting.await\<close>; \<open>w\<close> is the waker of the task.\<close>

function await_connecting ::
    "(closed_watch \<Rightarrow> ConnectionError option) \<Rightarrow> waker \<Rightarrow> (ConnectError, u64) result rx_poll \<Rightarrow> Connecting
     \<Rightarrow> task \<Rightarrow> ((ConnectionError, Connection) result \<times> task) run" where
  "await_connecting borrow w rx self t =
     (case connecting_poll borrow w rx id self (shared t) of
        (Ready r, self, h) \<Rightarrow> Finished (r, t\<lparr>shared := h\<rparr>)
      | (Pending, self, h) \<Rightarrow>
          and_then (await (t\<lparr>shared := h\<rparr>)) (\<lambda>(r, _, t).
            case rx_ready connect_response r of
              Some rx \<Rightarrow> await_connecting borrow w rx self t
            | None \<Rightarrow> Suspended (shared t)))"
  by pat_completeness auto

termination
  by (relation "measure (\<lambda>(_, _, _, _, t). length (env t))") (auto dest!: await_env)

declare await_connecting.simps [simp del]

section \<open>Waiting for a connection\<close>

text \<open>
  \<open>endpoint.accept().await\<close>. The first poll finds the lock free and the channel empty, unless the
  endpoint is closed; a value that is there already is one that arrives at once.
\<close>

definition await_accept :: "task \<Rightarrow> (Incoming option \<times> task) run" where
  "await_accept t =
     (case accept_poll True Pending (shared t) of
        (Ready r, _) \<Rightarrow> Finished (r, t)
      | (Pending, _) \<Rightarrow>
          and_then (await t) (\<lambda>(r, w, t).
            case r of
              Arrived data \<Rightarrow>
                (case accept_poll True (Ready data) (shared t) of
                   (Ready r, _) \<Rightarrow> Finished (r, t)
                 | (Pending, _) \<Rightarrow> Suspended (shared t))
            | _ \<Rightarrow> Suspended (shared t)))"

section \<open>Ending streams\<close>

definition send_cmds :: "BridgeCommand list \<Rightarrow> task \<Rightarrow> task" where
  "send_cmds cmds t = t\<lparr>shared := fold send_cmd cmds (shared t)\<rparr>"

definition finish_now :: "SendStream \<Rightarrow> task \<Rightarrow> (ClosedStream, unit) result \<times> SendStream \<times> task" where
  "finish_now self t =
     (let (r, cmds, self) = finish (next_tx t) self
      in (r, self, (send_cmds cmds t)\<lparr>next_tx := next_tx t + length cmds\<rparr>))"

definition drop_send :: "SendStream \<Rightarrow> task \<Rightarrow> task" where
  "drop_send self t =
     (let cmds = send_drop (next_tx t) self
      in (send_cmds cmds t)\<lparr>next_tx := next_tx t + length cmds\<rparr>)"

definition drop_recv :: "RecvStream \<Rightarrow> task \<Rightarrow> task" where
  "drop_recv self t = send_cmds (recv_drop self) t"

text \<open>The streams of a pair go out of scope in this order.\<close>

definition drop_streams :: "SendStream \<Rightarrow> RecvStream \<Rightarrow> task \<Rightarrow> task" where
  "drop_streams s r t = drop_send s (drop_recv r t)"

section \<open>Laws\<close>

lemma await_Cons:
  "env t = ev # evs \<Longrightarrow> await t = Finished (outcome ev, held_watch ev, t\<lparr>shared := others ev (shared t), env := evs\<rparr>)"
  by (simp add: await_def)

text \<open>
  Spurious wake-ups do not matter to an open: the request is sent once, and the answer decides.
\<close>

fun open_result_of :: "u64 \<Rightarrow> (unit, (ConnectionError, u64) result) result
    \<Rightarrow> (ConnectionError, SendStream \<times> RecvStream) result" where
  "open_result_of i (Ok (Ok s)) = Ok (new_send_stream i s, new_recv_stream i s)"
| "open_result_of i (Ok (Err e)) = Err e"
| "open_result_of i (Err _) = Err LocallyClosed"

fun open_outcome :: "(unit, (ConnectionError, u64) result) result \<Rightarrow> await_result" where
  "open_outcome (Ok x) = Answered (Some (RespOpen x))"
| "open_outcome (Err _) = Answered None"

lemma rx_ready_open: "rx_ready open_response (open_outcome a) = Some (Ready a)"
  by (cases a) simp_all

lemma open_answer_result:
  "open_answer (\<lambda>s. (new_send_stream i s, new_recv_stream i s)) (Ready a) = Ready (open_result_of i a)"
  by (rule open_result_of.cases [of "(i, a)"]) simp_all

lemma open_bi_poll_started:
  "op_rx self = Some x \<Longrightarrow> open_bi_poll borrow tx rx self h
   = (open_answer (\<lambda>s. (new_send_stream (c_conn_id (op_conn self)) s, new_recv_stream (c_conn_id (op_conn self)) s)) rx, self, h)"
  by (simp add: open_bi_poll_def open_start_def)

lemma await_open_bi_answer:
  assumes "op_rx self = Some x" and "\<forall>e \<in> set spurious. outcome e = Notified" and "outcome ev = open_outcome a"
    and "env t = spurious @ ev # later"
  shows "await_open_bi borrow Pending self t
    = Finished (open_result_of (c_conn_id (op_conn self)) a,
        t\<lparr>shared := others ev (fold others spurious (shared t)), env := later\<rparr>)"
  using assms(2,4)
proof (induction spurious arbitrary: t)
  case Nil
  with assms(1,3) show ?case
    by (simp add: await_open_bi.simps [of borrow Pending] await_open_bi.simps [of borrow "Ready a"]
        open_bi_poll_started await_Cons rx_ready_open open_answer_result)
next
  case (Cons e spurious)
  let ?t = "t\<lparr>shared := others e (shared t), env := spurious @ ev # later\<rparr>"
  have "await_open_bi borrow Pending self t = await_open_bi borrow Pending self ?t"
    using assms(1) Cons.prems
    by (subst await_open_bi.simps) (simp add: open_bi_poll_started await_Cons)
  with Cons.IH [of ?t] Cons.prems show ?case by simp
qed

lemma open_bi_await_answer:
  assumes "check_closed borrow c (shared t) = None"
    and "\<forall>e \<in> set spurious. outcome e = Notified" and "outcome ev = open_outcome a"
    and "env t = spurious @ ev # later"
  shows "open_bi_await borrow c t
    = Finished (open_result_of (c_conn_id c) a,
        t\<lparr>shared := others ev (fold others spurious (send_cmd (OpenBiStream (c_conn_id c) (next_tx t)) (shared t))),
          next_tx := Suc (next_tx t), env := later\<rparr>)"
proof -
  let ?op = "(open_bi c)\<lparr>op_rx := Some (next_tx t)\<rparr>"
  let ?t = "t\<lparr>shared := send_cmd (OpenBiStream (c_conn_id c) (next_tx t)) (shared t), next_tx := Suc (next_tx t)\<rparr>"
  have "op_rx ?op = Some (next_tx t)" and env: "env ?t = spurious @ ev # later" using assms(4) by simp_all
  note run = await_open_bi_answer [OF this(1) assms(2,3) this(2), of borrow]
  have "open_bi_await borrow c t = await_open_bi borrow Pending ?op ?t"
  proof -
    have poll: "open_bi_poll borrow (next_tx t) Pending (open_bi c) (shared t) = (Pending, ?op, shared ?t)"
      using assms(1) by (simp add: open_bi_poll_def open_start_def open_bi_def)
    have "op_rx (open_bi c) = None" by (simp add: open_bi_def)
    with poll show ?thesis
      by (simp add: open_bi_await_def await_open_bi.simps [of borrow Pending "open_bi c" t]
          await_open_bi.simps [of borrow Pending ?op ?t] open_bi_poll_started)
  qed
  with run show ?thesis by (simp add: open_bi_def)
qed

section \<open>Loops end\<close>

text \<open>Each operation leaves no more events than it found, and the ones that wait leave fewer.\<close>

lemma read_env: "read borrow self buf t = Finished (r, self', buf', t') \<Longrightarrow> length (env t') \<le> length (env t)"
  by (auto simp: read_def dest!: read_loop_env split: if_split_asm)

lemma read_to_end_loop_env:
  "read_to_end_loop borrow limit self acc buf t = Finished (r, self', t') \<Longrightarrow> length (env t') \<le> length (env t)"
proof (induction "length (env t)" arbitrary: t self acc buf rule: less_induct)
  case less
  from less.prems obtain r1 s1 b1 t1 where rd: "read borrow self buf t = Finished (r1, s1, b1, t1)"
    by (subst (asm) read_to_end_loop.simps) (auto simp: and_then_Finished)
  have le: "length (env t1) \<le> length (env t)" by (rule read_env [OF rd])
  show ?case
  proof (cases "\<exists>n. r1 = Ok (Some n) \<and> length (acc @ take n b1) \<le> limit")
    case True
    then obtain n where n: "r1 = Ok (Some n)" "length (acc @ take n b1) \<le> limit" by blast
    have lt: "length (env t1) < length (env t)" using rd n(1) by (simp add: read_Some_env)
    have "read_to_end_loop borrow limit s1 (acc @ take n b1) b1 t1 = Finished (r, self', t')"
      using less.prems n rd by (subst (asm) read_to_end_loop.simps) (simp add: Let_def)
    with less.hyps [OF lt] le show ?thesis by fastforce
  next
    case False
    with less.prems rd le show ?thesis
      by (subst (asm) read_to_end_loop.simps) (auto simp: Let_def split: result.split_asm option.split_asm if_split_asm)
  qed
qed

lemma read_to_end_env: "read_to_end borrow limit self t = Finished (r, self', t') \<Longrightarrow> length (env t') \<le> length (env t)"
  unfolding read_to_end_def by (rule read_to_end_loop_env)

lemma write_all_loop_env:
  "write_all_loop borrow self offset buf t = Finished (r, t') \<Longrightarrow> length (env t') \<le> length (env t)"
proof (induction "length (env t)" arbitrary: t offset rule: less_induct)
  case less
  show ?case
  proof (cases "offset < length buf")
    case False
    with less.prems show ?thesis by (subst (asm) write_all_loop.simps) simp
  next
    case True
    with less.prems obtain w t1 where w: "send_write borrow self (drop offset buf) t = Finished (w, t1)"
      by (subst (asm) write_all_loop.simps) (auto simp: and_then_Finished)
    have le: "length (env t1) \<le> length (env t)"
      using w by (auto simp: send_write_def dest!: write_loop_env split: if_split_asm)
    show ?thesis
    proof (cases w)
      case (Ok n)
      then have lt: "length (env t1) < length (env t)" using w write_Ok_env by blast
      have "write_all_loop borrow self (offset + n) buf t1 = Finished (r, t')"
        using less.prems True w Ok by (subst (asm) write_all_loop.simps) simp
      with less.hyps [OF lt] lt show ?thesis by fastforce
    next
      case (Err e)
      with less.prems True w le show ?thesis by (subst (asm) write_all_loop.simps) simp
    qed
  qed
qed

lemma write_all_env: "write_all borrow self buf t = Finished (r, t') \<Longrightarrow> length (env t') \<le> length (env t)"
  unfolding write_all_def by (rule write_all_loop_env)

lemma accept_bi_loop_env:
  "accept_bi_loop borrow i w t = Finished (Ok p, t') \<Longrightarrow> length (env t') < length (env t)"
proof (induction "length (env t)" arbitrary: t w rule: less_induct)
  case less
  from less.prems have open1: "borrow w = None"
    by (subst (asm) accept_bi_loop.simps) (auto split: option.split_asm)
  with less.prems obtain t1 branch w' t2 where lock: "await_lock t = Finished t1"
    and sel: "await_stream_or_close t1 = Finished (branch, w', t2)"
    by (subst (asm) accept_bi_loop.simps) (auto simp: and_then_Finished)
  have lt: "length (env t2) < length (env t)"
    using await_lock_env [OF lock] await_stream_or_close_env [OF sel] by simp
  have run: "accept_bi_loop borrow i w t = (case branch of
        Some (Some x) \<Rightarrow> Finished (Ok (new_send_stream i x, new_recv_stream i x), t2)
      | Some None \<Rightarrow> Finished (Err LocallyClosed, t2)
      | None \<Rightarrow> (case borrow w' of Some err \<Rightarrow> Finished (Err err, t2) | None \<Rightarrow> accept_bi_loop borrow i w' t2))"
    using open1 lock sel by (subst accept_bi_loop.simps) simp
  show ?case
  proof (cases "branch = None \<and> borrow w' = None")
    case True
    with run less.prems less.hyps [OF lt, of w'] lt show ?thesis by simp
  next
    case False
    with run less.prems lt show ?thesis by (auto split: option.split_asm)
  qed
qed

lemma accept_bi_env: "accept_bi borrow c t = Finished (Ok p, t') \<Longrightarrow> length (env t') < length (env t)"
  by (auto simp: accept_bi_def dest: accept_bi_loop_env split: option.split_asm)

lemma await_connecting_env:
  "await_connecting borrow w rx self t = Finished (r, t') \<Longrightarrow> length (env t') \<le> length (env t)"
proof (induction "length (env t)" arbitrary: t rx self rule: less_induct)
  case less
  obtain p self1 h where poll: "connecting_poll borrow w rx id self (shared t) = (p, self1, h)"
    by (cases "connecting_poll borrow w rx id self (shared t)") auto
  show ?case
  proof (cases p)
    case (Ready x)
    with poll less.prems show ?thesis by (subst (asm) await_connecting.simps) auto
  next
    case Pending
    with poll less.prems obtain o1 w1 t1 rx1 where aw: "await (t\<lparr>shared := h\<rparr>) = Finished (o1, w1, t1)"
      and next1: "await_connecting borrow w rx1 self1 t1 = Finished (r, t')"
      by (subst (asm) await_connecting.simps) (auto simp: and_then_Finished split: option.split_asm)
    have "length (env t1) < length (env t)" using await_env [OF aw] by simp
    with less.hyps [OF this next1] show ?thesis by simp
  qed
qed

lemma await_accept_env: "await_accept t = Finished (Some i, t') \<Longrightarrow> length (env t') < length (env t)"
proof (cases "env t")
  case (Cons ev evs)
  assume "await_accept t = Finished (Some i, t')"
  with Cons have "env t' = evs"
    by (cases "outcome ev") (auto simp: await_accept_def accept_poll_def await_Cons split: if_split_asm option.split_asm)
  with Cons show ?thesis by simp
qed (simp add: await_accept_def accept_poll_def await_def split: if_split_asm)

lemma drop_env [simp]:
  "env (drop_send s t) = env t" "env (drop_recv r t) = env t" "env (drop_streams s r t) = env t"
  "env (send_cmds cmds t) = env t"
  by (simp_all add: drop_send_def drop_recv_def drop_streams_def send_cmds_def Let_def)

lemma finish_now_env: "finish_now s t = (r, s', t') \<Longrightarrow> env t' = env t"
  by (auto simp: finish_now_def Let_def split: prod.split_asm)

end
