(* ===== verification/Addr_Parse.thy ===== *)
theory Addr_Parse
  imports Lib_Types
begin

text \<open>
  Parsing of socket addresses, which the example programs do with \<open>str::parse\<close> on their command
  line: the recursive descent parser of the Rust standard library for IPv4 and IPv6 addresses, with
  its limits on digits and leading zeros, the \<open>::\<close> abbreviation, embedded IPv4 addresses and scope
  ids. Printing an address and parsing the text gives the address back.
\<close>

section \<open>The parser\<close>

text \<open>\<open>char::to_digit\<close>\<close>

definition to_digit :: "nat \<Rightarrow> char \<Rightarrow> nat option" where
  "to_digit radix c =
     (let n = of_char c;
          d = (if 48 \<le> n \<and> n \<le> 57 then Some (n - 48)
               else if 97 \<le> n \<and> n \<le> 122 then Some (n - 87)
               else if 65 \<le> n \<and> n \<le> 90 then Some (n - 55)
               else None)
      in Option.bind d (\<lambda>d. if d < radix then Some d else None))"

text \<open>The longest run of digits at the front, and the rest.\<close>

fun read_digits :: "nat \<Rightarrow> string \<Rightarrow> nat list \<times> string" where
  "read_digits radix [] = ([], [])"
| "read_digits radix (c # s) =
     (case to_digit radix c of
        Some d \<Rightarrow> (let (ds, rest) = read_digits radix s in (d # ds, rest))
      | None \<Rightarrow> ([], c # s))"

definition digits_value :: "nat \<Rightarrow> nat list \<Rightarrow> nat" where
  "digits_value radix ds = foldl (\<lambda>n d. n * radix + d) 0 ds"

text \<open>
  \<open>read_number\<close>: \<open>limit\<close> is the greatest value of the result type. A failing parser leaves the input
  as it was.
\<close>

definition read_number :: "nat \<Rightarrow> nat option \<Rightarrow> bool \<Rightarrow> nat \<Rightarrow> string \<Rightarrow> (nat \<times> string) option" where
  "read_number radix max_digits allow_zero_prefix limit s =
     (let (ds, rest) = read_digits radix s in
      if (case max_digits of Some m \<Rightarrow> m < length ds | None \<Rightarrow> False) then None
      else if ds = [] then None
      else if \<not> allow_zero_prefix \<and> hd ds = 0 \<and> 1 < length ds then None
      else if limit < digits_value radix ds then None
      else Some (digits_value radix ds, rest))"

fun read_given_char :: "char \<Rightarrow> string \<Rightarrow> string option" where
  "read_given_char c [] = None"
| "read_given_char c (x # s) = (if x = c then Some s else None)"

definition read_separator :: "char \<Rightarrow> nat \<Rightarrow> (string \<Rightarrow> ('a \<times> string) option) \<Rightarrow> string \<Rightarrow> ('a \<times> string) option" where
  "read_separator sep index inner s =
     (if 0 < index then Option.bind (read_given_char sep s) inner else inner s)"

definition read_octet :: "string \<Rightarrow> (nat \<times> string) option" where
  "read_octet s = read_number 10 (Some 3) False 255 s"

text \<open>The four octets, most significant first.\<close>

fun read_octets :: "nat \<Rightarrow> nat \<Rightarrow> string \<Rightarrow> (nat list \<times> string) option" where
  "read_octets i 0 s = Some ([], s)"
| "read_octets i (Suc k) s =
     Option.bind (read_separator CHR ''.'' i read_octet s) (\<lambda>(n, s).
     Option.bind (read_octets (Suc i) k s) (\<lambda>(ns, s). Some (n # ns, s)))"

definition read_ipv4_addr :: "string \<Rightarrow> (32 word \<times> string) option" where
  "read_ipv4_addr s =
     map_option (\<lambda>(ns, s). (word_of_nat (digits_value 256 ns), s)) (read_octets 0 4 s)"

text \<open>The groups read from position \<open>i\<close> on, and whether the last two were an IPv4 address.\<close>

function read_groups :: "nat \<Rightarrow> nat \<Rightarrow> string \<Rightarrow> nat list \<times> bool \<times> string" where
  "read_groups limit i s =
     (if limit \<le> i then ([], False, s)
      else
        case (if i < limit - 1 then read_separator CHR '':'' i read_ipv4_addr s else None) of
          Some (v4, s) \<Rightarrow> ([unat (drop_bit 16 v4), unat (v4 AND 65535)], True, s)
        | None \<Rightarrow>
            (case read_separator CHR '':'' i (read_number 16 (Some 4) True 65535) s of
               Some (g, s) \<Rightarrow> (let (gs, v4, s) = read_groups limit (Suc i) s in (g # gs, v4, s))
             | None \<Rightarrow> ([], False, s)))"
  by pat_completeness auto

termination
  by (relation "measure (\<lambda>(limit, i, _). limit - i)") auto

declare read_groups.simps [simp del]

definition groups_word :: "nat list \<Rightarrow> 128 word" where
  "groups_word gs = word_of_nat (digits_value 65536 gs)"

definition read_ipv6_addr :: "string \<Rightarrow> (128 word \<times> string) option" where
  "read_ipv6_addr s =
     (let (hs, v4, s) = read_groups 8 0 s in
      if length hs = 8 then Some (groups_word hs, s)
      else if v4 then None
      else
        Option.bind (read_given_char CHR '':'' s) (\<lambda>s.
        Option.bind (read_given_char CHR '':'' s) (\<lambda>s.
        let (ts, _, s) = read_groups (8 - (length hs + 1)) 0 s in
        Some (groups_word (hs @ replicate (8 - length hs - length ts) 0 @ ts), s))))"

definition read_port :: "string \<Rightarrow> (u16 \<times> string) option" where
  "read_port s =
     Option.bind (read_given_char CHR '':'' s) (\<lambda>s.
     map_option (\<lambda>(n, s). (word_of_nat n, s)) (read_number 10 None True 65535 s))"

definition read_scope_id :: "string \<Rightarrow> (u32 \<times> string) option" where
  "read_scope_id s =
     Option.bind (read_given_char CHR ''%'' s) (\<lambda>s.
     map_option (\<lambda>(n, s). (word_of_nat n, s)) (read_number 10 None True 4294967295 s))"

definition read_socket_addr_v4 :: "string \<Rightarrow> (SocketAddr \<times> string) option" where
  "read_socket_addr_v4 s =
     Option.bind (read_ipv4_addr s) (\<lambda>(ip, s).
     Option.bind (read_port s) (\<lambda>(port, s). Some (V4 ip port, s)))"

definition read_socket_addr_v6 :: "string \<Rightarrow> (SocketAddr \<times> string) option" where
  "read_socket_addr_v6 s =
     Option.bind (read_given_char CHR ''['' s) (\<lambda>s.
     Option.bind (read_ipv6_addr s) (\<lambda>(ip, s).
     let (scope_id, s) = unwrap_or (read_scope_id s) (0, s) in
     Option.bind (read_given_char CHR '']'' s) (\<lambda>s.
     Option.bind (read_port s) (\<lambda>(port, s). Some (V6 ip port 0 scope_id, s)))))"

text \<open>\<open>parse::<SocketAddr>()\<close>: the whole input must be consumed.\<close>

definition parse_SocketAddr :: "string \<Rightarrow> SocketAddr option" where
  "parse_SocketAddr s =
     (case or_else (read_socket_addr_v4 s) (read_socket_addr_v6 s) of
        Some (a, []) \<Rightarrow> Some a
      | _ \<Rightarrow> None)"

section \<open>Numbers\<close>

text \<open>The digits a number is printed with.\<close>

function digits_of :: "nat \<Rightarrow> nat \<Rightarrow> nat list" where
  "digits_of b n = (if b \<le> 1 \<or> n < b then [n] else digits_of b (n div b) @ [n mod b])"
  by pat_completeness auto

termination
  by (relation "measure snd") auto

declare digits_of.simps [simp del]

lemma show_nat_digits: "show_nat n = map hex_char (digits_of 10 n)"
  by (induction n rule: show_nat.induct)
    (subst show_nat.simps, subst digits_of.simps, simp add: hex_char_def)

lemma show_hex_digits: "show_hex n = map hex_char (digits_of 16 n)"
  by (induction n rule: show_hex.induct) (subst show_hex.simps, subst digits_of.simps, simp)

lemma digits_value_snoc [simp]: "digits_value b (ds @ [d]) = digits_value b ds * b + d"
  by (simp add: digits_value_def)

lemma digits_value_simps [simp]: "digits_value b [] = 0" "digits_value b [d] = d"
  by (simp_all add: digits_value_def)

lemma digits_of_value [simp]: "digits_value b (digits_of b n) = n"
  by (induction b n rule: digits_of.induct) (subst digits_of.simps, auto)

lemma digits_of_nonempty [simp]: "digits_of b n \<noteq> []"
  by (subst digits_of.simps) simp

lemma digits_of_bound: "1 < b \<Longrightarrow> d \<in> set (digits_of b n) \<Longrightarrow> d < b"
  by (induction b n arbitrary: d rule: digits_of.induct)
    (subst (asm) (2) digits_of.simps, auto split: if_split_asm)

lemma digits_of_hd: "1 < b \<Longrightarrow> 0 < n \<Longrightarrow> hd (digits_of b n) \<noteq> 0"
proof (induction b n rule: digits_of.induct)
  case (1 b n)
  then show ?case by (subst digits_of.simps) (auto simp: div_greater_zero_iff)
qed

lemma digits_of_length: "1 < b \<Longrightarrow> n < b ^ Suc k \<Longrightarrow> length (digits_of b n) \<le> Suc k"
proof (induction k arbitrary: n)
  case 0
  then show ?case by (subst digits_of.simps) simp
next
  case (Suc k)
  from Suc.prems(2) have "n div b < b ^ Suc k"
    by (simp add: less_mult_imp_div_less mult.commute)
  with Suc.IH [OF Suc.prems(1)] show ?case by (subst digits_of.simps) simp
qed

lemma to_digit_hex_char: "d < 16 \<Longrightarrow> to_digit radix (hex_char d) = (if d < radix then Some d else None)"
  by (simp add: to_digit_def hex_char_def digit_char_def Let_def)

text \<open>A number ends where no digit follows.\<close>

definition stops :: "nat \<Rightarrow> string \<Rightarrow> bool" where
  "stops radix s \<longleftrightarrow> (case s of [] \<Rightarrow> True | c # _ \<Rightarrow> to_digit radix c = None)"

lemma read_digits_stops [simp]: "stops radix s \<Longrightarrow> read_digits radix s = ([], s)"
  by (cases s) (simp_all add: stops_def)

lemma read_digits_append:
  "(\<forall>d \<in> set ds. d < radix) \<Longrightarrow> radix \<le> 16 \<Longrightarrow> stops radix rest
   \<Longrightarrow> read_digits radix (map hex_char ds @ rest) = (ds, rest)"
  by (induction ds) (simp_all add: to_digit_hex_char)

lemma read_number_digits:
  assumes "1 < radix" "radix \<le> 16" "stops radix rest" "n \<le> limit"
    and "\<forall>m. max_digits = Some m \<longrightarrow> 0 < m \<and> n < radix ^ m"
  shows "read_number radix max_digits zeros limit (map hex_char (digits_of radix n) @ rest) = Some (n, rest)"
proof -
  let ?ds = "digits_of radix n"
  have "read_digits radix (map hex_char ?ds @ rest) = (?ds, rest)"
    using assms digits_of_bound by (intro read_digits_append) auto
  moreover have "hd ?ds \<noteq> 0 \<or> length ?ds \<le> 1"
    using digits_of_hd [OF assms(1)] assms(1) by (cases "n = 0") (auto simp: digits_of.simps [of radix 0])
  moreover have "length ?ds \<le> m" if "max_digits = Some m" for m
    using assms(5) that digits_of_length [OF assms(1), of n "m - 1"] by auto
  ultimately show ?thesis
    using assms(4) by (auto simp: read_number_def split: option.split dest: leD)
qed

lemmas read_decimal = read_number_digits [where radix = 10, folded show_nat_digits, simplified]
lemmas read_hex = read_number_digits [where radix = 16, folded show_hex_digits, simplified]

lemma stops_Nil [simp]: "stops radix []"
  by (simp add: stops_def)

lemma stops_Cons: "stops radix (c # s) \<longleftrightarrow> to_digit radix c = None"
  by (simp add: stops_def)

lemma to_digit_separators [simp]:
  "to_digit radix CHR ''.'' = None" "to_digit radix CHR '':'' = None" "to_digit radix CHR '']'' = None"
  "to_digit radix CHR ''%'' = None"
  by (simp_all add: to_digit_def)

section \<open>IPv4 addresses\<close>

lemma unat_shift_mask:
  "unat (drop_bit k w) = unat w div 2 ^ k" for w :: "'a::len word"
  by (simp only: unat_drop_bit_eq drop_bit_eq_div [of k "unat w"])

lemma unat_and_255: "unat (w AND 255) = unat w mod 256" for w :: "32 word"
proof -
  have "w AND 255 = take_bit 8 w" by (simp add: take_bit_eq_mask mask_eq_exp_minus_1)
  then have "unat (w AND 255) = take_bit 8 (unat w)" by (simp only: unsigned_take_bit_eq)
  then show ?thesis by (simp add: take_bit_eq_mod)
qed

lemma unat_and_65535: "unat (w AND 65535) = unat w mod 65536" for w :: "'a::len word"
proof -
  have "w AND 65535 = take_bit 16 w" by (simp add: take_bit_eq_mask mask_eq_exp_minus_1)
  then have "unat (w AND 65535) = take_bit 16 (unat w)" by (simp only: unsigned_take_bit_eq)
  then show ?thesis by (simp add: take_bit_eq_mod)
qed

text \<open>Reassembling a number from its digits in a power of the base.\<close>

definition digits_n :: "nat \<Rightarrow> nat \<Rightarrow> nat \<Rightarrow> nat list" where
  "digits_n b k n = map (\<lambda>i. n div b ^ (k - 1 - i) mod b) [0 ..< k]"

lemma digits_n_value: "1 < b \<Longrightarrow> digits_value b (digits_n b k n) = n mod b ^ k"
proof (induction k arbitrary: n)
  case 0
  then show ?case by (simp add: digits_n_def)
next
  case (Suc k)
  have "map (\<lambda>i. n div b ^ (k - i) mod b) [0 ..< k] = digits_n b k (n div b)"
    by (auto simp: digits_n_def div_mult2_eq [symmetric] simp flip: power_Suc intro!: arg_cong2 [where f = "(mod)"]
        arg_cong2 [where f = "(div)"] arg_cong2 [where f = power])
  then have "digits_n b (Suc k) n = digits_n b k (n div b) @ [n mod b]" by (simp add: digits_n_def)
  with Suc show ?case by (simp add: mod_mult2_eq)
qed

lemma digits_n_less: "1 < b \<Longrightarrow> d \<in> set (digits_n b k n) \<Longrightarrow> d < b"
  by (auto simp: digits_n_def)

lemma length_digits_n [simp]: "length (digits_n b k n) = k"
  by (simp add: digits_n_def)

text \<open>An address is printed as its octets with dots between them.\<close>

fun show_octets :: "nat list \<Rightarrow> string" where
  "show_octets [] = ''''"
| "show_octets [n] = show_nat n"
| "show_octets (n # ns) = show_nat n @ ''.'' @ show_octets ns"

lemma digits_n_4: "digits_n b 4 n = [n div b ^ 3 mod b, n div b\<^sup>2 mod b, n div b mod b, n mod b]"
  by (simp add: digits_n_def upt_rec numeral_eq_Suc)

lemma show_ipv4_octets: "show_ipv4 a = show_octets (digits_n 256 4 (unat a))"
proof -
  have "unat a div 256 ^ 3 < 256"
    using unsigned_less [of a, where ?'a = nat] by (intro less_mult_imp_div_less) simp
  then show ?thesis
    by (simp add: show_ipv4_def unat_shift_mask unat_and_255 digits_n_4)
qed

lemma read_octet_show: "n < 256 \<Longrightarrow> stops 10 rest \<Longrightarrow> read_octet (show_nat n @ rest) = Some (n, rest)"
  by (simp add: read_octet_def read_decimal)

lemma read_octets_show:
  "\<forall>n \<in> set ns. n < 256 \<Longrightarrow> stops 10 rest \<Longrightarrow> ns \<noteq> []
   \<Longrightarrow> read_octets i (length ns) ((if 0 < i then ''.'' else '''') @ show_octets ns @ rest) = Some (ns, rest)"
proof (induction ns arbitrary: i rule: show_octets.induct)
  case (3 n m ms)
  from 3 have "read_octets (Suc i) (length (m # ms)) (''.'' @ show_octets (m # ms) @ rest) = Some (m # ms, rest)"
    using "3.IH" [of "Suc i"] by (simp del: read_octets.simps)
  with 3 show ?case
    by (subst length_Cons, subst read_octets.simps(2), cases "i = 0")
      (simp_all add: read_separator_def read_octet_show stops_Cons del: read_octets.simps)
qed (simp_all add: read_separator_def read_octet_show)

lemma read_ipv4_show: "stops 10 rest \<Longrightarrow> read_ipv4_addr (show_ipv4 a @ rest) = Some (a, rest)"
proof -
  assume stop: "stops 10 rest"
  have "digits_n 256 4 (unat a) \<noteq> []" by (simp add: digits_n_4)
  with read_octets_show [of "digits_n 256 4 (unat a)" rest 0] digits_n_less [of 256 _ 4 "unat a"] stop
  have "read_octets 0 4 (show_ipv4 a @ rest) = Some (digits_n 256 4 (unat a), rest)"
    by (simp add: show_ipv4_octets)
  moreover have "unat a mod 256 ^ 4 = unat a" using unsigned_less [of a, where ?'a = nat] by simp
  ultimately show ?thesis by (simp add: read_ipv4_addr_def digits_n_value)
qed

section \<open>IPv6 addresses\<close>

lemma segments_digits: "segments a = digits_n 65536 8 (unat a)"
proof -
  have "(2 :: nat) ^ (16 * k) = 65536 ^ k" for k by (simp add: power_mult)
  then show ?thesis by (simp add: segments_def digits_n_def unat_and_65535 unat_shift_mask)
qed

lemma groups_word_segments [simp]: "groups_word (segments a) = a"
proof -
  have "unat a mod 65536 ^ 8 = unat a" using unsigned_less [of a, where ?'a = nat] by simp
  then show ?thesis by (simp add: groups_word_def segments_digits digits_n_value)
qed

lemma length_segments [simp]: "length (segments a) = 8"
  by (simp add: segments_digits)

lemma segments_less: "g \<in> set (segments a) \<Longrightarrow> g < 65536"
  by (simp add: segments_digits digits_n_less)

subsection \<open>The run of zeros\<close>

definition zero_run :: "nat list \<Rightarrow> nat \<times> nat \<Rightarrow> bool" where
  "zero_run gs z \<longleftrightarrow> fst z + snd z \<le> length gs \<and> (\<forall>k < snd z. gs ! (fst z + k) = 0)"

lemma zero_span_run:
  "zero_run (xs @ ss) longest \<Longrightarrow> zero_run (xs @ ss) current
   \<Longrightarrow> (0 < snd current \<longrightarrow> fst current + snd current = length xs)
   \<Longrightarrow> zero_run (xs @ ss) (zero_span ss (length xs) longest current)"
proof (induction ss arbitrary: xs longest current)
  case (Cons s ss)
  let ?cur = "if snd current = 0 then (length xs, 1) else (fst current, Suc (snd current))"
  show ?case
  proof (cases "s = 0")
    case True
    with Cons.prems have "zero_run ((xs @ [s]) @ ss) ?cur"
      by (auto simp: zero_run_def nth_append less_Suc_eq)
    with Cons.IH [of "xs @ [s]" "if snd longest < snd ?cur then ?cur else longest" ?cur] Cons.prems True
    show ?thesis by (auto simp: Let_def split: if_split_asm)
  next
    case False
    with Cons.IH [of "xs @ [s]" longest "(0, 0)"] Cons.prems show ?thesis by (simp add: zero_run_def)
  qed
qed simp

lemma zero_run_split:
  assumes "zero_run gs (i, n)"
  shows "gs = take i gs @ replicate n 0 @ drop (i + n) gs"
proof -
  have "take n (drop i gs) = replicate n 0"
    using assms by (intro nth_equalityI) (auto simp: zero_run_def)
  then show ?thesis by (metis add.commute append_take_drop_id drop_drop)
qed

subsection \<open>Reading groups\<close>

text \<open>What may follow the groups: neither another group nor an IPv4 address.\<close>

definition ends_groups :: "string \<Rightarrow> bool" where
  "ends_groups s \<longleftrightarrow> stops 16 s \<and> (\<forall>r. s \<noteq> CHR ''.'' # r) \<and> (\<forall>r. s = CHR '':'' # r \<longrightarrow> stops 16 r)"

lemma to_digit_mono: "to_digit 16 c = None \<Longrightarrow> to_digit 10 c = None"
  by (auto simp: to_digit_def Let_def split: if_split_asm)

lemma stops_mono: "stops 16 s \<Longrightarrow> stops 10 s"
  by (auto simp: stops_def to_digit_mono split: list.split_asm)

lemma read_octet_none: "stops 10 s \<Longrightarrow> read_octet s = None"
  by (simp add: read_octet_def read_number_def)

lemma read_octets_first:
  "read_octets 0 4 s =
     Option.bind (read_octet s) (\<lambda>(n, s). Option.bind (read_octets (Suc 0) 3 s) (\<lambda>(ns, s). Some (n # ns, s)))"
  "read_given_char CHR ''.'' s = None \<Longrightarrow> read_octets (Suc 0) 3 s = None"
  by (simp_all add: eval_nat_numeral read_separator_def)

lemma read_ipv4_none: "stops 16 s \<Longrightarrow> read_ipv4_addr s = None"
  by (simp add: read_ipv4_addr_def read_octets_first read_octet_none stops_mono)

text \<open>After the decimal digits of a group there is never a dot.\<close>

lemma read_digits_group:
  assumes "\<forall>d \<in> set ds. d < 16" "stops 16 rest" "\<forall>r. rest \<noteq> CHR ''.'' # r"
    and "read_digits 10 (map hex_char ds @ rest) = (es, u)"
  shows "\<forall>r. u \<noteq> CHR ''.'' # r"
  using assms
proof (induction ds arbitrary: es)
  case Nil
  then show ?case by (simp add: stops_mono)
next
  case (Cons d ds)
  then have "hex_char d \<noteq> CHR ''.''"
    by (metis list.set_intros(1) option.distinct(1) to_digit_hex_char to_digit_separators(1))
  with Cons show ?case
    by (auto simp: to_digit_hex_char split: if_split_asm prod.split_asm)
qed

lemma read_ipv4_group:
  assumes "stops 16 rest" "\<forall>r. rest \<noteq> CHR ''.'' # r"
  shows "read_ipv4_addr (show_hex g @ rest) = None"
proof -
  obtain es u where eu: "read_digits 10 (show_hex g @ rest) = (es, u)" by fastforce
  then have "\<forall>r. u \<noteq> CHR ''.'' # r"
    using read_digits_group [OF _ assms, of "digits_of 16 g" es u] digits_of_bound [of 16 _ g]
    by (simp add: show_hex_digits)
  then have "read_given_char CHR ''.'' u = None" by (cases u) auto
  then show ?thesis
    by (simp add: read_ipv4_addr_def read_octets_first read_octet_def read_number_def eu)
qed

definition more_groups :: "nat list \<Rightarrow> string" where
  "more_groups gs = concat (map (\<lambda>g. '':'' @ show_hex g) gs)"

lemma more_groups_simps [simp]: "more_groups [] = ''''" "more_groups (g # gs) = '':'' @ show_hex g @ more_groups gs"
  by (simp_all add: more_groups_def)

lemma show_segments_Cons: "show_segments (g # gs) = show_hex g @ more_groups gs"
  by (induction gs arbitrary: g) simp_all

lemma ends_groups_more: "ends_groups rest \<Longrightarrow> stops 16 (more_groups gs @ rest) \<and> (\<forall>r. more_groups gs @ rest \<noteq> CHR ''.'' # r)"
  by (cases gs) (simp_all add: ends_groups_def stops_Cons)

lemma read_group_none: "stops 16 s \<Longrightarrow> read_number 16 (Some 4) True 65535 s = None"
  by (simp add: read_number_def)

lemma read_separator_end:
  assumes "ends_groups rest" "\<And>s. stops 16 s \<Longrightarrow> f s = None"
  shows "read_separator CHR '':'' i f rest = None"
  using assms by (cases rest) (auto simp: read_separator_def ends_groups_def stops_Cons)

lemma read_groups_end: "ends_groups rest \<Longrightarrow> read_groups limit i rest = ([], False, rest)"
  by (subst read_groups.simps) (simp add: read_separator_end read_ipv4_none read_group_none)

lemma read_groups_step:
  assumes "i < limit" "g < 65536" "stops 16 rest" "\<forall>r. rest \<noteq> CHR ''.'' # r"
  shows "read_groups limit i ((if 0 < i then '':'' else '''') @ show_hex g @ rest)
    = (let (gs, v4, s) = read_groups limit (Suc i) rest in (g # gs, v4, s))"
  using assms
  by (subst read_groups.simps) (auto simp: read_separator_def read_ipv4_group read_hex)

lemma read_more_groups:
  "0 < i \<Longrightarrow> i + length gs \<le> limit \<Longrightarrow> \<forall>g \<in> set gs. g < 65536 \<Longrightarrow> ends_groups rest
   \<Longrightarrow> read_groups limit i (more_groups gs @ rest) = (gs, False, rest)"
proof (induction gs arbitrary: i)
  case (Cons g gs)
  with read_groups_step [of i limit g "more_groups gs @ rest"] ends_groups_more [of rest gs]
  show ?case by simp
qed (simp add: read_groups_end)

lemma read_groups_show:
  assumes "length gs \<le> limit" "\<forall>g \<in> set gs. g < 65536" "ends_groups rest"
  shows "read_groups limit 0 (show_segments gs @ rest) = (gs, False, rest)"
proof (cases gs)
  case (Cons g gs')
  with assms read_groups_step [of 0 limit g "more_groups gs' @ rest"] ends_groups_more [of rest gs']
    read_more_groups [of 1 gs' limit rest]
  show ?thesis by (simp add: show_segments_Cons)
qed (use assms in \<open>simp add: read_groups_end\<close>)

subsection \<open>Whole addresses\<close>

lemma ends_double_colon: "ends_groups (CHR '':'' # CHR '':'' # s)"
  by (auto simp: ends_groups_def stops_Cons)

lemma read_abbreviated:
  assumes "length hs + length ts < 8" "\<forall>g \<in> set hs \<union> set ts. g < 65536" "ends_groups rest"
  shows "read_ipv6_addr (show_segments hs @ ''::'' @ show_segments ts @ rest)
    = Some (groups_word (hs @ replicate (8 - length hs - length ts) 0 @ ts), rest)"
  using assms read_groups_show [of hs 8 "''::'' @ show_segments ts @ rest"]
    read_groups_show [of ts "8 - (length hs + 1)" rest]
  by (simp add: read_ipv6_addr_def ends_double_colon)

lemma read_full:
  assumes "length gs = 8" "\<forall>g \<in> set gs. g < 65536" "ends_groups rest"
  shows "read_ipv6_addr (show_segments gs @ rest) = Some (groups_word gs, rest)"
  using assms read_groups_show [of gs 8 rest] by (simp add: read_ipv6_addr_def)

text \<open>An IPv4-mapped address is read as two groups more.\<close>

lemma read_mapped_groups:
  assumes "stops 10 rest"
  shows "read_groups 7 0 (''ffff:'' @ show_ipv4 b @ rest)
    = ([65535, unat (drop_bit 16 b), unat (b AND 65535)], True, rest)"
proof -
  have "hex_char 15 = CHR ''f''" by code_simp
  then have hex: "show_hex 65535 = ''ffff''" by (simp add: show_hex_digits digits_of.simps)
  have "read_groups 7 1 ('':'' @ show_ipv4 b @ rest) = ([unat (drop_bit 16 b), unat (b AND 65535)], True, rest)"
    using assms by (subst read_groups.simps) (simp add: read_separator_def read_ipv4_show)
  with read_groups_step [of 0 7 65535 "'':'' @ show_ipv4 b @ rest"] show ?thesis
    by (simp add: hex stops_Cons)
qed

lemma mapped_segments:
  assumes "drop_bit 32 a = (65535 :: 128 word)"
  shows "groups_word ([0, 0, 0, 0, 0, 65535, unat (drop_bit 16 (ucast a :: 32 word)), unat ((ucast a :: 32 word) AND 65535)]) = a"
proof -
  have high: "unat a div 2 ^ 32 = 65535"
    using arg_cong [OF assms, of unat] by (simp only: unat_shift_mask) simp
  have low: "unat (ucast a :: 32 word) = unat a mod 2 ^ 32"
    by (simp add: unsigned_ucast_eq take_bit_eq_mod)
  have "digits_value 65536 [0, 0, 0, 0, 0, 65535, n div 65536, n mod 65536] = 65535 * 2 ^ 32 + n" for n
    using div_mult_mod_eq [of n 65536] by (simp add: digits_value_def)
  from this [of "unat (ucast a :: 32 word)"]
  have "digits_value 65536 [0, 0, 0, 0, 0, 65535, unat (drop_bit 16 (ucast a :: 32 word)),
      unat ((ucast a :: 32 word) AND 65535)] = unat a"
    using div_mult_mod_eq [of "unat a" "2 ^ 32"] unfolding unat_shift_mask unat_and_65535 low high by simp
  then show ?thesis by (simp add: groups_word_def)
qed

lemma read_ipv6_show:
  assumes "ends_groups rest"
  shows "read_ipv6_addr (show_ipv6 a @ rest) = Some (a, rest)"
proof (cases "drop_bit 32 a = 65535")
  case True
  have "stops 10 rest" using assms by (simp add: ends_groups_def stops_mono)
  moreover have "read_groups 8 0 (''::'' @ ''ffff:'' @ show_ipv4 (ucast a) @ rest)
      = ([], False, ''::'' @ ''ffff:'' @ show_ipv4 (ucast a) @ rest)"
    using read_groups_end [OF ends_double_colon] by simp
  moreover have "replicate 5 (0 :: nat) = [0, 0, 0, 0, 0]" by (simp add: eval_nat_numeral)
  ultimately show ?thesis
    using True mapped_segments [OF True] read_mapped_groups [of rest "ucast a"]
    by (simp add: show_ipv6_def read_ipv6_addr_def)
next
  case False
  obtain i n where span: "zero_span (segments a) 0 (0, 0) (0, 0) = (i, n)" by fastforce
  with zero_span_run [of "[]" "segments a" "(0, 0)" "(0, 0)"]
  have run: "zero_run (segments a) (i, n)" by (simp add: zero_run_def)
  let ?hs = "take i (segments a)" and ?ts = "drop (i + n) (segments a)"
  show ?thesis
  proof (cases "1 < n")
    case True
    from run have len: "i + n \<le> 8" by (simp add: zero_run_def)
    have "\<forall>g \<in> set ?hs \<union> set ?ts. g < 65536"
      using segments_less by (blast dest: in_set_takeD in_set_dropD)
    with read_abbreviated [of ?hs ?ts rest] zero_run_split [OF run] assms True len False span
    show ?thesis by (simp add: show_ipv6_def Let_def min_def)
  next
    case n: False
    with read_full [of "segments a" rest] segments_less assms False span show ?thesis
      by (simp add: show_ipv6_def Let_def)
  qed
qed

section \<open>Printing and parsing\<close>

lemma read_port_show: "read_port ('':'' @ show_nat (unat p)) = Some (p, [])"
  using read_decimal [of "[]" "unat p" 65535 None] unsigned_less [of p, where ?'a = nat]
  by (simp add: read_port_def)

lemma read_scope_show:
  "read_scope_id (''%'' @ show_nat (unat i) @ '']'' @ s) = Some (i, '']'' @ s)"
  using read_decimal [of "'']'' @ s" "unat i" 4294967295 None] unsigned_less [of i, where ?'a = nat]
  by (simp add: read_scope_id_def stops_Cons)

lemma parse_show_V4: "parse_SocketAddr (show_SocketAddr (V4 ip port)) = Some (V4 ip port)"
  using read_port_show [of port]
  by (simp add: parse_SocketAddr_def read_socket_addr_v4_def read_ipv4_show stops_Cons)

lemma parse_show_V6: "parse_SocketAddr (show_SocketAddr (V6 ip port 0 scope)) = Some (V6 ip port 0 scope)"
proof -
  have v4: "read_socket_addr_v4 (CHR ''['' # s) = None" for s
    by (simp add: read_socket_addr_v4_def read_ipv4_none stops_Cons to_digit_def)
  have close: "ends_groups (CHR '']'' # s)" "ends_groups (CHR ''%'' # s)" for s
    by (auto simp: ends_groups_def stops_Cons)
  show ?thesis
    using read_port_show [of port] read_scope_show [of scope "'':'' @ show_nat (unat port)"]
    by (simp add: parse_SocketAddr_def read_socket_addr_v6_def v4 read_ipv6_show close read_scope_id_def [of "CHR '']'' # _"])
qed

end
