(* ===== verification/Utf8.thy ===== *)
theory Utf8
  imports Prelude
begin

text \<open>
  The parts of Rust's \<open>str\<close> and \<open>Path\<close> the example programs use: \<open>String::from_utf8_lossy\<close> with its
  replacement of malformed sequences, \<open>as_bytes\<close>, \<open>trim\<close>, \<open>trim_start_matches\<close> and \<open>Path::join\<close> on
  Unix. Text is a list of code points where it is inspected by character, and the list of its
  UTF-8 bytes elsewhere.
\<close>

section \<open>Encoding\<close>

type_synonym codepoint = nat

definition scalar_value :: "codepoint \<Rightarrow> bool" where
  "scalar_value c \<longleftrightarrow> c < 0xD800 \<or> 0xE000 \<le> c \<and> c < 0x110000"

definition encode_char :: "codepoint \<Rightarrow> nat list" where
  "encode_char c =
     (if c < 0x80 then [c]
      else if c < 0x800 then [0xC0 + c div 64, 0x80 + c mod 64]
      else if c < 0x10000 then [0xE0 + c div 4096, 0x80 + c div 64 mod 64, 0x80 + c mod 64]
      else [0xF0 + c div 262144, 0x80 + c div 4096 mod 64, 0x80 + c div 64 mod 64, 0x80 + c mod 64])"

text \<open>\<open>as_bytes\<close>\<close>

definition encode_utf8 :: "codepoint list \<Rightarrow> bytes" where
  "encode_utf8 cs = map word_of_nat (concat (map encode_char cs))"

section \<open>Lossy decoding\<close>

definition byte_at :: "nat \<Rightarrow> nat list \<Rightarrow> nat" where
  "byte_at i s = (if i < length s then s ! i else 0)"

definition continuation :: "nat \<Rightarrow> bool" where
  "continuation b \<longleftrightarrow> 0x80 \<le> b \<and> b < 0xC0"

text \<open>Which second bytes a first byte of a sequence of three or four bytes allows.\<close>

definition second_of_3 :: "nat \<Rightarrow> nat \<Rightarrow> bool" where
  "second_of_3 b x \<longleftrightarrow> continuation x \<and> (b = 0xE0 \<longrightarrow> 0xA0 \<le> x) \<and> (b = 0xED \<longrightarrow> x < 0xA0)"

definition second_of_4 :: "nat \<Rightarrow> nat \<Rightarrow> bool" where
  "second_of_4 b x \<longleftrightarrow> continuation x \<and> (b = 0xF0 \<longrightarrow> 0x90 \<le> x) \<and> (b = 0xF4 \<longrightarrow> x < 0x90)"

abbreviation replacement :: codepoint where
  "replacement \<equiv> 0xFFFD"

text \<open>
  What a first byte that is not ASCII starts: how many of the bytes after it belong to it, and the
  character, the replacement if the sequence breaks off.
\<close>

definition utf8_sequence :: "nat \<Rightarrow> nat list \<Rightarrow> nat \<times> codepoint" where
  "utf8_sequence b s =
     (let x = byte_at 0 s; y = byte_at 1 s; z = byte_at 2 s in
      if 0xC2 \<le> b \<and> b < 0xE0 then
        if continuation x then (1, (b - 0xC0) * 64 + (x - 0x80)) else (0, replacement)
      else if 0xE0 \<le> b \<and> b < 0xF0 then
        if \<not> second_of_3 b x then (0, replacement)
        else if \<not> continuation y then (1, replacement)
        else (2, (b - 0xE0) * 4096 + (x - 0x80) * 64 + (y - 0x80))
      else if 0xF0 \<le> b \<and> b < 0xF5 then
        if \<not> second_of_4 b x then (0, replacement)
        else if \<not> continuation y then (1, replacement)
        else if \<not> continuation z then (2, replacement)
        else (3, (b - 0xF0) * 262144 + (x - 0x80) * 4096 + (y - 0x80) * 64 + (z - 0x80))
      else (0, replacement))"

function decode_lossy :: "nat list \<Rightarrow> codepoint list" where
  "decode_lossy [] = []"
| "decode_lossy (b # s) =
     (if b < 0x80 then b # decode_lossy s
      else (let (k, c) = utf8_sequence b s in c # decode_lossy (drop k s)))"
  by pat_completeness auto

termination
  by (relation "measure length") auto

definition from_utf8_lossy :: "bytes \<Rightarrow> codepoint list" where
  "from_utf8_lossy bs = decode_lossy (map unat bs)"

section \<open>Trimming\<close>

definition is_whitespace :: "codepoint \<Rightarrow> bool" where
  "is_whitespace c \<longleftrightarrow> 9 \<le> c \<and> c \<le> 13 \<or> 0x2000 \<le> c \<and> c \<le> 0x200A
     \<or> c \<in> {0x20, 0x85, 0xA0, 0x1680, 0x2028, 0x2029, 0x202F, 0x205F, 0x3000}"

definition trim :: "codepoint list \<Rightarrow> codepoint list" where
  "trim cs = rev (dropWhile is_whitespace (rev (dropWhile is_whitespace cs)))"

definition trim_start_matches :: "codepoint \<Rightarrow> codepoint list \<Rightarrow> codepoint list" where
  "trim_start_matches c cs = dropWhile (\<lambda>d. d = c) cs"

section \<open>Paths\<close>

abbreviation slash :: u8 where
  "slash \<equiv> 47"

text \<open>\<open>Path::join\<close>: an absolute path replaces the first one, and a separator is put in if there is none.\<close>

definition path_join :: "bytes \<Rightarrow> bytes \<Rightarrow> bytes" where
  "path_join root p =
     (if p \<noteq> [] \<and> hd p = slash then p
      else if root \<noteq> [] \<and> last root \<noteq> slash then root @ [slash] @ p
      else root @ p)"

section \<open>Laws\<close>

lemma encode_char_bytes: "scalar_value c \<Longrightarrow> b \<in> set (encode_char c) \<Longrightarrow> b < 256"
  by (auto simp: encode_char_def scalar_value_def split: if_split_asm)

lemma byte_at_simps [simp]: "byte_at 0 (x # s) = x" "byte_at (Suc i) (x # s) = byte_at i s"
  by (simp_all add: byte_at_def)

lemma utf8_sequence_3:
  assumes "p < 16" "q < 64" "r < 64" "p = 0 \<longrightarrow> 32 \<le> q" "p = 13 \<longrightarrow> q < 32"
  shows "utf8_sequence (0xE0 + p) ((0x80 + q) # (0x80 + r) # s) = (2, p * 4096 + q * 64 + r)"
  using assms by (auto simp: utf8_sequence_def second_of_3_def continuation_def Let_def)

lemma utf8_sequence_4:
  assumes "p < 5" "q < 64" "r < 64" "u < 64" "p = 0 \<longrightarrow> 16 \<le> q" "p = 4 \<longrightarrow> q < 16"
  shows "utf8_sequence (0xF0 + p) ((0x80 + q) # (0x80 + r) # (0x80 + u) # s)
    = (3, p * 262144 + q * 4096 + r * 64 + u)"
proof -
  have "byte_at 2 ((0x80 + q) # (0x80 + r) # (0x80 + u) # s) = 0x80 + u" by (simp add: byte_at_def)
  with assms show ?thesis by (auto simp: utf8_sequence_def second_of_4_def continuation_def Let_def)
qed

lemma decode_encode_char:
  assumes "scalar_value c"
  shows "decode_lossy (encode_char c @ s) = c # decode_lossy s"
proof -
  have split: "c div 64 * 64 + c mod 64 = c" "c div 4096 * 64 + c div 64 mod 64 = c div 64"
    "c div 262144 * 64 + c div 4096 mod 64 = c div 4096"
    using div_mult_mod_eq [of c 64] div_mult_mod_eq [of "c div 64" 64] div_mult_mod_eq [of "c div 4096" 64]
    by (simp_all flip: div_mult2_eq)
  consider "c < 0x80" | "0x80 \<le> c" "c < 0x800" | "0x800 \<le> c" "c < 0x10000" | "0x10000 \<le> c"
    by linarith
  then show ?thesis
  proof cases
    case 1
    then show ?thesis by (simp add: encode_char_def)
  next
    case 2
    then have "2 \<le> c div 64" "c div 64 < 32" by linarith+
    with 2 split(1) show ?thesis
      by (simp add: encode_char_def utf8_sequence_def continuation_def)
  next
    case 3
    have "c div 4096 < 16" "c div 4096 = 0 \<longrightarrow> 32 \<le> c div 64 mod 64" "c div 4096 = 13 \<longrightarrow> c div 64 mod 64 < 32"
      using 3 split(2) assms unfolding scalar_value_def by linarith+
    moreover have "c div 4096 * 4096 + c div 64 mod 64 * 64 + c mod 64 = c" using split(1,2) by linarith
    ultimately show ?thesis using 3 utf8_sequence_3 [of "c div 4096" "c div 64 mod 64" "c mod 64" s]
      by (simp add: encode_char_def numeral_2_eq_2)
  next
    case 4
    have "c div 262144 < 5" "c div 262144 = 0 \<longrightarrow> 16 \<le> c div 4096 mod 64" "c div 262144 = 4 \<longrightarrow> c div 4096 mod 64 < 16"
      using 4 split(3) assms unfolding scalar_value_def by linarith+
    moreover have "c div 262144 * 262144 + c div 4096 mod 64 * 4096 + c div 64 mod 64 * 64 + c mod 64 = c"
      using split by linarith
    ultimately show ?thesis
      using 4 utf8_sequence_4 [of "c div 262144" "c div 4096 mod 64" "c div 64 mod 64" "c mod 64" s]
      by (simp add: encode_char_def numeral_3_eq_3)
  qed
qed

lemma from_utf8_lossy_encode:
  assumes "\<forall>c \<in> set cs. scalar_value c"
  shows "from_utf8_lossy (encode_utf8 cs) = cs"
proof -
  have "unat (word_of_nat b :: u8) = b" if "b \<in> set (concat (map encode_char cs))" for b
  proof -
    have "b < 256" using that assms encode_char_bytes by fastforce
    then show ?thesis by (simp add: unsigned_of_nat take_bit_eq_mod)
  qed
  then have "map unat (encode_utf8 cs) = concat (map encode_char cs)"
    unfolding encode_utf8_def map_map by (intro map_idI) simp
  moreover have "decode_lossy (concat (map encode_char cs)) = cs"
    using assms by (induction cs) (simp_all add: decode_encode_char)
  ultimately show ?thesis by (simp add: from_utf8_lossy_def)
qed

end
