(* ===== verification/Ex_Server.thy ===== *)
theory Ex_Server
  imports Futures Addr_Parse Utf8
begin

text \<open>
  \<^verbatim>\<open>examples/server.rs\<close>: the file server. Its command line, the accept loop, the loop over the
  streams of a connection and the handler of a request. A spawned task is a value: a loop that
  spawns returns what it spawned, in order, together with its own outcome, so that the tasks of a
  loop that still waits are visible too. Output to the terminal is left out.
\<close>

section \<open>Command line\<close>

definition string_bytes :: "string \<Rightarrow> bytes" where
  "string_bytes s = map of_char s"

definition parse_addr :: "string \<Rightarrow> (string, SocketAddr) result" where
  "parse_addr s =
     (case parse_SocketAddr s of Some a \<Rightarrow> Ok a | None \<Rightarrow> Err ''invalid socket address syntax'')"

record Options =
  opt_cert_file :: string
  opt_key_file :: string
  opt_root :: bytes
  opt_listen :: SocketAddr

text \<open>The variables of the loop.\<close>

record arg_vars =
  av_cert_file :: "string option"
  av_key_file :: "string option"
  av_root :: bytes
  av_listen :: SocketAddr

text \<open>The arguments from index \<open>i\<close> on. \<open>args[i]\<close> past the end is a panic.\<close>

fun parse_args_loop :: "string list \<Rightarrow> arg_vars \<Rightarrow> (string, arg_vars) result run" where
  "parse_args_loop [] v = Finished (Ok v)"
| "parse_args_loop (arg # rest) v =
     (if arg = ''--cert'' then
        (case rest of [] \<Rightarrow> Panicked | x # rest \<Rightarrow> parse_args_loop rest (v\<lparr>av_cert_file := Some x\<rparr>))
      else if arg = ''--key'' then
        (case rest of [] \<Rightarrow> Panicked | x # rest \<Rightarrow> parse_args_loop rest (v\<lparr>av_key_file := Some x\<rparr>))
      else if arg = ''--root'' then
        (case rest of [] \<Rightarrow> Panicked | x # rest \<Rightarrow> parse_args_loop rest (v\<lparr>av_root := string_bytes x\<rparr>))
      else if arg = ''--listen'' then
        (case rest of
           [] \<Rightarrow> Panicked
         | x # rest \<Rightarrow>
             (case parse_addr x of
                Ok a \<Rightarrow> parse_args_loop rest (v\<lparr>av_listen := a\<rparr>)
              | Err e \<Rightarrow> Finished (Err e)))
      else Finished (Err (''Unknown argument: '' @ arg)))"

text \<open>\<open>args[0]\<close> is the name of the program.\<close>

definition parse_args :: "string list \<Rightarrow> (string, Options) result run" where
  "parse_args args =
     (case parse_addr ''0.0.0.0:4433'' of
        Err e \<Rightarrow> Finished (Err e)
      | Ok listen \<Rightarrow>
          and_then
            (parse_args_loop (drop 1 args)
               \<lparr>av_cert_file = None, av_key_file = None, av_root = string_bytes ''.'', av_listen = listen\<rparr>)
            (\<lambda>r. Finished
               (bind_result r (\<lambda>v.
                case av_cert_file v of
                  None \<Rightarrow> Err ''--cert is required''
                | Some cert \<Rightarrow>
                    (case av_key_file v of
                       None \<Rightarrow> Err ''--key is required''
                     | Some key \<Rightarrow>
                         Ok \<lparr>opt_cert_file = cert, opt_key_file = key, opt_root = av_root v, opt_listen = av_listen v\<rparr>)))))"

section \<open>Requests\<close>

text \<open>The file a request names.\<close>

definition request_path :: "bytes \<Rightarrow> bytes \<Rightarrow> bytes" where
  "request_path root data =
     path_join root (encode_utf8 (trim_start_matches 47 (trim (from_utf8_lossy data))))"

definition await_file :: "bytes \<Rightarrow> task \<Rightarrow> ((string, bytes) result \<times> task) run" where
  "await_file path t = and_then (await t) (\<lambda>(r, w, t).
     case r of FileRead p x \<Rightarrow> if p = path then Finished (x, t) else Suspended (shared t) | _ \<Rightarrow> Suspended (shared t))"

definition response_body :: "(string, bytes) result \<Rightarrow> bytes" where
  "response_body file =
     (case file of Ok contents \<Rightarrow> contents | Err e \<Rightarrow> string_bytes (''404 Not Found: '' @ e))"

text \<open>The task that serves one stream. The outcome of the write is only logged.\<close>

definition handle_request ::
    "(closed_watch \<Rightarrow> ConnectionError option) \<Rightarrow> bytes \<Rightarrow> SendStream \<times> RecvStream \<Rightarrow> task \<Rightarrow> task run" where
  "handle_request borrow root streams t =
     (let (snd_stream, rcv_stream) = streams in
      and_then (read_to_end borrow 4096 rcv_stream t) (\<lambda>(r, rcv_stream, t).
        case r of
          Err e \<Rightarrow> Finished (drop_streams snd_stream rcv_stream t)
        | Ok data \<Rightarrow>
            and_then (await_file (request_path root data) t) (\<lambda>(file, t).
            and_then (write_all borrow snd_stream (response_body file) t) (\<lambda>(_, t).
              let (_, snd_stream, t) = finish_now snd_stream t
              in Finished (drop_streams snd_stream rcv_stream t)))))"

section \<open>Connections\<close>

text \<open>The loop over the streams of a connection: the streams it spawned a handler for.\<close>

function serve_streams ::
    "(closed_watch \<Rightarrow> ConnectionError option) \<Rightarrow> Connection \<Rightarrow> task \<Rightarrow> (SendStream \<times> RecvStream) list \<times> task run" where
  "serve_streams borrow conn t =
     (case accept_bi borrow conn t of
        Suspended h \<Rightarrow> ([], Suspended h)
      | Panicked \<Rightarrow> ([], Panicked)
      | Finished (Err e, t) \<Rightarrow> ([], Finished t)
      | Finished (Ok streams, t) \<Rightarrow>
          (let (spawned, outcome) = serve_streams borrow conn t in (streams # spawned, outcome)))"
  by pat_completeness auto

termination
  by (relation "measure (\<lambda>(_, _, t). length (env t))") (auto dest: accept_bi_env)

declare serve_streams.simps [simp del]

text \<open>The accept loop of \<open>main\<close>: the connections it spawned a task for. A failure goes on to the next.\<close>

function accept_connections ::
    "(closed_watch \<Rightarrow> ConnectionError option) \<Rightarrow> waker \<Rightarrow> task \<Rightarrow> Connection list \<times> task run" where
  "accept_connections borrow w t =
     (case await_accept t of
        Suspended h \<Rightarrow> ([], Suspended h)
      | Panicked \<Rightarrow> ([], Panicked)
      | Finished (None, t) \<Rightarrow> ([], Finished t)
      | Finished (Some incoming, t) \<Rightarrow>
          (case accept_incoming incoming (shared t) of
             (Err e, h) \<Rightarrow> accept_connections borrow w (t\<lparr>shared := h\<rparr>)
           | (Ok c, h) \<Rightarrow>
               (case await_connecting borrow w Pending c (t\<lparr>shared := h\<rparr>) of
                  Suspended h \<Rightarrow> ([], Suspended h)
                | Panicked \<Rightarrow> ([], Panicked)
                | Finished (Err e, t) \<Rightarrow> accept_connections borrow w t
                | Finished (Ok conn, t) \<Rightarrow>
                    (let (spawned, outcome) = accept_connections borrow w t in (conn # spawned, outcome)))))"
  by pat_completeness auto

termination
  by (relation "measure (\<lambda>(_, _, t). length (env t))")
    (auto dest!: await_accept_env await_connecting_env)

declare accept_connections.simps [simp del]

definition file_server_alpn :: "bytes list" where
  "file_server_alpn = [string_bytes ''hq-interop'', string_bytes ''hq-29'']"

text \<open>
  \<open>main\<close>: an error before the loop, or the handle of the endpoint with the root directory and what
  the loop does with the events \<open>evs\<close>. \<open>su\<close> tells what the operating system does with an endpoint
  on a given address.
\<close>

definition server_main ::
    "('tls, 'cfg, 'q) tquic_api \<Rightarrow> (SocketAddr \<Rightarrow> startup) \<Rightarrow> (closed_watch \<Rightarrow> ConnectionError option) \<Rightarrow> waker
     \<Rightarrow> event list \<Rightarrow> string list \<Rightarrow> (string, bytes \<times> Connection list \<times> task run) result run" where
  "server_main api su borrow w evs args =
     and_then (parse_args args) (\<lambda>opts. Finished
       (bind_result opts (\<lambda>opts.
        bind_result
          (endpoint_server api (su (opt_listen opts))
             (ServerConfig_new (opt_cert_file opts) (opt_key_file opts) file_server_alpn))
          (\<lambda>(h, b).
        bind_result (endpoint_local_addr h) (\<lambda>addr.
        Ok (opt_root opts, accept_connections borrow w \<lparr>shared = h, next_tx = 0, env = evs\<rparr>))))))"

end
