(* ===== verification/Ex_Clients.thy ===== *)
theory Ex_Clients
  imports Ex_Server
begin

text \<open>
  The other example programs: \<^verbatim>\<open>examples/client.rs\<close> (a client that requests files),
  \<^verbatim>\<open>examples/connection.rs\<close> (a client and a server that echoes one chunk per stream) and
  \<^verbatim>\<open>examples/single_socket.rs\<close> (several connections over one endpoint to an echo server). Errors are
  the texts the programs would print.
\<close>

section \<open>What the clients have in common\<close>

definition show_ClosedStream :: "ClosedStream \<Rightarrow> string" where
  "show_ClosedStream e = ''closed stream''"

text \<open>\<open>m.await?\<close> and \<open>m?\<close> in a function that returns \<open>anyhow::Result\<close>; \<open>txt\<close> is the error's \<open>Display\<close>.\<close>

definition await_ok :: "('e \<Rightarrow> string) \<Rightarrow> (('e, 'a) result \<times> task) run \<Rightarrow> ('a \<Rightarrow> task \<Rightarrow> ((string, 'b) result \<times> task) run)
    \<Rightarrow> ((string, 'b) result \<times> task) run" where
  "await_ok txt m f =
     and_then m (\<lambda>(r, t). case r of Err e \<Rightarrow> Finished (Err (txt e), t) | Ok a \<Rightarrow> f a t)"

text \<open>
  \<open>endpoint.connect(addr, name)?.await?\<close>
\<close>

definition connect_await ::
    "(closed_watch \<Rightarrow> ConnectionError option) \<Rightarrow> waker \<Rightarrow> SocketAddr \<Rightarrow> string \<Rightarrow> task
     \<Rightarrow> ((string, Connection) result \<times> task) run" where
  "connect_await borrow w addr name t =
     (case endpoint_connect (next_tx t) addr name (shared t) of
        (Err e, h) \<Rightarrow> Finished (Err (show_ConnectError e), t\<lparr>shared := h\<rparr>)
      | (Ok c, h) \<Rightarrow>
          await_ok show_ConnectionError
            (await_connecting borrow w Pending c (t\<lparr>shared := h, next_tx := Suc (next_tx t)\<rparr>))
            (\<lambda>conn t. Finished (Ok conn, t)))"

text \<open>
  A request and its response on a new stream: open, write everything, finish, read to the end. The
  streams are dropped at the end of the scope, also on an error.
\<close>

definition exchange ::
    "(closed_watch \<Rightarrow> ConnectionError option) \<Rightarrow> nat \<Rightarrow> bytes \<Rightarrow> Connection \<Rightarrow> task
     \<Rightarrow> ((string, bytes) result \<times> SendStream option \<times> RecvStream option \<times> task) run" where
  "exchange borrow limit request conn t =
     and_then (open_bi_await borrow conn t) (\<lambda>(r, t).
       case r of
         Err e \<Rightarrow> Finished (Err (show_ConnectionError e), None, None, t)
       | Ok (snd_stream, rcv_stream) \<Rightarrow>
           and_then (write_all borrow snd_stream request t) (\<lambda>(r, t).
             case r of
               Err e \<Rightarrow> Finished (Err (show_WriteError e), Some snd_stream, Some rcv_stream, t)
             | Ok _ \<Rightarrow>
                 (case finish_now snd_stream t of
                    (Err e, snd_stream, t) \<Rightarrow>
                      Finished (Err (show_ClosedStream e), Some snd_stream, Some rcv_stream, t)
                  | (Ok _, snd_stream, t) \<Rightarrow>
                      and_then (read_to_end borrow limit rcv_stream t) (\<lambda>(r, rcv_stream, t).
                        Finished (map_err show_ReadToEndError r, Some snd_stream, Some rcv_stream, t)))))"

fun drop_opened :: "SendStream option \<Rightarrow> RecvStream option \<Rightarrow> task \<Rightarrow> task" where
  "drop_opened (Some s) (Some r) t = drop_streams s r t"
| "drop_opened _ _ t = t"

section \<open>The file client\<close>

text \<open>
  The task for one path, up to the response it has read. What it prints of the response is
  \<open>shown_response\<close>; then it ends with \<open>Ok(())\<close>.
\<close>

definition fetch ::
    "(closed_watch \<Rightarrow> ConnectionError option) \<Rightarrow> string \<Rightarrow> Connection \<Rightarrow> task \<Rightarrow> ((string, bytes) result \<times> task) run" where
  "fetch borrow path conn t =
     and_then (exchange borrow (10 * 1024 * 1024) (string_bytes path) conn t) (\<lambda>(r, s, v, t).
       Finished (r, drop_opened s v t))"

text \<open>The part of a response that is shown, and whether it is marked as truncated.\<close>

definition shown_response :: "bytes \<Rightarrow> codepoint list \<times> bool" where
  "shown_response response =
     (if length response \<le> 1024 then (from_utf8_lossy response, False)
      else (from_utf8_lossy (take 512 response), True))"

text \<open>\<open>for handle in handles { handle.await??; }\<close>: the first error, in the order of the tasks.\<close>

fun join_all :: "(string, 'a) result list \<Rightarrow> (string, 'a list) result" where
  "join_all [] = Ok []"
| "join_all (r # rs) = bind_result r (\<lambda>a. map_ok (\<lambda>as. a # as) (join_all rs))"

definition client_alpn :: "bytes list" where
  "client_alpn = [string_bytes ''hq-interop'', string_bytes ''hq-29'']"

text \<open>
  \<open>main\<close> up to the spawning of the tasks: \<open>None\<close> is the exit with the usage text. The tasks run on
  their own; what they return is \<open>results\<close>, one for each path.
\<close>

definition client_start ::
    "('tls, 'cfg, 'q) tquic_api \<Rightarrow> (SocketAddr \<Rightarrow> startup) \<Rightarrow> (closed_watch \<Rightarrow> ConnectionError option) \<Rightarrow> waker
     \<Rightarrow> event list \<Rightarrow> string list \<Rightarrow> ((string, string list \<times> Connection) result \<times> task) run option" where
  "client_start api su borrow w evs args =
     (let idle = \<lparr>shared = BridgeHandle_new addr_unspecified, next_tx = 0, env = evs\<rparr> in
      if length args < 3 then None
      else Some (case parse_addr (args ! 1) of
         Err e \<Rightarrow> Finished (Err e, idle)
       | Ok server_addr \<Rightarrow>
           (case parse_addr ''0.0.0.0:0'' of
              Err e \<Rightarrow> Finished (Err e, idle)
            | Ok addr \<Rightarrow>
                (case endpoint_client api (su addr) of
                   Err e \<Rightarrow> Finished (Err e, idle)
                 | Ok (h, b) \<Rightarrow>
                     await_ok id
                       (connect_await borrow w server_addr ''localhost''
                          (idle\<lparr>shared := set_default_client_config
                             (client_verify False (ClientConfig_new client_alpn)) h\<rparr>))
                       (\<lambda>conn t. Finished (Ok (drop 2 args, conn), t))))))"

definition done_bytes :: bytes where
  "done_bytes = string_bytes ''done''"

text \<open>The end of \<open>main\<close>, when the tasks have been joined.\<close>

definition client_end :: "(string, 'a) result list \<Rightarrow> Connection \<Rightarrow> task \<Rightarrow> ((string, unit) result \<times> task) run" where
  "client_end results conn t =
     (case join_all results of
        Err e \<Rightarrow> Finished (Err e, t)
      | Ok _ \<Rightarrow>
          and_then (wait_idle (t\<lparr>shared := conn_close_api (varint_from_u32 0) done_bytes conn (shared t)\<rparr>))
            (\<lambda>t. Finished (Ok (), t)))"

section \<open>The connection example\<close>

definition hello_message :: bytes where
  "hello_message = string_bytes ''Hello from tokio-tquic!''"

text \<open>\<open>run_client\<close>; \<open>h\<close> is the handle of the endpoint \<open>Endpoint::client\<close> returned.\<close>

definition run_client_on ::
    "(closed_watch \<Rightarrow> ConnectionError option) \<Rightarrow> waker \<Rightarrow> string \<Rightarrow> task \<Rightarrow> ((string, bytes) result \<times> task) run" where
  "run_client_on borrow w server_addr t =
     (let t = t\<lparr>shared := set_default_client_config
                (client_verify False (ClientConfig_new [string_bytes ''hq-interop''])) (shared t)\<rparr> in
      case parse_addr server_addr of
        Err e \<Rightarrow> Finished (Err e, t)
      | Ok addr \<Rightarrow>
          await_ok id (connect_await borrow w addr ''localhost'' t) (\<lambda>conn t.
          and_then (exchange borrow 4096 hello_message conn t) (\<lambda>(r, s, v, t).
            case r of
              Err e \<Rightarrow> Finished (Err e, drop_opened s v t)
            | Ok response \<Rightarrow>
                and_then (wait_idle (t\<lparr>shared := conn_close_api (varint_from_u32 0) done_bytes conn (shared t)\<rparr>))
                  (\<lambda>t. Finished (Ok response, drop_opened s v t)))))"

definition run_client ::
    "('tls, 'cfg, 'q) tquic_api \<Rightarrow> (SocketAddr \<Rightarrow> startup) \<Rightarrow> (closed_watch \<Rightarrow> ConnectionError option) \<Rightarrow> waker
     \<Rightarrow> event list \<Rightarrow> string \<Rightarrow> ((string, bytes) result \<times> task) run" where
  "run_client api su borrow w evs server_addr =
     (let idle = \<lparr>shared = BridgeHandle_new addr_unspecified, next_tx = 0, env = evs\<rparr> in
      case bind_result (parse_addr ''0.0.0.0:0'') (\<lambda>addr. endpoint_client api (su addr)) of
        Err e \<Rightarrow> Finished (Err e, idle)
      | Ok (h, b) \<Rightarrow> run_client_on borrow w server_addr (idle\<lparr>shared := h\<rparr>))"

text \<open>The task the server spawns for a stream: it echoes what one read returns.\<close>

definition echo_chunk ::
    "(closed_watch \<Rightarrow> ConnectionError option) \<Rightarrow> SendStream \<times> RecvStream \<Rightarrow> task \<Rightarrow> task run" where
  "echo_chunk borrow streams t =
     (let (snd_stream, rcv_stream) = streams in
      and_then (read borrow rcv_stream (replicate 4096 0) t) (\<lambda>(r, rcv_stream, buf, t).
        case r of
          Ok (Some n) \<Rightarrow>
            if length buf < n then Panicked
            else
              and_then (write_all borrow snd_stream (take n buf) t) (\<lambda>(_, t).
                let (_, snd_stream, t) = finish_now snd_stream t
                in Finished (drop_streams snd_stream rcv_stream t))
        | Ok None \<Rightarrow> Finished (drop_streams snd_stream rcv_stream t)
        | Err e \<Rightarrow> Finished (drop_streams snd_stream rcv_stream t)))"

text \<open>
  The accept loop of \<open>run_server\<close>: the connections it spawned a task for, and its result. Each of
  these tasks is the loop over the streams of the file server, with \<open>echo_chunk\<close> as the handler.
\<close>

function run_server_loop ::
    "(closed_watch \<Rightarrow> ConnectionError option) \<Rightarrow> waker \<Rightarrow> task
     \<Rightarrow> Connection list \<times> ((string, unit) result \<times> task) run" where
  "run_server_loop borrow w t =
     (case await_accept t of
        Suspended h \<Rightarrow> ([], Suspended h)
      | Panicked \<Rightarrow> ([], Panicked)
      | Finished (None, t) \<Rightarrow> ([], Finished (Ok (), t))
      | Finished (Some incoming, t) \<Rightarrow>
          (case accept_incoming incoming (shared t) of
             (Err e, h) \<Rightarrow> ([], Finished (Err (show_ConnectionError e), t\<lparr>shared := h\<rparr>))
           | (Ok c, h) \<Rightarrow>
               (case await_connecting borrow w Pending c (t\<lparr>shared := h\<rparr>) of
                  Suspended h \<Rightarrow> ([], Suspended h)
                | Panicked \<Rightarrow> ([], Panicked)
                | Finished (Err e, t) \<Rightarrow> ([], Finished (Err (show_ConnectionError e), t))
                | Finished (Ok conn, t) \<Rightarrow>
                    (let (spawned, outcome) = run_server_loop borrow w t in (conn # spawned, outcome)))))"
  by pat_completeness auto

termination
  by (relation "measure (\<lambda>(_, _, t). length (env t))")
    (auto dest!: await_accept_env await_connecting_env)

declare run_server_loop.simps [simp del]

definition run_server ::
    "('tls, 'cfg, 'q) tquic_api \<Rightarrow> (SocketAddr \<Rightarrow> startup) \<Rightarrow> (closed_watch \<Rightarrow> ConnectionError option) \<Rightarrow> waker
     \<Rightarrow> event list \<Rightarrow> string \<Rightarrow> string \<Rightarrow> (string, Connection list \<times> ((string, unit) result \<times> task) run) result" where
  "run_server api su borrow w evs cert_file key_file =
     bind_result (parse_addr ''0.0.0.0:4433'') (\<lambda>addr.
     bind_result (endpoint_server api (su addr) (ServerConfig_new cert_file key_file [string_bytes ''hq-interop''])) (\<lambda>(h, b).
     bind_result (endpoint_local_addr h) (\<lambda>laddr.
     Ok (run_server_loop borrow w \<lparr>shared = h, next_tx = 0, env = evs\<rparr>))))"

text \<open>What \<open>main\<close> does with the command line.\<close>

datatype conn_mode = RunServer string string | RunClient string | ExitUsage

definition connection_mode :: "string list \<Rightarrow> conn_mode" where
  "connection_mode args =
     (if length args < 2 then ExitUsage
      else if args ! 1 = ''server'' then
        (if length args < 4 then ExitUsage else RunServer (args ! 2) (args ! 3))
      else if args ! 1 = ''client'' then
        (if length args < 3 then ExitUsage else RunClient (args ! 2))
      else ExitUsage)"

section \<open>Many connections over one socket\<close>

lemma echo_round_env:
  assumes "accept_bi borrow conn t = Finished (Ok p, t1)" and "read_to_end borrow limit v t1 = Finished (r, v', t2)"
    and "write_all borrow s data t2 = Finished (w, t3)" and "(f, s', t4) = finish_now s t3"
  shows "length (env (drop_streams s' v' t4)) < length (env t)"
  using accept_bi_env [OF assms(1)] read_to_end_env [OF assms(2)] write_all_env [OF assms(3)]
    finish_now_env [OF assms(4) [symmetric]] by simp

text \<open>The loop of the echo server over the streams of a connection, one after the other.\<close>

function echo_loop :: "(closed_watch \<Rightarrow> ConnectionError option) \<Rightarrow> Connection \<Rightarrow> task \<Rightarrow> task run" where
  "echo_loop borrow conn t =
     and_then (accept_bi borrow conn t) (\<lambda>(r, t).
       case r of
         Err e \<Rightarrow> Finished t
       | Ok (snd_stream, rcv_stream) \<Rightarrow>
           and_then (read_to_end borrow (64 * 1024) rcv_stream t) (\<lambda>(r, rcv_stream, t).
             case r of
               Err e \<Rightarrow> Finished (drop_streams snd_stream rcv_stream t)
             | Ok data \<Rightarrow>
                 and_then (write_all borrow snd_stream data t) (\<lambda>(_, t).
                   case finish_now snd_stream t of
                     (_, snd_stream, t) \<Rightarrow> echo_loop borrow conn (drop_streams snd_stream rcv_stream t))))"
  by pat_completeness auto

termination
  by (relation "measure (\<lambda>(_, _, t). length (env t))")
    (auto simp del: drop_env intro: echo_round_env)

declare echo_loop.simps [simp del]

text \<open>The task for an incoming connection.\<close>

definition echo_connection ::
    "(closed_watch \<Rightarrow> ConnectionError option) \<Rightarrow> waker \<Rightarrow> Incoming \<Rightarrow> task \<Rightarrow> task run" where
  "echo_connection borrow w incoming t =
     (case accept_incoming incoming (shared t) of
        (Err e, h) \<Rightarrow> Finished (t\<lparr>shared := h\<rparr>)
      | (Ok c, h) \<Rightarrow>
          and_then (await_connecting borrow w Pending c (t\<lparr>shared := h\<rparr>)) (\<lambda>(r, t).
            case r of
              Err e \<Rightarrow> Finished t
            | Ok conn \<Rightarrow> echo_loop borrow conn t))"

text \<open>The accept loop: what arrived, in order, each served by its own task.\<close>

function echo_accept_loop :: "task \<Rightarrow> Incoming list \<times> task run" where
  "echo_accept_loop t =
     (case await_accept t of
        Suspended h \<Rightarrow> ([], Suspended h)
      | Panicked \<Rightarrow> ([], Panicked)
      | Finished (None, t) \<Rightarrow> ([], Finished t)
      | Finished (Some incoming, t) \<Rightarrow>
          (let (spawned, outcome) = echo_accept_loop t in (incoming # spawned, outcome)))"
  by pat_completeness auto

termination
  by (relation "measure (\<lambda>t. length (env t))") (auto dest: await_accept_env)

declare echo_accept_loop.simps [simp del]

definition demo_transport :: TransportConfig where
  "demo_transport = max_idle_timeout (Some (duration_from_secs 5)) TransportConfig_default"

definition demo_server_config :: "string \<Rightarrow> string \<Rightarrow> ServerConfig" where
  "demo_server_config cert_path key_path =
     server_transport_config demo_transport (ServerConfig_new cert_path key_path [string_bytes ''demo''])"

definition demo_client_config :: ClientConfig where
  "demo_client_config =
     client_transport_config demo_transport (client_verify False (ClientConfig_new [string_bytes ''demo'']))"

text \<open>
  \<open>main\<close> up to the spawning of the tasks: \<open>files\<close> is the outcome of making the certificate and
  writing its two files, with their paths. The result is the handle of the server, its address,
  and the handle of the client with its configuration sent.
\<close>

definition demo_start ::
    "('tls, 'cfg, 'q) tquic_api \<Rightarrow> (SocketAddr \<Rightarrow> startup) \<Rightarrow> (SocketAddr \<Rightarrow> startup) \<Rightarrow> (string, string \<times> string) result
     \<Rightarrow> (string, BridgeHandle \<times> SocketAddr \<times> BridgeHandle) result" where
  "demo_start api server_su client_su files =
     bind_result files (\<lambda>(cert_path, key_path).
     bind_result (parse_addr ''127.0.0.1:0'') (\<lambda>addr.
     bind_result (endpoint_server api (server_su addr) (demo_server_config cert_path key_path)) (\<lambda>(server, b).
     bind_result (endpoint_local_addr server) (\<lambda>server_addr.
     bind_result (parse_addr ''127.0.0.1:0'') (\<lambda>client_addr.
     bind_result (endpoint_client api (client_su client_addr)) (\<lambda>(client, b).
     let client = set_default_client_config demo_client_config client in
     bind_result (endpoint_local_addr client) (\<lambda>_. Ok (server, server_addr, client))))))))"

text \<open>The end of \<open>main\<close>: the tasks of the clients are joined.\<close>

definition demo_end :: "(string, bytes) result list \<Rightarrow> (string, unit) result" where
  "demo_end results = map_ok (\<lambda>_. ()) (join_all results)"

definition demo_message :: "nat \<Rightarrow> bytes" where
  "demo_message i = string_bytes (''Hello from connection #'' @ show_nat i @ ''!'')"

text \<open>The task of client number \<open>i\<close>.\<close>

definition demo_client ::
    "(closed_watch \<Rightarrow> ConnectionError option) \<Rightarrow> waker \<Rightarrow> SocketAddr \<Rightarrow> nat \<Rightarrow> task \<Rightarrow> ((string, bytes) result \<times> task) run" where
  "demo_client borrow w server_addr i t =
     await_ok id (connect_await borrow w server_addr ''localhost'' t) (\<lambda>conn t.
     and_then (exchange borrow (64 * 1024) (demo_message i) conn t) (\<lambda>(r, s, v, t).
       case r of
         Err e \<Rightarrow> Finished (Err e, drop_opened s v t)
       | Ok response \<Rightarrow>
           Finished (Ok response,
             drop_opened s v (t\<lparr>shared := conn_close_api (varint_from_u32 0) done_bytes conn (shared t)\<rparr>))))"

end
