(* ===== verification/Stream_Transfer.thy ===== *)
theory Stream_Transfer
  imports Futures
begin

text \<open>
  Whole transfers as single facts: what \<open>write_all\<close> and \<open>read_to_end\<close> do to the commands of one
  stream, with the events they await and the state they leave, in a form in which they can be
  put one after the other.
\<close>

section \<open>Reads write nothing\<close>

text \<open>The task went on without writing to stream \<open>s\<close>, and its events are some of those it had.\<close>

definition quiet :: "u64 \<Rightarrow> u64 \<Rightarrow> task \<Rightarrow> task \<Rightarrow> bool" where
  "quiet i s t t' \<longleftrightarrow> write_requests i s (shared t') = write_requests i s (shared t) \<and> set (env t') \<subseteq> set (env t)"

lemma quiet_refl [simp]: "quiet i s t t"
  by (simp add: quiet_def)

lemma quiet_trans: "quiet i s t u \<Longrightarrow> quiet i s u v \<Longrightarrow> quiet i s t v"
  by (auto simp: quiet_def)

abbreviation exclusive_env :: "u64 \<Rightarrow> u64 \<Rightarrow> task \<Rightarrow> bool" where
  "exclusive_env i s t \<equiv> \<forall>ev \<in> set (env t). exclusive i s ev"

lemma quiet_exclusive: "quiet i s t t' \<Longrightarrow> exclusive_env i s t \<Longrightarrow> exclusive_env i s t'"
  by (auto simp: quiet_def)

lemma quiet_answer:
  assumes "await_answer prj (send_request c t) = Finished (a, t')" and "exclusive_env i s t"
    and "\<And>tx. written_to i s (c tx) = []"
  shows "quiet i s t t'"
  using assms
  by (cases "env t")
    (auto simp: await_answer_def await_def quiet_def exclusive_def split: await_result.split_asm option.split_asm)

lemma quiet_wait_readable:
  assumes "wait_readable borrow self t = Finished (r, t')" and "exclusive_env i s t"
  shows "quiet i s t t'"
  using assms
  by (cases "env t")
    (auto simp: wait_readable_def await_notified_def await_def quiet_def exclusive_def
      split: option.split_asm await_result.split_asm)

lemma quiet_read_loop:
  assumes "read_loop borrow self buf t = Finished (r, self', buf', t')" and "exclusive_env i s t"
  shows "quiet i s t t'"
  using assms
proof (induction "length (env t)" arbitrary: t rule: less_induct)
  case less
  from less.prems obtain answer t1 where aw: "await_answer read_response
      (send_request (StreamRead (rs_conn_id self) (rs_stream_id self) (length buf)) t) = Finished (answer, t1)"
    by (subst (asm) read_loop.simps) (auto simp: and_then_Finished)
  have q1: "quiet i s t t1" by (rule quiet_answer [OF aw less.prems(2)]) (simp add: written_to_def)
  show ?case
  proof (cases "answer = Ok (Ok ([], False))")
    case False
    with less.prems(1) q1 show ?thesis
      by (auto simp: read_loop_answer [OF aw] split: result.split_asm if_split_asm)
  next
    case True
    with less.prems(1) obtain w t2 where w: "wait_readable borrow self t1 = Finished (w, t2)"
      by (auto simp: read_loop_answer [OF aw] and_then_Finished)
    have q2: "quiet i s t t2"
      using quiet_trans [OF q1 quiet_wait_readable [OF w quiet_exclusive [OF q1 less.prems(2)]]] .
    have "length (env t2) < length (env t)" using await_answer_env [OF aw] wait_readable_env [OF w] by simp
    note IH = less.hyps [OF this _ quiet_exclusive [OF q2 less.prems(2)]]
    show ?thesis
      using less.prems(1) True w q2 quiet_trans [OF q2] IH by (cases w) (auto simp: read_loop_answer [OF aw])
  qed
qed

lemma quiet_read:
  "read borrow self buf t = Finished (r, self', buf', t') \<Longrightarrow> exclusive_env i s t \<Longrightarrow> quiet i s t t'"
  by (auto simp: read_def dest: quiet_read_loop split: if_split_asm)

lemma quiet_read_to_end_loop:
  assumes "read_to_end_loop borrow limit self acc buf t = Finished (r, self', t')" and "exclusive_env i s t"
  shows "quiet i s t t'"
  using assms
proof (induction "length (env t)" arbitrary: t self acc buf rule: less_induct)
  case less
  from less.prems(1) obtain r1 s1 b1 t1 where rd: "read borrow self buf t = Finished (r1, s1, b1, t1)"
    by (subst (asm) read_to_end_loop.simps) (auto simp: and_then_Finished)
  have q: "quiet i s t t1" by (rule quiet_read [OF rd less.prems(2)])
  show ?case
  proof (cases "\<exists>n. r1 = Ok (Some n) \<and> length (acc @ take n b1) \<le> limit")
    case True
    then obtain n where n: "r1 = Ok (Some n)" "length (acc @ take n b1) \<le> limit" by blast
    have lt: "length (env t1) < length (env t)" using rd n(1) by (simp add: read_Some_env)
    have "read_to_end_loop borrow limit s1 (acc @ take n b1) b1 t1 = Finished (r, self', t')"
      using less.prems(1) n rd by (subst (asm) read_to_end_loop.simps) (simp add: Let_def)
    from quiet_trans [OF q less.hyps [OF lt this quiet_exclusive [OF q less.prems(2)]]] show ?thesis .
  next
    case False
    with less.prems(1) rd q show ?thesis
      by (subst (asm) read_to_end_loop.simps) (auto simp: Let_def split: result.split_asm option.split_asm if_split_asm)
  qed
qed

lemma quiet_read_to_end:
  "read_to_end borrow limit self t = Finished (r, self', t') \<Longrightarrow> exclusive_env i s t \<Longrightarrow> quiet i s t t'"
  unfolding read_to_end_def by (rule quiet_read_to_end_loop)

section \<open>Reading a whole stream\<close>

lemma read_to_end_transfer:
  assumes "delivers_reads borrow (rs_conn_id self) later (map chunk cs @ [final d]) (env t)"
    and "conn_open borrow (rs_conn_id self) (shared t)" and "\<not> all_data_read self"
    and "\<forall>c \<in> set cs. length c \<le> 8192" and "length d \<le> 8192" and "length (concat cs @ d) \<le> limit"
    and "exclusive_env i s t"
  obtains t' where "read_to_end borrow limit self t
      = Finished (Ok (concat cs @ d), self\<lparr>all_data_read := True\<rparr>, t')"
    and "env t' = later" and "conn_open borrow (rs_conn_id self) (shared t')" and "quiet i s t t'"
proof -
  from read_to_end_loop_chunks [OF assms(1-3), of "replicate 8192 0" "[]" limit] assms(4-6)
  obtain t' where run: "read_to_end borrow limit self t
      = Finished (Ok (concat cs @ d), self\<lparr>all_data_read := True\<rparr>, t')"
    and rest: "env t' = later" "conn_open borrow (rs_conn_id self) (shared t')"
    by (auto simp: read_to_end_def)
  from that [OF run rest quiet_read_to_end [OF run assms(7)]] show thesis .
qed

section \<open>Writing a whole buffer\<close>

text \<open>Answers whose counts reach the length of the buffer with the last one and not before.\<close>

definition fills :: "nat list \<Rightarrow> bytes \<Rightarrow> bool" where
  "fills ns buf \<longleftrightarrow> (\<forall>k < length ns. sum_list (take k ns) < length buf) \<and> length buf \<le> sum_list ns"

abbreviation counts :: "nat list \<Rightarrow> write_answer list" where
  "counts ns \<equiv> map (\<lambda>n. Ok (Ok n)) ns"

lemma write_all_transfer:
  assumes "delivers_writes borrow (ss_conn_id self) later (counts ns) (env t)"
    and "conn_open borrow (ss_conn_id self) (shared t)" and "\<not> finished self" and "fills ns buf"
    and "exclusive_env (ss_conn_id self) (ss_stream_id self) t"
  obtains t' evs ws where "write_all borrow self buf t = Finished (Ok (), t')" and "env t' = later"
    and "conn_open borrow (ss_conn_id self) (shared t')" and "env t = evs @ later"
    and "write_requests (ss_conn_id self) (ss_stream_id self) (shared t')
      = write_requests (ss_conn_id self) (ss_stream_id self) (shared t) @ ws"
    and "length (taken_counts evs) = length ws" and "taken_bytes (taken_counts evs) ws = buf"
proof -
  from write_all_loop_exact [OF assms(1-3), of 0 buf] assms(4)
  obtain t' where run: "write_all_loop borrow self 0 buf t = Finished (Ok (), t')" and rest: "env t' = later"
    "conn_open borrow (ss_conn_id self) (shared t')" by (auto simp: fills_def)
  from write_all_loop_segment [OF run assms(5)] have "segment self t t' buf" by auto
  with that [of t'] run rest show thesis by (auto simp: segment_def write_all_def)
qed

section \<open>Finishing\<close>

lemma finish_now_open:
  "\<not> finished self \<Longrightarrow> finish_now self t
   = (Ok (), self\<lparr>finished := True\<rparr>,
      t\<lparr>shared := send_cmd (StreamWrite (ss_conn_id self) (ss_stream_id self) [] True (next_tx t)) (shared t),
        next_tx := Suc (next_tx t)\<rparr>)"
  by (simp add: finish_now_def finish_def send_cmds_def Let_def)

lemma drop_ended [simp]:
  "finished s \<Longrightarrow> drop_send s t = t" "all_data_read r \<Longrightarrow> drop_recv r t = t"
  by (simp_all add: drop_send_def send_drop_def drop_recv_def recv_drop_def send_cmds_def Let_def)

lemma drop_streams_ended: "finished s \<Longrightarrow> all_data_read r \<Longrightarrow> drop_streams s r t = t"
  by (simp add: drop_streams_def)

end
