(* ===== verification/Ex_Props.thy ===== *)
theory Ex_Props
  imports Ex_Clients Stream_Transfer
begin

text \<open>
  Properties of the example programs: the command line of the file server, the requests it serves
  and the files it reads, the echo servers, and the exchange the clients make.
\<close>

section \<open>The command line of the file server\<close>

text \<open>A flag with its value, and the loop variables after it.\<close>

definition known_flag :: "string \<Rightarrow> bool" where
  "known_flag f \<longleftrightarrow> f \<in> {''--cert'', ''--key'', ''--root'', ''--listen''}"

definition good_pair :: "string \<times> string \<Rightarrow> bool" where
  "good_pair p \<longleftrightarrow> known_flag (fst p) \<and> (fst p = ''--listen'' \<longrightarrow> parse_SocketAddr (snd p) \<noteq> None)"

definition apply_pair :: "string \<times> string \<Rightarrow> arg_vars \<Rightarrow> arg_vars" where
  "apply_pair p v =
     (if fst p = ''--cert'' then v\<lparr>av_cert_file := Some (snd p)\<rparr>
      else if fst p = ''--key'' then v\<lparr>av_key_file := Some (snd p)\<rparr>
      else if fst p = ''--root'' then v\<lparr>av_root := string_bytes (snd p)\<rparr>
      else case parse_SocketAddr (snd p) of Some a \<Rightarrow> v\<lparr>av_listen := a\<rparr> | None \<Rightarrow> v)"

abbreviation pair_args :: "(string \<times> string) list \<Rightarrow> string list" where
  "pair_args ps \<equiv> concat (map (\<lambda>(f, x). [f, x]) ps)"

lemma parse_args_loop_pairs:
  "\<forall>p \<in> set ps. good_pair p \<Longrightarrow> parse_args_loop (pair_args ps @ rest) v = parse_args_loop rest (fold apply_pair ps v)"
proof (induction ps arbitrary: v)
  case (Cons p ps)
  then show ?case
    by (cases p) (auto simp: good_pair_def known_flag_def apply_pair_def parse_addr_def)
qed simp

text \<open>The value of a flag is the last one given.\<close>

definition last_value :: "string \<Rightarrow> (string \<times> string) list \<Rightarrow> string option" where
  "last_value f ps = map_of (rev ps) f"

lemma last_value_simps [simp]:
  "last_value f [] = None" "last_value f (ps @ [(g, x)]) = (if f = g then Some x else last_value f ps)"
  by (simp_all add: last_value_def)

lemma fold_apply_pair:
  assumes "\<forall>p \<in> set ps. good_pair p"
  shows "fold apply_pair ps v =
    \<lparr>av_cert_file = or_else (last_value ''--cert'' ps) (av_cert_file v),
     av_key_file = or_else (last_value ''--key'' ps) (av_key_file v),
     av_root = unwrap_or (map_option string_bytes (last_value ''--root'' ps)) (av_root v),
     av_listen = unwrap_or (Option.bind (last_value ''--listen'' ps) parse_SocketAddr) (av_listen v)\<rparr>"
  using assms
proof (induction ps rule: rev_induct)
  case (snoc p ps)
  obtain f x where p: "p = (f, x)" by (cases p)
  with snoc.prems have "f = ''--cert'' \<or> f = ''--key'' \<or> f = ''--root'' \<or> f = ''--listen'' \<and> (\<exists>a. parse_SocketAddr x = Some a)"
    by (auto simp: good_pair_def known_flag_def)
  moreover have "\<forall>p \<in> set ps. good_pair p" using snoc.prems by simp
  ultimately show ?case
    using snoc.IH p by (elim disjE conjE exE) (simp_all add: apply_pair_def)
qed simp

text \<open>What the command line means: the reference the parser is compared with.\<close>

definition options_of :: "(string \<times> string) list \<Rightarrow> (string, Options) result" where
  "options_of ps =
     (case (last_value ''--cert'' ps, last_value ''--key'' ps) of
        (None, _) \<Rightarrow> Err ''--cert is required''
      | (Some cert, None) \<Rightarrow> Err ''--key is required''
      | (Some cert, Some key) \<Rightarrow>
          Ok \<lparr>opt_cert_file = cert, opt_key_file = key,
              opt_root = string_bytes (unwrap_or (last_value ''--root'' ps) ''.''),
              opt_listen = unwrap_or (Option.bind (last_value ''--listen'' ps) parse_SocketAddr) (V4 0 4433)\<rparr>)"

lemma parse_default_addr: "parse_addr ''0.0.0.0:4433'' = Ok (V4 0 4433)"
proof -
  have "show_SocketAddr (V4 0 4433) = ''0.0.0.0:4433''"
    by (simp add: show_ipv4_def show_nat.simps digit_char_def numeral_eq_Suc [of _, symmetric]) code_simp
  then show ?thesis using parse_show_V4 [of 0 4433] by (simp add: parse_addr_def)
qed

text \<open>
  C22: the command line of the file server means what the reference says: of each flag the last
  value counts, the certificate and the key are required, and the directory and the address have
  defaults. Every other command line is refused: after any number of good pairs, an unknown
  argument or an address that does not parse is reported, and a flag without its value panics.
\<close>

theorem parse_args_reference:
  assumes "\<forall>p \<in> set ps. good_pair p"
  shows "parse_args (prog # pair_args ps) = Finished (options_of ps)
   \<and> (known_flag f \<longrightarrow> parse_args (prog # pair_args ps @ [f]) = Panicked)
   \<and> (\<not> known_flag f \<longrightarrow> parse_args (prog # pair_args ps @ f # trailing) = Finished (Err (''Unknown argument: '' @ f)))
   \<and> (parse_SocketAddr x = None \<longrightarrow>
        parse_args (prog # pair_args ps @ [''--listen'', x] @ trailing) = Finished (Err ''invalid socket address syntax''))"
proof -
  let ?v = "\<lparr>av_cert_file = None, av_key_file = None, av_root = string_bytes ''.'', av_listen = V4 0 4433\<rparr>"
  note loop = parse_args_loop_pairs [OF assms]
  have "parse_args (prog # pair_args ps) = Finished (options_of ps)"
    using loop [of "[]" ?v] fold_apply_pair [OF assms, of ?v]
    by (cases "last_value ''--root'' ps")
      (simp_all add: parse_args_def parse_default_addr options_of_def split: option.split)
  moreover have "known_flag f \<Longrightarrow> parse_args_loop [f] v = Panicked" for v
    by (auto simp: known_flag_def)
  moreover have "\<not> known_flag f \<Longrightarrow> parse_args_loop (f # trailing) v = Finished (Err (''Unknown argument: '' @ f))" for v
    by (simp add: known_flag_def)
  moreover have "parse_SocketAddr x = None \<Longrightarrow>
      parse_args_loop ([''--listen'', x] @ trailing) v = Finished (Err ''invalid socket address syntax'')" for v
    by (simp add: parse_addr_def)
  ultimately show ?thesis
    by (simp add: parse_args_def parse_default_addr loop del: parse_args_loop.simps append_Cons)
qed

theorem parse_args_reference_witness:
  "parse_args [''server'', ''--cert'', ''a'', ''--key'', ''k'', ''--cert'', ''b'']
   = Finished (Ok \<lparr>opt_cert_file = ''b'', opt_key_file = ''k'', opt_root = string_bytes ''.'', opt_listen = V4 0 4433\<rparr>)"
proof -
  let ?ps = "[(''--cert'', ''a''), (''--key'', ''k''), (''--cert'', ''b'')]"
  have "\<forall>p \<in> set ?ps. good_pair p" by (simp add: good_pair_def known_flag_def)
  from parse_args_reference [OF this, THEN conjunct1, of "''server''"] show ?thesis
    by (simp add: options_of_def last_value_def)
qed

text \<open>
  C23: an options record written out as a command line and parsed again is the same record, for
  every certificate, key and directory and for every IPv4 or IPv6 address to listen on; of an IPv6
  address only the flow information, which its text does not have, must be 0.
\<close>

theorem server_options_roundtrip:
  assumes "opt_root opts = string_bytes dir"
    and "case opt_listen opts of V4 ip port \<Rightarrow> True | V6 ip port flowinfo scope_id \<Rightarrow> flowinfo = 0"
  shows "parse_args [prog, ''--cert'', opt_cert_file opts, ''--key'', opt_key_file opts,
      ''--root'', dir, ''--listen'', show_SocketAddr (opt_listen opts)] = Finished (Ok opts)"
proof -
  have listen: "parse_SocketAddr (show_SocketAddr (opt_listen opts)) = Some (opt_listen opts)"
    using assms(2) parse_show_V4 parse_show_V6
    by (cases "opt_listen opts") (simp_all del: show_SocketAddr.simps)
  show ?thesis
    using assms(1)
    by (simp add: parse_args_def parse_default_addr parse_addr_def [of "show_SocketAddr _"] listen
        del: show_SocketAddr.simps)
qed

theorem server_options_roundtrip_witness:
  "parse_args [''server'', ''--cert'', ''c'', ''--key'', ''k'', ''--root'', ''/srv'', ''--listen'',
      show_SocketAddr (V6 1 443 0 3)]
   = Finished (Ok \<lparr>opt_cert_file = ''c'', opt_key_file = ''k'', opt_root = string_bytes ''/srv'',
      opt_listen = V6 1 443 0 3\<rparr>)"
  using server_options_roundtrip [of "\<lparr>opt_cert_file = ''c'', opt_key_file = ''k'', opt_root = string_bytes ''/srv'',
      opt_listen = V6 1 443 0 3\<rparr>" "''/srv''" "''server''"]
  by (simp del: show_SocketAddr.simps)

section \<open>Files\<close>

lemma utf8_sequence_bound: "utf8_sequence b s = (k, c) \<Longrightarrow> c < 0x140000"
  by (auto simp: utf8_sequence_def Let_def continuation_def second_of_3_def second_of_4_def split: if_split_asm)

lemma decode_lossy_bound: "c \<in> set (decode_lossy s) \<Longrightarrow> c < 0x140000"
  by (induction s rule: decode_lossy.induct)
    (auto simp: Let_def split: if_split_asm prod.split_asm dest: utf8_sequence_bound [OF sym])

lemma word_of_nat_slash: "b < 256 \<Longrightarrow> (word_of_nat b :: u8) = slash \<longleftrightarrow> b = 47"
proof -
  assume "b < 256"
  then have "unat (word_of_nat b :: u8) = b" by (simp add: unsigned_of_nat take_bit_eq_mod)
  then show ?thesis by (simp add: word_unat_eq_iff)
qed

lemma encode_starts:
  assumes "\<forall>c \<in> set cs. c < 0x140000" and "cs = [] \<or> hd cs \<noteq> 47"
  shows "\<not> (encode_utf8 cs \<noteq> [] \<and> hd (encode_utf8 cs) = slash)"
proof (cases cs)
  case (Cons c cs')
  with assms have "c < 0x140000" "c \<noteq> 47" by auto
  then have "encode_char c \<noteq> [] \<and> hd (encode_char c) < 256 \<and> hd (encode_char c) \<noteq> 47"
    by (auto simp: encode_char_def)
  moreover from this have "hd (encode_utf8 cs) = word_of_nat (hd (encode_char c))"
    using Cons by (simp add: encode_utf8_def hd_append hd_map)
  ultimately show ?thesis by (simp add: word_of_nat_slash)
qed (simp add: encode_utf8_def)

lemma request_path_relative:
  "\<not> (encode_utf8 (trim_start_matches 47 (trim (from_utf8_lossy data))) \<noteq> []
      \<and> hd (encode_utf8 (trim_start_matches 47 (trim (from_utf8_lossy data)))) = slash)"
proof (rule encode_starts)
  show "\<forall>c \<in> set (trim_start_matches 47 (trim (from_utf8_lossy data))). c < 0x140000"
    by (auto simp: trim_start_matches_def trim_def from_utf8_lossy_def dest!: set_dropWhileD decode_lossy_bound)
  show "trim_start_matches 47 (trim (from_utf8_lossy data)) = []
      \<or> hd (trim_start_matches 47 (trim (from_utf8_lossy data))) \<noteq> 47"
    using hd_dropWhile [of "\<lambda>d. d = 47"] by (fastforce simp: trim_start_matches_def)
qed

lemma trim_around:
  assumes "\<forall>c \<in> set ws. is_whitespace c" and "\<forall>c \<in> set ws'. is_whitespace c"
    and "m \<noteq> [] \<longrightarrow> \<not> is_whitespace (hd m) \<and> \<not> is_whitespace (last m)"
  shows "trim (ws @ m @ ws') = m"
proof (cases m)
  case Nil
  then have "dropWhile is_whitespace (ws @ m @ ws') = []" using assms(1,2) by (subst dropWhile_eq_Nil_conv) auto
  with Nil show ?thesis unfolding trim_def by (simp only: rev.simps dropWhile.simps)
next
  case (Cons c cs)
  have front: "dropWhile is_whitespace (ws @ m @ ws') = m @ ws'"
    using assms(1,3) Cons by (simp add: dropWhile_append2)
  obtain cs' d where m: "m = cs' @ [d]" using Cons by (metis append_butlast_last_id list.distinct(1))
  have "dropWhile is_whitespace (rev ws' @ rev m) = rev m"
    using assms(2,3) m by (subst dropWhile_append2) auto
  with front show ?thesis by (simp only: trim_def rev_append rev_rev_ident)
qed

text \<open>White space around a request and slashes before its path do not belong to the path.\<close>

lemma trim_request:
  assumes "list_all is_whitespace (ws @ ws')"
    and "p \<noteq> [] \<longrightarrow> hd p \<noteq> 47 \<and> \<not> is_whitespace (last p) \<and> (k = 0 \<longrightarrow> \<not> is_whitespace (hd p))"
  shows "trim_start_matches 47 (trim (ws @ replicate k 47 @ p @ ws')) = p"
proof -
  have "\<not> is_whitespace 47" by (simp add: is_whitespace_def)
  then have "trim (ws @ (replicate k 47 @ p) @ ws') = replicate k 47 @ p"
    using assms by (intro trim_around) (cases k; cases "p = []"; auto simp: list_all_iff hd_append last_append)+
  moreover have "dropWhile (\<lambda>d. d = 47) (replicate k 47 @ p) = dropWhile (\<lambda>d. d = 47) p" by (induction k) simp_all
  moreover have "dropWhile (\<lambda>d. d = 47) p = p" using assms(2) by (cases p) auto
  ultimately show ?thesis by (simp add: trim_start_matches_def)
qed

text \<open>A root directory with the separator that joining a relative path puts after it.\<close>

definition root_dir :: "bytes \<Rightarrow> bytes" where
  "root_dir root = (if root \<noteq> [] \<and> last root \<noteq> slash then root @ [slash] else root)"

lemma request_path_joined:
  "request_path root data = root_dir root @ encode_utf8 (trim_start_matches 47 (trim (from_utf8_lossy data)))"
  using request_path_relative [of data] by (auto simp: request_path_def path_join_def root_dir_def)

text \<open>
  C40: which file the file server reads. Whatever bytes a request holds, the path starts with the
  root directory, and the rest does not begin with a slash. If the request is text, the rest is
  exactly the text without the white space around it and the slashes before it. So absolute paths
  do not lead away from the root; but \<open>..\<close> is kept as it is, so that the request \<open>/../secret\<close> reads a
  file outside of it.
\<close>

theorem request_path_starts_at_root:
  "(\<exists>rest. request_path root data = root_dir root @ rest \<and> \<not> (rest \<noteq> [] \<and> hd rest = slash))
   \<and> (list_all scalar_value (ws @ replicate k 47 @ p @ ws') \<and> list_all is_whitespace (ws @ ws')
        \<and> (p \<noteq> [] \<longrightarrow> hd p \<noteq> 47 \<and> \<not> is_whitespace (last p) \<and> (k = 0 \<longrightarrow> \<not> is_whitespace (hd p)))
      \<longrightarrow> request_path root (encode_utf8 (ws @ replicate k 47 @ p @ ws')) = root_dir root @ encode_utf8 p)
   \<and> request_path root (string_bytes ''/../secret'') = root_dir root @ string_bytes ''../secret''"
proof -
  have textual: "request_path root (encode_utf8 (ws @ replicate k 47 @ p @ ws')) = root_dir root @ encode_utf8 p"
    if "list_all scalar_value (ws @ replicate k 47 @ p @ ws')" "list_all is_whitespace (ws @ ws')"
      "p \<noteq> [] \<longrightarrow> hd p \<noteq> 47 \<and> \<not> is_whitespace (last p) \<and> (k = 0 \<longrightarrow> \<not> is_whitespace (hd p))" for ws ws' p k
    using that(1) by (simp add: request_path_joined from_utf8_lossy_encode list_all_iff trim_request [OF that(2,3)])
  let ?p = "[46, 46, 47, 115, 101, 99, 114, 101, 116]"
  have bytes: "string_bytes ''/../secret'' = encode_utf8 ([] @ replicate 1 47 @ ?p @ [])"
    "string_bytes ''../secret'' = encode_utf8 ?p" by code_simp+
  have "request_path root (string_bytes ''/../secret'') = root_dir root @ string_bytes ''../secret''"
    unfolding bytes by (rule textual) (simp_all add: scalar_value_def is_whitespace_def)
  with textual request_path_relative [of data] request_path_joined [of root data] show ?thesis by blast
qed

theorem request_path_starts_at_root_witness:
  "request_path (string_bytes ''/srv'') (encode_utf8 ([32] @ replicate 2 47 @ [97] @ [10]))
     = string_bytes ''/srv/'' @ encode_utf8 [97]
   \<and> request_path (string_bytes ''/srv'') (string_bytes ''/../secret'') = string_bytes ''/srv/../secret''"
proof -
  have "root_dir (string_bytes ''/srv'') = string_bytes ''/srv/''" by code_simp
  moreover have "string_bytes ''/srv/'' @ string_bytes ''../secret'' = string_bytes ''/srv/../secret''"
    by (simp add: string_bytes_def)
  ultimately show ?thesis
    using request_path_starts_at_root [of "string_bytes ''/srv''" "[]" "[32]" 2 "[97]" "[10]"]
    by (simp add: scalar_value_def is_whitespace_def list_all_iff)
qed

section \<open>Requests and responses\<close>

text \<open>The bytes TQUIC took from the write requests that the events \<open>evs\<close> answered.\<close>

definition sent_exactly :: "u64 \<Rightarrow> u64 \<Rightarrow> BridgeHandle \<Rightarrow> BridgeHandle \<Rightarrow> event list \<Rightarrow> bytes \<Rightarrow> bool" where
  "sent_exactly i s h h' evs bs \<longleftrightarrow> (\<exists>ws. write_requests i s h' = write_requests i s h @ ws @ [[]]
     \<and> length (taken_counts evs) = length ws \<and> taken_bytes (taken_counts evs) ws = bs)"

text \<open>A response: everything is written, then the stream is finished and nothing is left to drop.\<close>

lemma respond_and_finish:
  assumes "delivers_writes borrow i later (counts ns) (env t)" and "conn_open borrow i (shared t)"
    and "\<not> finished s" and "fills ns buf" and "exclusive_env i (ss_stream_id s) t" and "ss_conn_id s = i"
  obtains t' t'' evs where "write_all borrow s buf t = Finished (Ok (), t')"
    and "finish_now s t' = (Ok (), s\<lparr>finished := True\<rparr>, t'')" and "env t'' = later" and "env t = evs @ later"
    and "conn_open borrow i (shared t'')" and "sent_exactly i (ss_stream_id s) (shared t) (shared t'') evs buf"
    and "last (cmd_tx (shared t'')) = StreamWrite i (ss_stream_id s) [] True (next_tx t')"
proof -
  from write_all_transfer [of borrow s later ns t buf] assms obtain t' evs ws
    where w: "write_all borrow s buf t = Finished (Ok (), t')" "env t' = later" "conn_open borrow i (shared t')"
      "env t = evs @ later" "write_requests i (ss_stream_id s) (shared t') = write_requests i (ss_stream_id s) (shared t) @ ws"
      "length (taken_counts evs) = length ws" "taken_bytes (taken_counts evs) ws = buf" by metis
  with assms(3,6) show thesis
    by (intro that [OF w(1) finish_now_open [OF assms(3)], of evs]) (auto simp: sent_exactly_def written_to_def)
qed

text \<open>
  The file server answers a request. When the peer's request has arrived completely and within
  the limit, in whatever pieces, the file read is the one the request names, the bytes TQUIC takes
  are the contents of that file, or the text "404 Not Found" with the reason if it cannot be read,
  and the stream is then finished, once; the handler returns having awaited nothing else.
\<close>

lemma file_server_response:
  assumes "\<not> finished s" and "\<not> all_data_read v" and "ss_conn_id s = i" and "rs_conn_id v = i"
    and "conn_open borrow i (shared t)" and "exclusive_env i (ss_stream_id s) t"
    and "delivers_reads borrow i (ev # evs) (map chunk cs @ [final d]) (env t)"
    and "\<forall>c \<in> set cs. length c \<le> 8192" and "length d \<le> 8192" and "length (concat cs @ d) \<le> 4096"
    and "outcome ev = FileRead (request_path root (concat cs @ d)) file" and "keeps_open borrow i ev"
    and "delivers_writes borrow i later (counts ns) evs" and "fills ns (response_body file)"
  shows "\<exists>t' wevs tx. handle_request borrow root (s, v) t = Finished t' \<and> env t' = later \<and> evs = wevs @ later
    \<and> sent_exactly i (ss_stream_id s) (shared t) (shared t') wevs (response_body file)
    \<and> last (cmd_tx (shared t')) = StreamWrite i (ss_stream_id s) [] True tx"
proof -
  obtain t1 where rd: "read_to_end borrow 4096 v t = Finished (Ok (concat cs @ d), v\<lparr>all_data_read := True\<rparr>, t1)"
    and env1: "env t1 = ev # evs" and open1: "conn_open borrow i (shared t1)" and q1: "quiet i (ss_stream_id s) t t1"
    by (rule read_to_end_transfer [OF assms(7,5) [folded assms(4)] assms(2,8,9,10,6)]) (simp add: assms(4))
  let ?t2 = "t1\<lparr>shared := others ev (shared t1), env := evs\<rparr>"
  have got: "await_file (request_path root (concat cs @ d)) t1 = Finished (file, ?t2)"
    using env1 assms(11) by (simp add: await_file_def await_Cons)
  have open2: "conn_open borrow i (shared ?t2)" using open1 assms(12) by (simp add: keeps_open_def)
  have q2: "quiet i (ss_stream_id s) t ?t2"
    using q1 env1 assms(6) by (auto simp: quiet_def exclusive_def)
  have writes: "delivers_writes borrow i later (counts ns) (env ?t2)" using assms(13) by simp
  obtain t3 t4 wevs where run: "write_all borrow s (response_body file) ?t2 = Finished (Ok (), t3)"
      "finish_now s t3 = (Ok (), s\<lparr>finished := True\<rparr>, t4)" "env t4 = later" "env ?t2 = wevs @ later"
    and sent: "sent_exactly i (ss_stream_id s) (shared ?t2) (shared t4) wevs (response_body file)"
      "last (cmd_tx (shared t4)) = StreamWrite i (ss_stream_id s) [] True (next_tx t3)"
    by (rule respond_and_finish [OF writes open2 assms(1,14) quiet_exclusive [OF q2 assms(6)] assms(3)])
  have "handle_request borrow root (s, v) t = Finished t4"
    by (simp add: handle_request_def rd got run drop_streams_ended)
  with run(3,4) sent q2 show ?thesis by (auto simp: sent_exactly_def quiet_def)
qed

section \<open>Clients\<close>

lemma conn_open_check: "conn_open borrow (c_conn_id c) h \<Longrightarrow> check_closed borrow c h = None"
  by (auto simp: conn_open_def check_closed_def split: option.split_asm)

lemma exchange_transfer:
  assumes "conn_open borrow i (shared t)" and "c_conn_id c = i" and "exclusive_env i sid t"
    and "env t = ev # evs" and "outcome ev = Answered (Some (RespOpen (Ok sid)))" and "keeps_open borrow i ev"
    and "delivers_writes borrow i revs (counts ns) evs" and "fills ns request"
    and "delivers_reads borrow i later (map chunk cs @ [final d]) revs"
    and "\<forall>c \<in> set cs. length c \<le> 8192" and "length d \<le> 8192" and "length (concat cs @ d) \<le> limit"
  shows "\<exists>t' wevs. exchange borrow limit request c t
      = Finished (Ok (concat cs @ d), Some ((new_send_stream i sid)\<lparr>finished := True\<rparr>),
          Some ((new_recv_stream i sid)\<lparr>all_data_read := True\<rparr>), t')
    \<and> env t' = later \<and> evs = wevs @ revs \<and> sent_exactly i sid (shared t) (shared t') wevs request"
proof -
  let ?s = "new_send_stream i sid" and ?v = "new_recv_stream i sid"
  have ids: "ss_conn_id ?s = i" "ss_stream_id ?s = sid" "rs_conn_id ?v = i" "\<not> finished ?s" "\<not> all_data_read ?v"
    by (simp_all add: new_send_stream_def new_recv_stream_def)
  let ?h = "others ev (send_cmd (OpenBiStream i (next_tx t)) (shared t))"
  let ?t1 = "t\<lparr>shared := ?h, next_tx := Suc (next_tx t), env := evs\<rparr>"
  have opened: "open_bi_await borrow c t = Finished (Ok (?s, ?v), ?t1)"
    using open_bi_await_answer [of borrow c t "[]" ev "Ok (Ok sid)" evs] assms(1,2,4,5) conn_open_check [of borrow c]
    by simp
  have open1: "conn_open borrow i (shared ?t1)" using assms(1,6) by (simp add: keeps_open_def)
  have wr1: "write_requests i sid (shared ?t1) = write_requests i sid (shared t)"
    using assms(3,4) by (simp add: exclusive_def written_to_def)
  have ex1: "exclusive_env i (ss_stream_id ?s) ?t1" using assms(3,4) ids(2) by simp
  have writes: "delivers_writes borrow i revs (counts ns) (env ?t1)" using assms(7) by simp
  obtain t2 t3 wevs where run: "write_all borrow ?s request ?t1 = Finished (Ok (), t2)"
      "finish_now ?s t2 = (Ok (), ?s\<lparr>finished := True\<rparr>, t3)" "env t3 = revs" "env ?t1 = wevs @ revs"
      "conn_open borrow i (shared t3)"
    and sent: "sent_exactly i (ss_stream_id ?s) (shared ?t1) (shared t3) wevs request"
    by (rule respond_and_finish [OF writes open1 ids(4) assms(8) ex1 ids(1)])
  have ex3: "exclusive_env i sid t3" using assms(3,4) run(3,4) by simp
  have reads: "delivers_reads borrow (rs_conn_id ?v) later (map chunk cs @ [final d]) (env t3)"
    and open3: "conn_open borrow (rs_conn_id ?v) (shared t3)"
    using assms(9) run(3,5) ids(3) by simp_all
  obtain t4 where rd: "read_to_end borrow limit ?v t3 = Finished (Ok (concat cs @ d), ?v\<lparr>all_data_read := True\<rparr>, t4)"
      "env t4 = later" "quiet i sid t3 t4"
    by (rule read_to_end_transfer [OF reads open3 ids(5) assms(10-12) ex3])
  have "exchange borrow limit request c t
      = Finished (Ok (concat cs @ d), Some (?s\<lparr>finished := True\<rparr>), Some (?v\<lparr>all_data_read := True\<rparr>), t4)"
    by (simp add: exchange_def opened run(1,2) rd(1))
  with rd(2,3) run(4) sent wr1 ids(2) show ?thesis by (auto simp: sent_exactly_def quiet_def)
qed

text \<open>
  The file client fetches a path: it opens a stream once, TQUIC takes exactly the bytes of the
  path and then the end of the stream, and the result is the whole response, in whatever pieces it
  arrives, if it is within the limit of 10 MiB. Nothing remains to be shut down when it returns.
\<close>

lemma fetch_outcome:
  assumes "conn_open borrow i (shared t)" and "c_conn_id c = i" and "exclusive_env i sid t"
    and "env t = ev # evs" and "outcome ev = Answered (Some (RespOpen (Ok sid)))" and "keeps_open borrow i ev"
    and "delivers_writes borrow i revs (counts ns) evs" and "fills ns (string_bytes path)"
    and "delivers_reads borrow i later (map chunk cs @ [final d]) revs"
    and "\<forall>c \<in> set cs. length c \<le> 8192" and "length d \<le> 8192" and "length (concat cs @ d) \<le> 10485760"
  shows "\<exists>t' wevs. fetch borrow path c t = Finished (Ok (concat cs @ d), t') \<and> env t' = later
    \<and> evs = wevs @ revs \<and> sent_exactly i sid (shared t) (shared t') wevs (string_bytes path)"
proof -
  from exchange_transfer [OF assms(1-7) assms(8-12)] obtain t' wevs
    where "exchange borrow 10485760 (string_bytes path) c t
      = Finished (Ok (concat cs @ d), Some ((new_send_stream i sid)\<lparr>finished := True\<rparr>),
          Some ((new_recv_stream i sid)\<lparr>all_data_read := True\<rparr>), t')"
      and rest: "env t' = later" "evs = wevs @ revs" "sent_exactly i sid (shared t) (shared t') wevs (string_bytes path)"
    by blast
  then have "fetch borrow path c t = Finished (Ok (concat cs @ d), t')"
    by (simp add: fetch_def drop_streams_ended)
  with rest show ?thesis by blast
qed

lemma sent_exactly_unique:
  "sent_exactly i s h h' evs bs \<Longrightarrow> sent_exactly i s h h' evs bs' \<Longrightarrow> bs = bs'"
  by (auto simp: sent_exactly_def)

text \<open>
  C8: a file transfer, end to end: the file client on one side, the file server on the other. When
  QUIC delivers on each side the bytes that were taken on the other (in whatever pieces, with
  whatever else happens in between), \<open>fetch\<close> returns exactly the contents of the file that the
  path names below the root of the server, or the text of the 404 response, and both tasks
  complete.
\<close>

theorem file_transfer_end_to_end:
  assumes client: "conn_open borrow i (shared t)" "c_conn_id c = i" "exclusive_env i sid t"
      "env t = ev # evs" "outcome ev = Answered (Some (RespOpen (Ok sid)))" "keeps_open borrow i ev"
      "delivers_writes borrow i revs (counts ns) evs" "fills ns (string_bytes path)"
      "delivers_reads borrow i later (map chunk cs @ [final d]) revs"
      "\<forall>c \<in> set cs. length c \<le> 8192" "length d \<le> 8192" "length (concat cs @ d) \<le> 10485760"
    and server: "\<not> finished s" "\<not> all_data_read v" "ss_conn_id s = j" "rs_conn_id v = j"
      "conn_open borrow j (shared u)" "exclusive_env j (ss_stream_id s) u"
      "delivers_reads borrow j (fev # fevs) (map chunk cs' @ [final d']) (env u)"
      "\<forall>c \<in> set cs'. length c \<le> 8192" "length d' \<le> 8192" "length path \<le> 4096"
      "outcome fev = FileRead (request_path root (string_bytes path)) file" "keeps_open borrow j fev"
      "delivers_writes borrow j later' (counts ns') fevs" "fills ns' (response_body file)"
    and request: "\<And>r t' wevs bs. fetch borrow path c t = Finished (r, t') \<Longrightarrow> evs = wevs @ revs
      \<Longrightarrow> sent_exactly i sid (shared t) (shared t') wevs bs \<Longrightarrow> concat cs' @ d' = bs"
    and response: "\<And>u' wevs bs. handle_request borrow root (s, v) u = Finished u' \<Longrightarrow> fevs = wevs @ later'
      \<Longrightarrow> sent_exactly j (ss_stream_id s) (shared u) (shared u') wevs bs \<Longrightarrow> concat cs @ d = bs"
  shows "\<exists>t' u'. fetch borrow path c t = Finished (Ok (response_body file), t') \<and> env t' = later
    \<and> handle_request borrow root (s, v) u = Finished u' \<and> env u' = later'"
proof -
  from fetch_outcome [OF client] obtain t' wevs
    where f: "fetch borrow path c t = Finished (Ok (concat cs @ d), t')" "env t' = later" "evs = wevs @ revs"
      "sent_exactly i sid (shared t) (shared t') wevs (string_bytes path)" by blast
  from request [OF f(1,3,4)] have path: "concat cs' @ d' = string_bytes path" .
  with server(10) have "length (concat cs' @ d') \<le> 4096" by (simp add: string_bytes_def)
  with file_server_response [OF server(1-9) _ _ server(12-14), of root] server(11) path
  obtain u' wevs' where h: "handle_request borrow root (s, v) u = Finished u'" "env u' = later'" "fevs = wevs' @ later'"
      "sent_exactly j (ss_stream_id s) (shared u) (shared u') wevs' (response_body file)" by auto
  from response [OF h(1,3,4)] f(1,2) h(1,2) show ?thesis by auto
qed

theorem file_transfer_end_to_end_witness:
  "let root = string_bytes ''/srv'' in
   \<exists>t'. fetch last ''/a'' \<lparr>c_conn_id = 7\<rparr>
     (sample_task (map calm [Answered (Some (RespOpen (Ok 4))), Answered (Some (RespWrite (Ok 2))),
        Answered (Some (RespRead (Ok ([1, 2, 3], True))))]))
   = Finished (Ok (response_body (Ok [1, 2, 3])), t')"
proof -
  let ?root = "string_bytes ''/srv''" and ?c = "\<lparr>c_conn_id = 7\<rparr>"
  let ?o = "calm (Answered (Some (RespOpen (Ok 4))))" and ?w = "calm (Answered (Some (RespWrite (Ok 2))))"
    and ?r = "calm (Answered (Some (RespRead (Ok ([1, 2, 3], True)))))"
  let ?t = "sample_task [?o, ?w, ?r]"
  let ?q = "calm (Answered (Some (RespRead (Ok (string_bytes ''/a'', True)))))"
    and ?f = "calm (FileRead (request_path ?root (string_bytes ''/a'')) (Ok [1, 2, 3]))"
    and ?a = "calm (Answered (Some (RespWrite (Ok 3))))"
  let ?u = "sample_task [?q, ?f, ?a]"
  have cw: "delivers_writes last 7 [?r] (counts [2]) [?w, ?r]"
    by (simp, rule delivers.answer) (simp_all add: delivers.nothing)
  have cr: "delivers_reads last 7 [] (map chunk [] @ [final [1, 2, 3]]) [?r]"
    by (simp, rule delivers.answer) (simp_all add: delivers.nothing)
  have sr: "delivers_reads last 7 (?f # [?a]) (map chunk [] @ [final (string_bytes ''/a'')]) (env ?u)"
    by (simp, rule delivers.answer) (simp_all add: delivers.nothing)
  have sw: "delivers_writes last 7 [] (counts [3]) [?a]"
    by (simp, rule delivers.answer) (simp_all add: delivers.nothing)
  have fc: "fills [2] (string_bytes ''/a'')" and fs: "fills [3] (response_body (Ok [1, 2, 3]))"
    and sl: "length (string_bytes ''/a'') \<le> 4096"
    by (simp_all add: fills_def string_bytes_def response_body_def)
  obtain t' where f: "fetch last ''/a'' ?c ?t = Finished (Ok (concat [] @ [1, 2, 3]), t')"
    "sent_exactly 7 4 (shared ?t) (shared t') [?w] (string_bytes ''/a'')"
    using fetch_outcome [OF _ _ _ _ _ _ cw fc cr, of ?t ?c 4 ?o] by auto
  obtain u' where h: "handle_request last ?root (sample_send, sample_recv) ?u = Finished u'"
    "sent_exactly 7 4 (shared ?u) (shared u') [?a] (response_body (Ok [1, 2, 3]))"
    using file_server_response [OF _ _ _ _ _ _ sr _ _ _ _ _ sw fs, of sample_send sample_recv ?root] sl
    by (auto simp: sample_send_def sample_recv_def)
  have request: "concat [] @ string_bytes ''/a'' = bs"
    if "fetch last ''/a'' ?c ?t = Finished (r, t'')" "[?w, ?r] = wevs @ [?r]" "sent_exactly 7 4 (shared ?t) (shared t'') wevs bs"
    for r t'' wevs bs
    using that f sent_exactly_unique by auto
  have response: "concat [] @ [1, 2, 3] = bs"
    if "handle_request last ?root (sample_send, sample_recv) ?u = Finished u''" "[?a] = wevs @ []"
      "sent_exactly 7 (ss_stream_id sample_send) (shared ?u) (shared u'') wevs bs" for u'' wevs bs
    using that h sent_exactly_unique [of 7 4] by (auto simp: response_body_def sample_send_def)
  have "\<exists>t' u'. fetch last ''/a'' ?c ?t = Finished (Ok (response_body (Ok [1, 2, 3])), t') \<and> env t' = []
    \<and> handle_request last ?root (sample_send, sample_recv) ?u = Finished u' \<and> env u' = []"
    by (rule file_transfer_end_to_end [where ev = ?o and fev = ?f,
          OF _ _ _ _ _ _ cw fc cr _ _ _ _ _ _ _ _ _ sr _ _ _ _ _ sw fs])
      (fact request response | simp add: sample_send_def sample_recv_def string_bytes_def)+
  then show ?thesis by auto
qed

section \<open>Echo servers\<close>

text \<open>
  The server of the connection example echoes what its one read returns: the first piece of the
  request, then the end of the stream. If that piece was not the last one, the rest of the request
  is refused with code 0 when the handler ends.
\<close>

lemma echo_chunk_outcome:
  assumes "\<not> finished s" and "\<not> all_data_read v" and "ss_conn_id s = i" and "rs_conn_id v = i"
    and "conn_open borrow i (shared t)" and "exclusive_env i (ss_stream_id s) t"
    and "delivers_reads borrow i evs [Ok (Ok (d, fin))] (env t)" and "d \<noteq> []" and "length d \<le> 4096"
    and "delivers_writes borrow i later (counts ns) evs" and "fills ns d"
  shows "\<exists>t' wevs tx. echo_chunk borrow (s, v) t = Finished t' \<and> env t' = later \<and> evs = wevs @ later
    \<and> sent_exactly i (ss_stream_id s) (shared t) (shared t') wevs d
    \<and> last (cmd_tx (shared t')) = (if fin then StreamWrite i (ss_stream_id s) [] True tx
        else StreamShutdownRead i (rs_stream_id v) 0)"
proof -
  let ?buf = "replicate 4096 (0 :: u8)"
  have reads: "delivers_reads borrow (rs_conn_id v) evs (Ok (Ok (d, fin)) # []) (env t)" using assms(4,7) by simp
  have fits: "length (answer_data (Ok (Ok (d, fin)))) \<le> length ?buf" using assms(9) by simp
  obtain t1 where rd: "read borrow v ?buf t = Finished (case read_of (Ok (Ok (d, fin))) v ?buf of (r, v', b') \<Rightarrow> (r, v', b', t1))"
    and open1: "conn_open borrow (rs_conn_id v) (shared t1)" and left: "delivers_reads borrow (rs_conn_id v) evs [] (env t1)"
    by (rule read_delivers [OF reads assms(5) [folded assms(4)] assms(2) fits])
  have env1: "env t1 = evs" by (rule delivers_done [OF left])
  have rd': "read borrow v ?buf t = Finished (Ok (Some (length d)), (if fin then v\<lparr>all_data_read := True\<rparr> else v), write_front d ?buf, t1)"
    using rd assms(8) by simp
  have q: "quiet i (ss_stream_id s) t t1" by (rule quiet_read [OF rd' assms(6)])
  have writes: "delivers_writes borrow i later (counts ns) (env t1)" using assms(10) env1 by simp
  obtain t3 t4 wevs where run: "write_all borrow s d t1 = Finished (Ok (), t3)"
      "finish_now s t3 = (Ok (), s\<lparr>finished := True\<rparr>, t4)" "env t4 = later" "env t1 = wevs @ later"
    and sent: "sent_exactly i (ss_stream_id s) (shared t1) (shared t4) wevs d"
      "last (cmd_tx (shared t4)) = StreamWrite i (ss_stream_id s) [] True (next_tx t3)"
    by (rule respond_and_finish [OF writes open1 [unfolded assms(4)] assms(1,11) quiet_exclusive [OF q assms(6)] assms(3)])
  have "echo_chunk borrow (s, v) t = Finished (drop_streams (s\<lparr>finished := True\<rparr>) (if fin then v\<lparr>all_data_read := True\<rparr> else v) t4)"
    using assms(9) by (simp add: echo_chunk_def rd' run(1,2))
  with run(3,4) sent q env1 assms(2,4) show ?thesis
    by (auto simp: drop_streams_def drop_recv_def recv_drop_def stop_def send_cmds_def sent_exactly_def quiet_def
        written_to_def varint_from_u32_def)
qed

text \<open>A round of the echo loop: the stream that was accepted gets back what was sent on it.\<close>

lemma accept_bi_received:
  assumes "env t = e1 # e2 # evs" and "outcome e1 = Locked" and "outcome e2 = Received (Some sid)"
    and "conn_open borrow (c_conn_id c) (shared t)"
  shows "accept_bi borrow c t = Finished (Ok (new_send_stream (c_conn_id c) sid, new_recv_stream (c_conn_id c) sid),
    t\<lparr>shared := others e2 (others e1 (shared t)), env := evs\<rparr>)"
proof -
  from assms(4) obtain cn where "get_conn_notify (c_conn_id c) (shared t) = Some cn" "borrow (closed_tx cn) = None"
    by (auto simp: conn_open_def split: option.split_asm)
  with assms(1-3) show ?thesis
    by (simp add: accept_bi_def accept_bi_loop.simps await_lock_def await_stream_or_close_def await_Cons)
qed

text \<open>
  C25: the echo server of the single-socket example returns every stream. In each round of its loop
  the stream that is accepted gets back exactly the bytes that came on it, up to 64 KiB and in
  whatever pieces, followed by the end of the stream; then the loop goes on with the next one.
\<close>

theorem echo_loop_round:
  assumes "conn_open borrow i (shared t)" and "c_conn_id c = i" and "exclusive_env i sid t"
    and "env t = e1 # e2 # evs" and "outcome e1 = Locked" and "outcome e2 = Received (Some sid)"
    and "keeps_open borrow i e1" and "keeps_open borrow i e2"
    and "delivers_reads borrow i wevs (map chunk cs @ [final d]) evs"
    and "\<forall>c \<in> set cs. length c \<le> 8192" and "length d \<le> 8192" and "length (concat cs @ d) \<le> 65536"
    and "delivers_writes borrow i later (counts ns) wevs" and "fills ns (concat cs @ d)"
  shows "\<exists>t' aevs. echo_loop borrow c t = echo_loop borrow c t' \<and> env t' = later \<and> wevs = aevs @ later
    \<and> sent_exactly i sid (shared t) (shared t') aevs (concat cs @ d) \<and> conn_open borrow i (shared t')"
proof -
  let ?s = "new_send_stream i sid" and ?v = "new_recv_stream i sid"
  let ?t1 = "t\<lparr>shared := others e2 (others e1 (shared t)), env := evs\<rparr>"
  have ids: "ss_conn_id ?s = i" "ss_stream_id ?s = sid" "rs_conn_id ?v = i" "\<not> finished ?s" "\<not> all_data_read ?v"
    by (simp_all add: new_send_stream_def new_recv_stream_def)
  have acc: "accept_bi borrow c t = Finished (Ok (?s, ?v), ?t1)"
    using accept_bi_received [OF assms(4-6), of borrow c] assms(1,2) by simp
  have open1: "conn_open borrow (rs_conn_id ?v) (shared ?t1)" using assms(1,7,8) ids(3) by (simp add: keeps_open_def)
  have q1: "quiet i sid t ?t1" using assms(3,4) by (auto simp: quiet_def exclusive_def)
  have reads: "delivers_reads borrow (rs_conn_id ?v) wevs (map chunk cs @ [final d]) (env ?t1)"
    using assms(9) ids(3) by simp
  obtain t2 where rd: "read_to_end borrow 65536 ?v ?t1 = Finished (Ok (concat cs @ d), ?v\<lparr>all_data_read := True\<rparr>, t2)"
      "env t2 = wevs" "conn_open borrow (rs_conn_id ?v) (shared t2)" "quiet i sid ?t1 t2"
    by (rule read_to_end_transfer [OF reads open1 ids(5) assms(10-12) quiet_exclusive [OF q1 assms(3)]])
  note q2 = quiet_trans [OF q1 rd(4)]
  have writes: "delivers_writes borrow i later (counts ns) (env t2)" and open2: "conn_open borrow i (shared t2)"
    and ex2: "exclusive_env i (ss_stream_id ?s) t2"
    using assms(13) rd(2,3) ids(2,3) quiet_exclusive [OF q2 assms(3)] by simp_all
  obtain t3 t4 aevs where run: "write_all borrow ?s (concat cs @ d) t2 = Finished (Ok (), t3)"
      "finish_now ?s t3 = (Ok (), ?s\<lparr>finished := True\<rparr>, t4)" "env t4 = later" "env t2 = aevs @ later"
      "conn_open borrow i (shared t4)" "sent_exactly i (ss_stream_id ?s) (shared t2) (shared t4) aevs (concat cs @ d)"
    by (rule respond_and_finish [OF writes open2 ids(4) assms(14) ex2 ids(1)])
  have "echo_loop borrow c t = echo_loop borrow c t4"
    by (subst echo_loop.simps) (simp add: acc rd(1) run(1,2) drop_streams_ended)
  with run(3-6) rd(2) q2 ids(2) show ?thesis by (auto simp: sent_exactly_def quiet_def)
qed

theorem echo_loop_round_witness:
  "\<exists>t'. echo_loop last \<lparr>c_conn_id = 7\<rparr>
     (sample_task (map calm [Locked, Received (Some 4), Answered (Some (RespRead (Ok ([1, 2], True)))),
        Answered (Some (RespWrite (Ok 2)))])) = echo_loop last \<lparr>c_conn_id = 7\<rparr> t' \<and> env t' = []"
proof -
  let ?w = "calm (Answered (Some (RespWrite (Ok 2))))"
  let ?r = "calm (Answered (Some (RespRead (Ok ([1, 2], True)))))"
  have reads: "delivers_reads last 7 [?w] (map chunk [] @ [final [1, 2]]) [?r, ?w]"
    by (simp, rule delivers.answer) (simp_all add: delivers.nothing)
  have writes: "delivers_writes last 7 [] (counts [2]) [?w]"
    by (simp, rule delivers.answer) (simp_all add: delivers.nothing)
  have "fills [2] (concat [] @ [1, 2 :: u8])" by (simp add: fills_def)
  from echo_loop_round [OF _ _ _ _ _ _ _ _ reads _ _ _ writes this, of "sample_task [calm Locked, calm (Received (Some 4)), ?r, ?w]"
      "\<lparr>c_conn_id = 7\<rparr>" 4 "calm Locked" "calm (Received (Some 4))"]
  show ?thesis by auto
qed

section \<open>Failed handshakes\<close>

text \<open>A connection that was closed before its handshake ended.\<close>

lemma await_connecting_closed:
  assumes "conn_states (shared t) i = Some cn" and "\<not> is_established cn" and "borrow (closed_tx cn) = Some e"
  shows "await_connecting borrow w Pending (new_server i addr) t = Finished (Err e, t)"
  using assms
  by (subst await_connecting.simps)
    (simp add: connecting_poll_def resolve_conn_id_def new_server_def check_entry_def get_conn_notify_def)

text \<open>
  One bad peer ends the server of the connection example. When the connection that arrives is
  already closed, its accept loop returns the reason as its own error, so the program ends and no
  later connection is served; the file server in the same situation goes on to accept.
\<close>

lemma failed_handshake_ends_server:
  assumes "\<not> endpoint_closed (shared t)" and "env t = ev # evs" and "outcome ev = Arrived (Some data)"
    and "\<not> endpoint_closed (others ev (shared t))"
    and "conn_states (others ev (shared t)) (in_conn_id data) = Some cn"
    and "\<not> is_established cn" and "borrow (closed_tx cn) = Some e"
  shows "\<exists>t'. run_server_loop borrow w t = ([], Finished (Err (show_ConnectionError e), t'))
    \<and> accept_connections borrow w t = accept_connections borrow w t' \<and> env t' = evs"
proof -
  let ?t1 = "t\<lparr>shared := others ev (shared t), env := evs\<rparr>"
  let ?inc = "\<lparr>incoming_id = in_conn_id data, inc_remote_addr = in_remote_addr data\<rparr>"
  let ?t2 = "?t1\<lparr>shared := send_cmd AcceptIncoming (shared ?t1)\<rparr>"
  have acc: "await_accept t = Finished (Some ?inc, ?t1)"
    using assms(1-4) by (simp add: await_accept_def accept_poll_def await_Cons)
  have con: "await_connecting borrow w Pending (new_server (in_conn_id data) (in_remote_addr data)) ?t2
      = Finished (Err e, ?t2)"
    using await_connecting_closed [of ?t2 "in_conn_id data" cn borrow e w] assms(5-7) by simp
  have "run_server_loop borrow w t = ([], Finished (Err (show_ConnectionError e), ?t2))"
    using acc con by (subst run_server_loop.simps) (simp add: accept_incoming_def)
  moreover have "accept_connections borrow w t = accept_connections borrow w ?t2"
    using acc con by (subst accept_connections.simps) (simp add: accept_incoming_def)
  ultimately show ?thesis by (intro exI [of _ ?t2]) simp
qed

end
