(* ===== verification/Debug_Text.thy ===== *)
theory Debug_Text
  imports Endpoint
begin

text \<open>
  The hand-written \<open>Debug\<close> implementations of the structs (\<^verbatim>\<open>src/bridge.rs\<close>, \<^verbatim>\<open>src/config.rs\<close>,
  \<^verbatim>\<open>src/connection.rs\<close>, \<^verbatim>\<open>src/incoming.rs\<close>), as the text \<open>{:?}\<close> prints. The configurations leave out
  the paths of the private key and of the certificates.
\<close>

section \<open>The formatter\<close>

text \<open>\<open>separated s xs\<close> puts \<open>s\<close> between the texts.\<close>

fun separated :: "string \<Rightarrow> string list \<Rightarrow> string" where
  "separated s [] = ''''"
| "separated s [x] = x"
| "separated s (x # y # xs) = x @ s @ separated s (y # xs)"

definition debug_fields :: "(string \<times> string) list \<Rightarrow> string" where
  "debug_fields fs = separated '', '' (map (\<lambda>(name, value). name @ '': '' @ value) fs)"

text \<open>\<open>debug_struct(name).field(..)...finish()\<close> and \<open>finish_non_exhaustive()\<close>\<close>

definition finish_struct :: "string \<Rightarrow> (string \<times> string) list \<Rightarrow> string" where
  "finish_struct name fs =
     (if fs = [] then name else name @ '' { '' @ debug_fields fs @ '' }'')"

definition finish_non_exhaustive :: "string \<Rightarrow> (string \<times> string) list \<Rightarrow> string" where
  "finish_non_exhaustive name fs =
     (if fs = [] then name @ '' { .. }'' else name @ '' { '' @ debug_fields fs @ '', .. }'')"

definition debug_bool :: "bool \<Rightarrow> string" where
  "debug_bool b = (if b then ''true'' else ''false'')"

definition debug_list :: "('a \<Rightarrow> string) \<Rightarrow> 'a list \<Rightarrow> string" where
  "debug_list txt xs = ''['' @ separated '', '' (map txt xs) @ '']''"

definition debug_option :: "('a \<Rightarrow> string) \<Rightarrow> 'a option \<Rightarrow> string" where
  "debug_option txt x = (case x of None \<Rightarrow> ''None'' | Some a \<Rightarrow> ''Some('' @ txt a @ '')'')"

section \<open>The structs\<close>

definition debug_alpn :: "bytes list \<Rightarrow> string" where
  "debug_alpn protocols = debug_list (debug_list (\<lambda>b. show_nat (unat b))) protocols"

definition debug_ConnNotify :: "ConnNotify \<Rightarrow> string" where
  "debug_ConnNotify self =
     finish_non_exhaustive ''ConnNotify'' [(''is_established'', debug_bool (is_established self))]"

definition debug_ServerConfig :: "ServerConfig \<Rightarrow> string" where
  "debug_ServerConfig self =
     finish_non_exhaustive ''ServerConfig''
       [(''alpn_protocols'', debug_alpn (sc_alpn_protocols self)),
        (''enable_early_data'', debug_bool (sc_enable_early_data self)),
        (''enable_retry'', debug_bool (sc_enable_retry self))]"

definition debug_ClientConfig :: "ClientConfig \<Rightarrow> string" where
  "debug_ClientConfig self =
     finish_non_exhaustive ''ClientConfig''
       [(''alpn_protocols'', debug_alpn (cc_alpn_protocols self)),
        (''enable_early_data'', debug_bool (cc_enable_early_data self)),
        (''verify'', debug_bool (cc_verify self))]"

definition debug_Connecting :: "Connecting \<Rightarrow> string" where
  "debug_Connecting self =
     finish_struct ''Connecting''
       [(''conn_id'', debug_option show_u64 (ct_conn_id self)), (''remote_addr'', show_SocketAddr (ct_remote_addr self))]"

definition debug_Incoming :: "Incoming \<Rightarrow> string" where
  "debug_Incoming self =
     finish_non_exhaustive ''Incoming''
       [(''incoming_id'', show_u64 (incoming_id self)), (''remote_addr'', show_SocketAddr (inc_remote_addr self))]"

section \<open>Lemmas\<close>

text \<open>The text of a server's configuration tells nothing about its key and certificate.\<close>

lemma debug_ServerConfig_hides_key:
  "debug_ServerConfig (c\<lparr>sc_cert_file := cert, sc_key_file := key\<rparr>) = debug_ServerConfig c"
  by (simp add: debug_ServerConfig_def)

text \<open>An example of each shape of text.\<close>

lemma debug_texts:
  "debug_ConnNotify (ConnNotify_new a) = ''ConnNotify { is_established: false, .. }''"
  "debug_ServerConfig (ServerConfig_new cert key [[104, 51]])
   = ''ServerConfig { alpn_protocols: [[104, 51]], enable_early_data: false, enable_retry: false, .. }''"
  "debug_Connecting (new_client tx (V4 2130706433 4433)) = ''Connecting { conn_id: None, remote_addr: 127.0.0.1:4433 }''"
  by (simp_all add: debug_ConnNotify_def ConnNotify_new_def finish_non_exhaustive_def debug_fields_def debug_bool_def
      debug_ServerConfig_def ServerConfig_new_def debug_alpn_def debug_list_def debug_Connecting_def new_client_def
      finish_struct_def debug_option_def show_ipv4_def show_nat.simps digit_char_def char_of_def bit_0)

end
