(* ===== verification/Spec2Isabelle.thy ===== *)
theory Spec2Isabelle
  imports Api_Props Refinement Stream_Race Ex_Props Debug_Text
begin

text \<open>
  \<^bold>\<open>A verification of tokio-tquic.\<close>

  tokio-tquic gives the TQUIC implementation of QUIC an asynchronous interface in the style of
  Quinn. TQUIC is not thread safe, so one thread owns the TQUIC endpoint; the API types are handles
  that send commands to that thread over a channel and wait for the answers, and TQUIC calls the
  transport handler back, which records in a shared table what the waiting tasks look at.

  \<^bold>\<open>The program and its model.\<close>

  \<^item> \<open>Lib_Types\<close> and \<open>Errors\<close> (\<^verbatim>\<open>src/lib.rs\<close>, \<^verbatim>\<open>src/error.rs\<close> and the error types of the stream
    files): \<open>VarInt\<close>, \<open>StreamId\<close>, socket addresses with their \<open>Display\<close>, all error types, their
    texts and the conversions between them.
  \<^item> \<open>Config\<close> and \<open>Config_Build\<close> (\<^verbatim>\<open>src/config.rs\<close>, \<^verbatim>\<open>src/ext/config.rs\<close>): the configuration
    structs with every builder method, and the calls \<open>build_tquic_config\<close> makes on TQUIC.
  \<^item> \<open>Bridge_State\<close> (\<^verbatim>\<open>src/bridge.rs\<close>): the commands, \<open>BridgeHandle\<close> and \<open>ConnNotify\<close>.
  \<^item> \<open>Handler\<close>: \<open>PacketSender\<close> and \<open>BridgeTransportHandler\<close>, one function per callback;
    \<open>handle_callback\<close> dispatches and \<open>run_callbacks\<close> folds.
  \<^item> \<open>Commands\<close>: \<open>process_command\<close>, one equation per command.
  \<^item> \<open>Bridge_Loop\<close>: \<open>spawn\<close>, the start of \<open>run_bridge\<close> and its event loop, and the ownership of the
    handle.
  \<^item> \<open>Async\<close>: how \<open>async\<close> functions are modelled (below); \<open>Requests\<close>: the thread's answers, tied to the
    requests a task has really sent.
  \<^item> \<open>Recv_Stream\<close>, \<open>Send_Stream\<close> (\<^verbatim>\<open>src/recv_stream.rs\<close>, \<^verbatim>\<open>src/send_stream.rs\<close>): the stream handles.
  \<^item> \<open>Connection\<close> (\<^verbatim>\<open>src/connection.rs\<close>): \<open>Connecting\<close>, \<open>Connection\<close> and the futures that open and
    accept streams.
  \<^item> \<open>Incoming\<close>, \<open>Endpoint\<close>, \<open>Ext_Connection\<close> (\<^verbatim>\<open>src/incoming.rs\<close>, \<^verbatim>\<open>src/endpoint.rs\<close>,
    \<^verbatim>\<open>src/ext/connection.rs\<close>): the rest of the API.
  \<^item> \<open>Debug_Text\<close>: the hand-written \<open>Debug\<close> implementations of the structs.
  \<^item> \<open>System\<close>: API tasks and the TQUIC thread as one transition system; \<open>Wakeups\<close> and \<open>Stream_Race\<close>:
    three races at the granularity of single accesses to the shared state (\<open>Connecting\<close>, \<open>wait_idle\<close>,
    and the waits of a stream against the transport handler).
  \<^item> \<open>Refinement\<close>: the life cycle of connections as an abstract specification, and that the program
    implements it.
  \<^item> \<open>Futures\<close>: what \<open>.await\<close> does with the futures that are polled by hand. \<open>Ex_Server\<close>, \<open>Ex_Clients\<close>
    (\<^verbatim>\<open>examples/\<close>): the four example programs, written over the API, with the parts of the standard
    library they use: the parser of socket addresses in \<open>Addr_Parse\<close>, UTF-8 decoding, trimming and
    joining of paths in \<open>Utf8\<close>. \<open>Stream_Transfer\<close> has the lemmas on whole streams that their properties
    in \<open>Ex_Props\<close> rest on.

  The theories \<open>Handler_Props\<close>, \<open>Commands_Props\<close>, \<open>Bridge_Props\<close>, \<open>Recv_Props\<close>, \<open>Send_Props\<close>,
  \<open>Connection_Props\<close> and \<open>Api_Props\<close> hold the lemmas and properties of the component they are named
  after; this theory holds the invariant of the whole system and the properties that follow a call
  from the API through the thread to TQUIC and back. \<open>Prelude\<close> holds the shared vocabulary and the
  interfaces: \<open>invariant_system\<close> and \<open>preserved\<close> (invariants of step relations and of runs),
  \<open>commutes\<close> (an operation refines its specification),
  \<open>registry\<close> (the get-or-create tables), \<open>close_once\<close> (\<open>finish\<close>, \<open>reset\<close>, \<open>stop\<close>); \<open>Config_Build\<close> has
  \<open>setter_store\<close>, \<open>Async\<close> has \<open>retry_loop\<close> (\<open>read\<close> and \<open>write\<close>), \<open>Connection_Props\<close> has \<open>one_request\<close>
  (\<open>open_bi\<close> and \<open>open_uni\<close>) and \<open>accept_loop\<close> (\<open>accept_bi\<close> and \<open>accept_uni\<close>). Each is interpreted on the model's own definitions.

  \<^bold>\<open>Code outside the repository.\<close> TQUIC is a parameter: the record \<open>tquic_api\<close> (with
  \<open>tquic_config_api\<close>) of the functions the source calls, over abstract types for its endpoint and
  configurations; each returns the callbacks it makes. Tokio is not implemented either: the sending
  half of a channel is the list of the values sent, a \<open>Notify\<close> the list of the calls made on it, a
  \<open>watch\<close> channel the list of the values it has held, with \<open>borrow\<close> a parameter under \<open>watch_law\<close>.
  The order in which a \<open>DashMap\<close> iterates is a parameter. Where a theorem needs more of TQUIC (that
  closing a connection closes it, that a creation is reported inside \<open>connect\<close>, that indices follow
  a life cycle), this is a hypothesis of the theorem, and its witness satisfies it.

  \<^bold>\<open>Async functions.\<close> A task runs uninterrupted between two awaits. The record \<open>task\<close> carries the
  shared handle and the list of the awaits that will complete; each gives its result, what the close
  watch of the connection held then, and a function: what everybody else did to the handle
  meanwhile. A run is \<open>Finished\<close>, \<open>Suspended\<close> when the list is used up, with the handle as the task
  left it, or \<open>Panicked\<close> when a slice operation is out of bounds. The request a suspended task waits
  for is the last command of that handle (\<open>pending_request\<close>), and \<open>bridge_answer\<close> is what the thread
  answers to it; \<open>served\<close> says of a schedule that every answer in it is one to the request waited for. There is no fuel: every loop awaits in each round, so it terminates by
  the length of the list. Properties quantify over all lists, hence over all schedules, and where a
  function must return this is what is proved. A future that is polled by hand (\<open>Connecting\<close>,
  \<open>OpenBi\<close>, \<open>Accept\<close>, \<open>AsyncRead\<close>, \<open>AsyncWrite\<close>) is a function from the outcome of polling its
  receiver.

  \<^bold>\<open>What is shown.\<close> The system invariant: requests are answered once, in order and with the right
  type; the endpoint is closed exactly when told so; accept queues and close watches are well formed.
  From the API to TQUIC and back: \<open>connect\<close>, \<open>read\<close>, \<open>write\<close> and the multipath operations return what
  TQUIC says to the request they send. Streams: \<open>read_to_end\<close>, \<open>read_exact\<close> and \<open>write_all\<close> transfer
  exactly the bytes of the stream, and it is said when they return and when they wait; reads never
  panic; a stream is ended once. Connections: no wake-up of a \<open>Connecting\<close> and no notification of a
  stream is lost; the recorded reason of a close is what later operations find; a stream is requested
  once; accepting returns the first stream received, which is what the peer opened. Configuration: TQUIC gets the values asked for.
  The thread: each command's answer, the start, the counter of connections; error codes stay
  encodable. Refinement: the callbacks implement the life cycle. Examples: a file fetched by the client is the file the server has; the echo server
  sends back what it got; the command line is read as a reference says, and written-out options are
  read back. Some theorems state behaviour that is probably not meant: \<open>wait_idle\<close> can miss its
  wake-up, the close of a connection does not wake the tasks that wait on its streams, \<open>AsyncRead\<close>
  and \<open>AsyncWrite\<close> never complete, \<open>ignore\<close> answers the peer, the thread never stops, very short
  idle timeouts are disabled, error codes are cut to 32 bits, the file server follows \<open>..\<close>.

  \<^bold>\<open>Not modelled.\<close> Log and terminal output; derived \<open>Debug\<close> output; module re-exports; the tests;
  of the examples the making of certificates, the final sleep and abort and the exit codes, and
  argument texts beyond ASCII (a \<open>string\<close> here is its bytes); memory orderings (the shared state is
  sequentially consistent here, each access atomic). The invariant takes an iteration of the thread as
  one step; the races that need single accesses are in \<open>Wakeups\<close> and \<open>Stream_Race\<close>, the latter with
  one task waiting per direction of a stream, as \<open>&mut self\<close> asks for, and without the background
  tasks of \<open>poll_read\<close> and \<open>poll_write\<close>. Lengths are natural numbers and \<open>usize\<close> has 64
  bits. Responder numbers are unique per task, standing for fresh channels.
\<close>

section \<open>The whole system\<close>

text \<open>
  C1: the invariant of the program. In every state that API tasks and the TQUIC thread can reach
  by interleaving their steps in any order, with any behaviour of TQUIC and of the network: the
  requests the thread has taken from the channel have been answered, each exactly once, in order
  and with a value of its type; the endpoint counts as closed exactly when a \<open>CloseEndpoint\<close> was
  taken; every accept queue holds only streams opened by the peer, of its own direction and
  registered for wake-ups; and a close watch never goes back from a reason to "open".
\<close>

theorem system_invariant:
  assumes "reachable_from started (system_step api iter ec l) s"
  shows "list_all2 (\<lambda>cmd (r, x). responder_of cmd = Some r \<and> answers cmd x)
        (filter (\<lambda>cmd. responder_of cmd \<noteq> None) (taken_commands s)) (responses (thread s))
    \<and> (endpoint_closed (shared_handle s) \<longleftrightarrow> (\<exists>code reason. CloseEndpoint code reason \<in> set (taken_commands s)))
    \<and> (\<forall>i cn. conn_states (shared_handle s) i = Some cn \<longrightarrow>
        (\<forall>x \<in> set (accept_bi_tx cn). even (unat x) = cn_is_server cn \<and> even (unat x div 2))
      \<and> (\<forall>x \<in> set (accept_uni_tx cn). even (unat x) = cn_is_server cn \<and> odd (unat x div 2))
      \<and> set (accept_bi_tx cn) \<union> set (accept_uni_tx cn) \<subseteq> dom (stream_readable cn) \<inter> dom (stream_writable cn)
      \<and> (\<exists>reasons. closed_tx cn = None # map Some reasons))"
proof -
  have ok: "system_ok s" by (rule sys.reachable_inv [OF assms])
  have watch: "\<exists>reasons. ws = None # map Some reasons" if "hd ws = None" "ws \<noteq> []" "None \<notin> set (tl ws)"
    for ws :: closed_watch
  proof -
    have "map (Some \<circ> the) (tl ws) = tl ws"
      using that(3) by (intro map_idI) (metis comp_apply option.collapse)
    with that(1,2) show ?thesis by (metis list.collapse list.map_comp)
  qed
  have closes: "closes_endpoint cmd \<longleftrightarrow> (\<exists>code reason. cmd = CloseEndpoint code reason)" for cmd
    by (cases cmd) (simp_all add: closes_endpoint_def)
  from ok show ?thesis
    by (auto simp: system_ok_def answered_def closes table_ok_def entry_ok_def peer_initiated_parity
        is_bidi_parity intro!: watch)
qed

theorem system_invariant_witness:
  "let s = \<lparr>thread = sample_bridge, received = 0\<rparr>;
       s' = update_handle (send_cmd (OpenBiStream 9 3)) s;
       s'' = s'\<lparr>thread := process_connections sample_api
                (process_command sample_api (\<lambda>m. []) EndpointConfig_default addr_unspecified
                   (OpenBiStream 9 3) (thread s')), received := 1\<rparr>
   in list_all2 (\<lambda>cmd (r, x). responder_of cmd = Some r \<and> answers cmd x)
        (filter (\<lambda>cmd. responder_of cmd \<noteq> None) (taken_commands s'')) (responses (thread s''))
      \<and> taken_commands s'' = [OpenBiStream 9 3]"
proof -
  let ?s = "\<lparr>thread = sample_bridge, received = 0\<rparr>"
  let ?s' = "update_handle (send_cmd (OpenBiStream 9 3)) ?s"
  let ?b = "process_connections sample_api
    (process_command sample_api (\<lambda>m. []) EndpointConfig_default addr_unspecified (OpenBiStream 9 3) (thread ?s'))"
  let ?step = "system_step sample_api (\<lambda>m. []) EndpointConfig_default addr_unspecified"
  have "reachable_from started ?step ?s"
    by (rule reachable_from.start)
      (auto simp: started_def sample_bridge_def sample_handler_def)
  moreover have "?step ?s ?s'" by (rule system_step.send)
  ultimately have send: "reachable_from started ?step ?s'" by (rule reachable_from.step)
  have cmds: "cmd_tx (shared_handle ?s') = [OpenBiStream 9 3]"
    by (simp add: sample_bridge_def sample_handler_def BridgeHandle_new_def)
  then have "?step ?s' (?s'\<lparr>thread := ?b, received := Suc (received ?s')\<rparr>)"
    by (intro system_step.command) simp_all
  then have "?step ?s' (?s'\<lparr>thread := ?b, received := 1\<rparr>)" by simp
  with send have "reachable_from started ?step (?s'\<lparr>thread := ?b, received := 1\<rparr>)" by (rule reachable_from.step)
  from system_invariant [OF this, THEN conjunct1]
  show ?thesis using cmds by (simp add: Let_def taken_commands_def)
qed

section \<open>From the API to TQUIC and back\<close>

text \<open>
  C11: a connection attempt, end to end. \<open>connect\<close> on an open endpoint sends one command; when the
  thread has processed it and its answer is polled, a failed attempt ends the \<open>Connecting\<close> future
  with the converted error, and a successful one gives the future TQUIC's index, under which the
  table has an entry, so that it goes on to wait for the handshake. TQUIC is relied on to report
  the creation of a connection inside the call that creates it.
\<close>

theorem connect_end_to_end:
  assumes "\<not> endpoint_closed h" and "handle (handler b) = send_cmd (Connect addr name None tx) h"
    and "\<forall>cfg i cbs q. ep_connect api l addr (Some name) None None cfg (endpoint b) = (Ok i, cbs, q)
      \<longrightarrow> created_in i cbs"
  shows "\<exists>c res. endpoint_connect tx addr name h = (Ok c, handle (handler b))
    \<and> (let b' = process_command api iter ec l (Connect addr name None tx) b in
        responses b' = responses b @ [(tx, RespConnect res)]
      \<and> (case connecting_poll borrow w (Ready (Ok res)) f c (handle (handler b')) of
           (r, c', h') \<Rightarrow>
             (case res of
                Err e \<Rightarrow> r = Ready (Err (from_connect_error e))
              | Ok i \<Rightarrow> ct_conn_id c' = Some i \<and> conn_states (handle (handler b')) i \<noteq> None)))"
proof -
  let ?c = "new_client tx addr" and ?b = "process_command api iter ec l (Connect addr name None tx) b"
  obtain res where res: "responses ?b = responses b @ [(tx, RespConnect res)]"
    using process_connect_answer [of api ec l addr name None tx b] by auto
  have known: "conn_states (handle (run_callbacks cbs (handler b))) i \<noteq> None"
    if "ep_connect api l addr (Some name) None None cfg (endpoint b) = (Ok i, cbs, q)" for cfg i cbs q
    using created_in_entry assms(3) that by blast
  have entry: "conn_states (handle (handler ?b)) i \<noteq> None" if "res = Ok i" for i
    using res that
    by (auto simp: process_connect_def call_connect_def dest!: known
        split: option.split_asm result.split_asm prod.split_asm)
  have resolved: "ct_conn_id (fst (snd (connecting_poll borrow w (Ready (Ok (Ok i))) f ?c g))) = Some i" for i g
    by (simp add: connecting_poll_def resolve_conn_id_def new_client_def Let_def split: option.split)
  have "case connecting_poll borrow w (Ready (Ok res)) f ?c (handle (handler ?b)) of
           (r, c', h') \<Rightarrow>
             (case res of
                Err e \<Rightarrow> r = Ready (Err (from_connect_error e))
              | Ok i \<Rightarrow> ct_conn_id c' = Some i \<and> conn_states (handle (handler ?b)) i \<noteq> None)"
  proof (cases res)
    case (Err e)
    then show ?thesis by (simp add: connecting_poll_def resolve_conn_id_def new_client_def)
  next
    case (Ok i)
    with entry resolved [of i "handle (handler ?b)"] show ?thesis
      by (cases "connecting_poll borrow w (Ready (Ok (Ok i))) f ?c (handle (handler ?b))") simp
  qed
  with res assms(1,2) show ?thesis
    by (intro exI [of _ ?c] exI [of _ res]) (simp only: endpoint_connect_def Let_def if_False simp_thms)
qed

theorem connect_end_to_end_witness:
  "\<exists>c res. endpoint_connect 3 addr_unspecified ''host'' (BridgeHandle_new addr_unspecified)
      = (Ok c, send_cmd (Connect addr_unspecified ''host'' None 3) (BridgeHandle_new addr_unspecified))
    \<and> responses (process_command sample_api (\<lambda>m. []) EndpointConfig_default addr_unspecified
        (Connect addr_unspecified ''host'' None 3)
        (sample_bridge\<lparr>handler := sample_handler\<lparr>handle :=
           send_cmd (Connect addr_unspecified ''host'' None 3) (BridgeHandle_new addr_unspecified)\<rparr>\<rparr>))
      = [(3, RespConnect res)]"
proof -
  let ?h = "BridgeHandle_new addr_unspecified"
  let ?b = "sample_bridge\<lparr>handler := sample_handler\<lparr>handle :=
    send_cmd (Connect addr_unspecified ''host'' None 3) ?h\<rparr>\<rparr>"
  have a: "\<not> endpoint_closed ?h" by (simp add: BridgeHandle_new_def)
  have b: "handle (handler ?b) = send_cmd (Connect addr_unspecified ''host'' None 3) ?h" by simp
  have c: "\<forall>cfg i cbs q. ep_connect sample_api addr_unspecified addr_unspecified (Some ''host'') None None cfg
      (endpoint ?b) = (Ok i, cbs, q) \<longrightarrow> created_in i cbs"
    by (auto simp: sample_api_def created_in_def is_created_def)
  from connect_end_to_end [where h = ?h and b = ?b and addr = addr_unspecified and name = "''host''" and tx = 3
      and api = sample_api and l = addr_unspecified and iter = "\<lambda>m. []" and ec = EndpointConfig_default
      and borrow = last and w = 0 and f = id, OF a b c]
  obtain c res where "endpoint_connect 3 addr_unspecified ''host'' ?h = (Ok c, handle (handler ?b))"
    "responses (process_command sample_api (\<lambda>m. []) EndpointConfig_default addr_unspecified
       (Connect addr_unspecified ''host'' None 3) ?b) = responses ?b @ [(3, RespConnect res)]"
    unfolding Let_def by blast
  moreover have "responses ?b = []" by (simp add: sample_bridge_def)
  ultimately show ?thesis unfolding b by auto
qed

text \<open>
  C12: a read, end to end. \<open>read\<close> on a stream that is not finished first waits for an answer; when
  it gets the thread's answer to the request it has really sent, the result is decided by what TQUIC
  says about this stream of this connection, asked for as many bytes as the buffer has. With \<open>n\<close>
  bytes, \<open>read\<close> returns \<open>n\<close>, the front of the buffer holds exactly the bytes TQUIC wrote, the rest is
  untouched, and the stream is marked as finished exactly when TQUIC reported its end; at the end
  without bytes it returns \<open>None\<close>. A reset stream gives the code of the reset (its low 32 bits), any
  other error a closed stream, an unknown connection \<open>LocallyClosed\<close>, the buffer being untouched.
  When TQUIC has nothing yet and the connection is open, \<open>read\<close> waits again, and the stream now
  has an entry under which it can be woken up.
\<close>

theorem read_end_to_end:
  assumes "\<not> all_data_read self" and "env t = ev # evs" and "rs_conn_id self = i" and "rs_stream_id self = s"
    and "stream_read api i s (length buf) (endpoint b) = (res, data, q)"
    and "conn_get api i (endpoint b) = known"
  shows "\<exists>h. read borrow self buf (t\<lparr>env := []\<rparr>) = Suspended h
    \<and> (outcome ev = Answered (Some (bridge_answer api iter ec l (pending_request h) b)) \<longrightarrow>
        (\<forall>n fin. known \<and> res = Ok (n, fin) \<and> n \<le> length buf \<and> (0 < n \<or> fin) \<longrightarrow>
          (\<exists>t'. read borrow self buf t = Finished (Ok (if n = 0 then None else Some n),
              self\<lparr>all_data_read := fin\<rparr>, map data [0 ..< n] @ drop n buf, t') \<and> env t' = evs))
      \<and> (\<forall>e. known \<and> res = Err e \<and> e \<noteq> Done \<longrightarrow>
          (\<exists>t'. read borrow self buf t = Finished (Err (case e of
              StreamReset code \<Rightarrow> ReadReset (varint_from_u32 (ucast code)) | _ \<Rightarrow> ReadClosedStream), self, buf, t')
            \<and> env t' = evs))
      \<and> (known \<and> (res = Err Done \<or> res = Ok (0, False)) \<and> conn_open borrow i (others ev h) \<longrightarrow>
          (\<exists>h' cn. read borrow self buf (t\<lparr>env := [ev]\<rparr>) = Suspended h' \<and> conn_states h' i = Some cn
            \<and> s \<in> dom (stream_readable cn)))
      \<and> (\<not> known \<longrightarrow>
          (\<exists>t'. read borrow self buf t = Finished (Err (ReadConnectionLost LocallyClosed), self, buf, t')
            \<and> env t' = evs)))"
proof -
  let ?h = "send_cmd (StreamRead i s (length buf) (next_tx t)) (shared t)"
  have read: "read borrow self buf = read_loop borrow self buf" using assms(1) by (simp add: read_def fun_eq_iff)
  have asks: "read borrow self buf (t\<lparr>env := []\<rparr>) = Suspended ?h"
    using assms(3,4) by (simp add: read read_loop_unfold await_answer_Nil)
  have answered: "read borrow self buf (t\<lparr>env := ev # rest\<rparr>) = after_read_answer borrow self buf
      (Ok (if known then read_result (length buf) (res, data) else Err (ReadConnectionLost LocallyClosed)),
       t\<lparr>next_tx := Suc (next_tx t), shared := others ev ?h, env := rest\<rparr>)"
    if "outcome ev = Answered (Some (bridge_answer api iter ec l (pending_request ?h) b))" for rest
    using that assms(3-6)
    by (simp add: bridge_answer_query [OF process_command.simps(11)] read read_loop_unfold
        await_answer_def await_def send_request_def)
  have full: "t\<lparr>env := ev # evs\<rparr> = t" using assms(2) by (cases t) simp
  note run = answered [of evs, unfolded full] and first = answered [of "[]"]
  have waits: "\<exists>h' cn. read borrow self buf (t\<lparr>env := [ev]\<rparr>) = Suspended h' \<and> conn_states h' i = Some cn
      \<and> s \<in> dom (stream_readable cn)"
    if "outcome ev = Answered (Some (bridge_answer api iter ec l (pending_request ?h) b))" "known"
      "res = Err Done \<or> res = Ok (0, False)" "conn_open borrow i (others ev ?h)"
    using first that assms(3,4) wait_readable_registers
      [of "t\<lparr>next_tx := Suc (next_tx t), shared := others ev ?h, env := []\<rparr>" borrow self]
    by (auto simp: after_read_answer_def read_result_def)
  show ?thesis
    using asks assms(1) waits
    by (intro exI [of _ ?h]) (auto simp: run after_read_answer_def read_result_def take_map take_upt write_front_def
        split: tquic_Error.split)
qed

theorem read_end_to_end_witness:
  "\<exists>h t'. read last sample_recv [0, 0, 0] (sample_task []) = Suspended h
    \<and> pending_request h = StreamRead 7 4 3 0
    \<and> read last sample_recv [0, 0, 0]
        (sample_task [calm (Answered (Some (bridge_answer sample_api (\<lambda>m. []) EndpointConfig_default
           addr_unspecified (pending_request h) sample_bridge)))])
      = Finished (Ok (Some 3), sample_recv\<lparr>all_data_read := True\<rparr>, [1, 2, 3], t')"
proof -
  let ?ans = "bridge_answer sample_api (\<lambda>m. []) EndpointConfig_default addr_unspecified
    (StreamRead 7 4 3 0) sample_bridge"
  let ?ev = "calm (Answered (Some ?ans))"
  let ?t = "sample_task [?ev]"
  let ?data = "\<lambda>i. if i < 3 then [1, 2, 3 :: u8] ! i else 0"
  have "\<not> all_data_read sample_recv" "env ?t = ?ev # []" "rs_conn_id sample_recv = 7" "rs_stream_id sample_recv = 4"
    by (simp_all add: sample_recv_def sample_task_def)
  moreover have "stream_read sample_api 7 4 (length [0, 0, 0 :: u8]) (endpoint sample_bridge)
      = (Ok (3, True), ?data, (endpoint sample_bridge)\<lparr>se_data := []\<rparr>)"
    by (auto simp: sample_api_def sample_bridge_def sample_read_def fun_eq_iff)
  moreover have "conn_get sample_api 7 (endpoint sample_bridge) = True"
    by (simp add: sample_api_def sample_bridge_def)
  ultimately obtain h where h: "read last sample_recv [0, 0, 0] (?t\<lparr>env := []\<rparr>) = Suspended h"
    "outcome ?ev = Answered (Some (bridge_answer sample_api (\<lambda>m. []) EndpointConfig_default addr_unspecified
       (pending_request h) sample_bridge)) \<Longrightarrow>
     \<exists>t'. read last sample_recv [0, 0, 0] ?t
       = Finished (Ok (Some 3), sample_recv\<lparr>all_data_read := True\<rparr>, map ?data [0 ..< 3] @ drop 3 [0, 0, 0], t')"
    using read_end_to_end [of sample_recv ?t ?ev "[]" 7 4 sample_api "[0, 0, 0]" sample_bridge "Ok (3, True)" ?data
        "(endpoint sample_bridge)\<lparr>se_data := []\<rparr>" True last "\<lambda>m. []" EndpointConfig_default addr_unspecified]
    by auto
  have "pending_request h = StreamRead 7 4 3 0"
    using h(1) by (auto simp: read_def sample_recv_def sample_task_def read_loop_unfold await_answer_Nil)
  with h show ?thesis by (auto simp: sample_task_def upt_rec)
qed

text \<open>
  C5: a write, end to end. \<open>write\<close> on a stream that is not finished first waits for an answer; when it
  gets the thread's answer to the request it has really sent, the result is decided by what TQUIC
  says when it is given the whole buffer for this stream of this connection, without the end of the
  stream. When TQUIC takes \<open>n\<close> bytes, \<open>write\<close> returns \<open>n\<close>; a stopped stream gives the peer's code (its
  low 32 bits), any other error a closed stream, an unknown connection \<open>LocallyClosed\<close>. When TQUIC
  takes nothing and the connection is open, \<open>write\<close> waits again, and the stream now has an entry
  under which it can be woken up.
\<close>

theorem write_end_to_end:
  assumes "\<not> finished self" and "env t = ev # evs" and "ss_conn_id self = i" and "ss_stream_id self = s"
    and "stream_write api i s buf False (endpoint b) = (res, q)"
    and "conn_get api i (endpoint b) = known"
  shows "\<exists>h. send_write borrow self buf (t\<lparr>env := []\<rparr>) = Suspended h
    \<and> (outcome ev = Answered (Some (bridge_answer api iter ec l (pending_request h) b)) \<longrightarrow>
        (\<forall>n. known \<and> res = Ok n \<and> 0 < n \<longrightarrow>
          (\<exists>t'. send_write borrow self buf t = Finished (Ok n, t') \<and> env t' = evs))
      \<and> (\<forall>e. known \<and> res = Err e \<and> e \<noteq> Done \<longrightarrow>
          (\<exists>t'. send_write borrow self buf t = Finished (Err (case e of
              StreamStopped code \<Rightarrow> Stopped (varint_from_u32 (ucast code)) | _ \<Rightarrow> WriteClosedStream), t')
            \<and> env t' = evs))
      \<and> (known \<and> (res = Err Done \<or> res = Ok 0) \<and> conn_open borrow i (others ev h) \<longrightarrow>
          (\<exists>h' cn. send_write borrow self buf (t\<lparr>env := [ev]\<rparr>) = Suspended h' \<and> conn_states h' i = Some cn
            \<and> s \<in> dom (stream_writable cn)))
      \<and> (\<not> known \<longrightarrow>
          (\<exists>t'. send_write borrow self buf t = Finished (Err (WriteConnectionLost LocallyClosed), t')
            \<and> env t' = evs)))"
proof -
  let ?h = "send_cmd (StreamWrite i s buf False (next_tx t)) (shared t)"
  let ?t1 = "\<lambda>rest. t\<lparr>next_tx := Suc (next_tx t), shared := others ev ?h, env := rest\<rparr>"
  let ?ans = "if known then write_result res else Err (WriteConnectionLost LocallyClosed)"
  have wr: "send_write borrow self buf = write_loop borrow self buf"
    using assms(1) by (simp add: send_write_def fun_eq_iff)
  have asks: "send_write borrow self buf (t\<lparr>env := []\<rparr>) = Suspended ?h"
    unfolding wr using assms(3,4) by (subst write_loop.simps) (simp add: await_answer_Nil)
  have answered: "await_answer write_response (send_request (StreamWrite (ss_conn_id self) (ss_stream_id self) buf False)
      (t\<lparr>env := ev # rest\<rparr>)) = Finished (Ok ?ans, ?t1 rest)"
    if "outcome ev = Answered (Some (bridge_answer api iter ec l (pending_request ?h) b))" for rest
    using that assms(3-6)
    by (simp add: bridge_answer_query [OF process_command.simps(10)] await_answer_def await_def send_request_def)
  have full: "t\<lparr>env := ev # evs\<rparr> = t" using assms(2) by (cases t) simp
  note run = answered [of evs, unfolded full, THEN write_loop_answer]
    and first = answered [of "[]", THEN write_loop_answer]
  have waits: "\<exists>h' cn. send_write borrow self buf (t\<lparr>env := [ev]\<rparr>) = Suspended h' \<and> conn_states h' i = Some cn
      \<and> s \<in> dom (stream_writable cn)"
    if "outcome ev = Answered (Some (bridge_answer api iter ec l (pending_request ?h) b))" "known"
      "res = Err Done \<or> res = Ok 0" "conn_open borrow i (others ev ?h)"
    using first that assms(3,4) wait_writable_registers [of "?t1 []" borrow self]
    by (auto simp: wr write_result_def)
  show ?thesis
    using asks waits
    by (intro exI [of _ ?h]) (auto simp: wr run write_result_def split: tquic_Error.split)
qed

theorem write_end_to_end_witness:
  "\<exists>h t'. send_write last \<lparr>ss_conn_id = 7, ss_stream_id = 4, finished = False\<rparr> [1, 2] (sample_task []) = Suspended h
    \<and> pending_request h = StreamWrite 7 4 [1, 2] False 0
    \<and> send_write last \<lparr>ss_conn_id = 7, ss_stream_id = 4, finished = False\<rparr> [1, 2]
        (sample_task [calm (Answered (Some (bridge_answer sample_api (\<lambda>m. []) EndpointConfig_default
           addr_unspecified (pending_request h) sample_bridge)))])
      = Finished (Ok 2, t')"
proof -
  let ?self = "\<lparr>ss_conn_id = 7, ss_stream_id = 4, finished = False\<rparr>"
  let ?ev = "calm (Answered (Some (bridge_answer sample_api (\<lambda>m. []) EndpointConfig_default addr_unspecified
    (StreamWrite 7 4 [1, 2] False 0) sample_bridge)))"
  let ?t = "sample_task [?ev]"
  have "\<not> finished ?self" "env ?t = ?ev # []" "ss_conn_id ?self = 7" "ss_stream_id ?self = 4"
    by (simp_all add: sample_task_def)
  moreover obtain q where "stream_write sample_api 7 4 [1, 2] False (endpoint sample_bridge) = (Ok 2, q)"
    by (simp add: sample_api_def sample_bridge_def)
  moreover have "conn_get sample_api 7 (endpoint sample_bridge) = True"
    by (simp add: sample_api_def sample_bridge_def)
  ultimately obtain h where h: "send_write last ?self [1, 2] (?t\<lparr>env := []\<rparr>) = Suspended h"
    "outcome ?ev = Answered (Some (bridge_answer sample_api (\<lambda>m. []) EndpointConfig_default addr_unspecified
       (pending_request h) sample_bridge)) \<Longrightarrow> \<exists>t'. send_write last ?self [1, 2] ?t = Finished (Ok 2, t')"
    using write_end_to_end [of ?self ?t ?ev "[]" 7 4 sample_api "[1, 2]" sample_bridge "Ok 2" q True last "\<lambda>m. []"
        EndpointConfig_default addr_unspecified]
    by auto
  have "write_loop last ?self [1, 2] (sample_task []) = Suspended h"
    using h(1) by (simp add: send_write_def sample_task_def)
  then have "pending_request h = StreamWrite 7 4 [1, 2] False 0"
    by (subst (asm) write_loop.simps) (auto simp: await_answer_Nil sample_task_def)
  with h show ?thesis by (auto simp: sample_task_def)
qed

text \<open>
  C33: the multipath operations, end to end: each first waits, and when it gets the thread's answer to
  the request it has really sent, it returns TQUIC's outcome of the corresponding operation on this
  connection with these addresses, path errors as transport errors that name the operation, or
  \<open>LocallyClosed\<close> when TQUIC does not know the connection.
\<close>

theorem multipath_end_to_end:
  assumes "env t = ev # evs" and "c_conn_id c = i"
    and "\<And>h. answer_to h \<longleftrightarrow> outcome ev = Answered (Some (bridge_answer api iter ec l (pending_request h) b))"
    and "\<And>op e. failed op e = TransportError 0 (op @ '': '' @ show_error (config_api api) e)"
    and "conn_get api i (endpoint b) = known"
  shows "(\<exists>h. ext_add_path a r c (t\<lparr>env := []\<rparr>) = Suspended h
      \<and> (answer_to h \<longrightarrow> (\<exists>t'. ext_add_path a r c t = Finished
          (if known then map_err (failed ''add_path'') (map_ok (\<lambda>_. ()) (fst (add_path api i a r (endpoint b))))
           else Err LocallyClosed, t'))))
    \<and> (\<exists>h. ext_abandon_path a r c (t\<lparr>env := []\<rparr>) = Suspended h
      \<and> (answer_to h \<longrightarrow> (\<exists>t'. ext_abandon_path a r c t = Finished
          (if known then map_err (failed ''abandon_path'') (fst (abandon_path api i a r (endpoint b)))
           else Err LocallyClosed, t'))))
    \<and> (\<exists>h. ext_migrate_path a r c (t\<lparr>env := []\<rparr>) = Suspended h
      \<and> (answer_to h \<longrightarrow> (\<exists>t'. ext_migrate_path a r c t = Finished
          (if known then map_err (failed ''migrate_path'') (fst (migrate_path api i a r (endpoint b)))
           else Err LocallyClosed, t'))))
    \<and> (\<exists>h. ext_path_stats a r c (t\<lparr>env := []\<rparr>) = Suspended h
      \<and> (answer_to h \<longrightarrow> (\<exists>t'. ext_path_stats a r c t = Finished
          (if known then map_err (failed ''get_path_stats'') (fst (get_path_stats api i a r (endpoint b)))
           else Err LocallyClosed, t'))))
    \<and> (\<exists>h. ext_paths c (t\<lparr>env := []\<rparr>) = Suspended h
      \<and> (answer_to h \<longrightarrow> (\<exists>t'. ext_paths c t = Finished
          (if known then Ok (paths_iter api i (endpoint b)) else Err LocallyClosed, t'))))"
proof -
  have failed: "path_error api op = failed op" for op
    by (auto simp: path_error_def assms(4) fun_eq_iff)
  have copy: "copy_path_stats s = s" for s
    by (simp add: copy_path_stats_def)
  have copied: "map_ok copy_path_stats x = x" for x :: "(tquic_Error, PathStats) result"
    by (cases x) (simp_all add: copy)
  note query = process_command.simps(16-20) [THEN bridge_answer_query]
  note defs = ext_add_path_def ext_abandon_path_def ext_migrate_path_def ext_path_stats_def ext_paths_def
  show ?thesis
    using assms(1,2,5)
    by (auto simp: assms(3) query defs failed copied await_answer_Nil await_answer_Some)
qed

theorem multipath_end_to_end_witness:
  "\<exists>h t'. ext_add_path addr_unspecified addr_unspecified \<lparr>c_conn_id = 9\<rparr> (sample_task []) = Suspended h
    \<and> pending_request h = AddPath 9 addr_unspecified addr_unspecified 0
    \<and> ext_add_path addr_unspecified addr_unspecified \<lparr>c_conn_id = 9\<rparr>
        (sample_task [calm (Answered (Some (bridge_answer sample_api (\<lambda>m. []) EndpointConfig_default
           addr_unspecified (pending_request h) sample_bridge)))])
      = Finished (Err LocallyClosed, t')"
proof -
  let ?ev = "calm (Answered (Some (bridge_answer sample_api (\<lambda>m. []) EndpointConfig_default addr_unspecified
    (AddPath 9 addr_unspecified addr_unspecified 0) sample_bridge)))"
  let ?t = "sample_task [?ev]"
  have "env ?t = ?ev # []" by (simp add: sample_task_def)
  moreover have "conn_get sample_api 9 (endpoint sample_bridge) = False"
    by (simp add: sample_api_def sample_bridge_def)
  ultimately obtain h where h:
    "ext_add_path addr_unspecified addr_unspecified \<lparr>c_conn_id = 9\<rparr> (?t\<lparr>env := []\<rparr>) = Suspended h"
    "outcome ?ev = Answered (Some (bridge_answer sample_api (\<lambda>m. []) EndpointConfig_default addr_unspecified
       (pending_request h) sample_bridge))
     \<Longrightarrow> \<exists>t'. ext_add_path addr_unspecified addr_unspecified \<lparr>c_conn_id = 9\<rparr> ?t = Finished (Err LocallyClosed, t')"
    using multipath_end_to_end [where t = ?t and ev = ?ev and evs = "[]" and c = "\<lparr>c_conn_id = 9\<rparr>"
        and i = 9 and api = sample_api and b = sample_bridge and known = False and iter = "\<lambda>m. []"
        and ec = EndpointConfig_default and l = addr_unspecified and a = addr_unspecified and r = addr_unspecified,
        OF _ _ refl refl]
    by auto
  have "pending_request h = AddPath 9 addr_unspecified addr_unspecified 0"
    using h(1) by (auto simp: ext_add_path_def sample_task_def await_answer_Nil)
  with h show ?thesis by (auto simp: sample_task_def)
qed

end
